theory Spec2Isabelle
  imports Complex_Main "HOL-Library.Word"
begin

unbundle bit_operations_syntax

section \<open>Hydraulic erosion on a heightmap: the embedding\<close>

text \<open>
  The C program simulates water drops eroding a terrain. Its \<^verbatim>\<open>double\<close> values are
  modelled by the real numbers: every division of the erosion engine is guarded by the
  source itself (\<^verbatim>\<open>sum_w > EPSILON\<close>, \<^verbatim>\<open>total_weight > 0.0\<close>, \<^verbatim>\<open>norm > EPSILON\<close>), so
  on finite inputs no special value arises there; rounding is not modelled. The terrain
  generator divides without a guard, and its values are modelled with the special values
  of the IEEE arithmetic (type \<open>dbl\<close>). The library's \<^verbatim>\<open>sqrt\<close> and \<^verbatim>\<open>exp2\<close> are the
  real functions; the drop loop applies \<^verbatim>\<open>sqrt\<close> to sums of squares and, when the
  gravity is not negative, to a non-negative velocity term. The C type \<^verbatim>\<open>int\<close> is
  modelled by the unbounded integers: signed overflow and the conversion of an
  out-of-range \<^verbatim>\<open>double\<close> are undefined in C and outside the model.
\<close>

subsection \<open>Macros and types of simulation.h\<close>

text \<open>
  \<^verbatim>\<open>#define EPSILON 0.00001\<close>: the constant is the \<^verbatim>\<open>double\<close> nearest to one
  hundred-thousandth, \<open>5902958103587057 / 2 ^ 69\<close>.
\<close>

definition EPSILON :: real where
  "EPSILON = 5902958103587057 / 2 ^ 69"

text \<open>\<^verbatim>\<open>#define MIN(a, b) (a < b ? a : b)\<close> and its siblings.\<close>

definition c_MIN :: "'a::linorder \<Rightarrow> 'a \<Rightarrow> 'a" where
  "c_MIN a b = (if a < b then a else b)"

definition c_MAX :: "'a::linorder \<Rightarrow> 'a \<Rightarrow> 'a" where
  "c_MAX a b = (if a > b then a else b)"

definition c_ABS :: "real \<Rightarrow> real" where
  "c_ABS a = (if a < 0 then - a else a)"

text \<open>The conversion \<^verbatim>\<open>(int)d\<close> of a double truncates towards zero.\<close>

definition c_trunc :: "real \<Rightarrow> int" where
  "c_trunc r = (if 0 \<le> r then \<lfloor>r\<rfloor> else \<lceil>r\<rceil>)"

record vec2 =
  vec_x :: real
  vec_y :: real

record drop =
  position :: vec2
  direction :: vec2
  lifetime :: int
  velocity :: real
  water :: real
  sediment :: real

record parameters =
  inertia :: real
  slope :: real
  capacity :: real
  deposition :: real
  erosion :: real
  gravity :: real
  evaporation :: real
  radius :: int

record weight =
  used :: bool
  w_x :: int
  w_y :: int
  w_w :: real

text \<open>
  The heightmap is reached through a pointer to its first cell and the macro
  \<^verbatim>\<open>H(heightmap, w, x, y) = *(heightmap + y * w + x)\<close>. The model is a store from
  the offset (in cells, from that pointer) to the value held there; the grid itself is
  the offsets \<open>0 \<le> i < width * height\<close>.
\<close>

type_synonym heightmap = "int \<Rightarrow> real"

definition H :: "heightmap \<Rightarrow> int \<Rightarrow> int \<Rightarrow> int \<Rightarrow> real" where
  "H h w cx cy = h (cy * w + cx)"

definition H_add :: "heightmap \<Rightarrow> int \<Rightarrow> int \<Rightarrow> int \<Rightarrow> real \<Rightarrow> heightmap" where
  "H_add h w cx cy q = h (cy * w + cx := h (cy * w + cx) + q)"

definition grid_total :: "int \<Rightarrow> int \<Rightarrow> heightmap \<Rightarrow> real" where
  "grid_total width height h = sum h {0 ..< width * height}"

subsection \<open>Gradient\<close>

definition compute_gradient_central :: "int \<Rightarrow> heightmap \<Rightarrow> vec2 \<Rightarrow> vec2" where
  "compute_gradient_central w h pos =
     (let cx = c_trunc (vec_x pos); cy = c_trunc (vec_y pos)
      in if cx < 1 \<or> cx \<ge> w - 1 \<or> cy < 1 \<or> cy \<ge> w - 1
         then \<lparr>vec_x = 0, vec_y = 0\<rparr>
         else \<lparr>vec_x = (H h w (cx + 1) cy - H h w (cx - 1) cy) * (1 / 2),
               vec_y = (H h w cx (cy + 1) - H h w cx (cy - 1)) * (1 / 2)\<rparr>)"

definition compute_gradient :: "int \<Rightarrow> heightmap \<Rightarrow> vec2 \<Rightarrow> vec2" where
  "compute_gradient w h pos =
     (let cx = c_trunc (vec_x pos); cy = c_trunc (vec_y pos);
          u = (1 / 2 :: real); v = (1 / 2 :: real)
      in \<lparr>vec_x = (H h w (cx + 1) cy - H h w cx cy) * (1 - v) +
                    (H h w (cx + 1) (cy + 1) - H h w cx (cy + 1)) * v,
            vec_y = (H h w cx (cy + 1) - H h w cx cy) * (1 - u) +
                    (H h w (cx + 1) (cy + 1) - H h w (cx + 1) cy) * u\<rparr>)"

subsection \<open>Validity of a drop's position\<close>

text \<open>The C function returns the \<^verbatim>\<open>int\<close> value of the conjunction, 1 or 0.\<close>

definition verify_drop_pos :: "drop \<Rightarrow> int \<Rightarrow> int \<Rightarrow> bool" where
  "verify_drop_pos d width height =
     (let cx = c_trunc (vec_x (position d)); cy = c_trunc (vec_y (position d))
      in 0 < cx \<and> cx < width - 1 \<and> 0 < cy \<and> cy < height - 1)"

subsection \<open>Deposition\<close>

text \<open>
  One of the four guarded additions of \<^verbatim>\<open>simulate_deposition\<close>:
  \<^verbatim>\<open>if (to_drop * w > 0.0) { dropped = to_drop * w; H(...) += dropped; sum_dropped += dropped; }\<close>
\<close>

definition drop_cell :: "int \<Rightarrow> int \<Rightarrow> int \<Rightarrow> real \<Rightarrow> real \<times> heightmap \<Rightarrow> real \<times> heightmap" where
  "drop_cell width cx cy q st =
     (case st of (sum_dropped, hm) \<Rightarrow>
        if q > 0 then (sum_dropped + q, H_add hm width cx cy q) else (sum_dropped, hm))"

text \<open>The result is the value returned and the heightmap as the call leaves it.\<close>

definition simulate_deposition ::
  "int \<Rightarrow> int \<Rightarrow> heightmap \<Rightarrow> vec2 \<Rightarrow> real \<Rightarrow> real \<times> heightmap" where
  "simulate_deposition width height hm pos to_drop =
     (let x1 = c_trunc (vec_x pos); y1 = c_trunc (vec_y pos);
          x2 = c_MIN (x1 + 1) (width - 1); y2 = c_MIN (y1 + 1) (height - 1);
          dx = vec_x pos - real_of_int x1; dy = vec_y pos - real_of_int y1;
          w11 = (1 - dx) * (1 - dy);
          w12 = (1 - dx) * dy;
          w21 = dx * (1 - dy);
          w22 = dx * dy;
          sum_w = w11 + w12 + w21 + w22
      in if sum_w \<le> EPSILON then (0, hm)
         else drop_cell width x2 y2 (to_drop * (w22 / sum_w))
               (drop_cell width x2 y1 (to_drop * (w21 / sum_w))
                 (drop_cell width x1 y2 (to_drop * (w12 / sum_w))
                   (drop_cell width x1 y1 (to_drop * (w11 / sum_w)) (0, hm)))))"

subsection \<open>Random numbers\<close>

text \<open>
  \<^verbatim>\<open>rand()\<close> belongs to the C library. The model takes the sequence of its results,
  already converted to \<^verbatim>\<open>unsigned int\<close>, as a parameter \<open>rnd\<close>, and threads the
  number \<open>k\<close> of calls made so far.
\<close>

definition PCG_Hash :: "32 word \<Rightarrow> 32 word" where
  "PCG_Hash input =
     (let state = input * 747796405 + 2891336453;
          word = (drop_bit (unat (drop_bit 28 state + 4)) state XOR state) * 277803737
      in drop_bit 22 word XOR word)"

definition UINT32_MAX :: real where
  "UINT32_MAX = 4294967295"

definition random_double :: "32 word \<Rightarrow> real" where
  "random_double seed = (let hash = PCG_Hash seed in real (unat hash) / UINT32_MAX)"

definition random_double_min_max :: "32 word \<Rightarrow> real \<Rightarrow> real \<Rightarrow> real" where
  "random_double_min_max seed lo hi = (let normalized = random_double seed in lo + normalized * (hi - lo))"

definition random_vec2 :: "(nat \<Rightarrow> 32 word) \<Rightarrow> nat \<Rightarrow> int \<Rightarrow> int \<Rightarrow> vec2" where
  "random_vec2 rnd k width height =
     \<lparr>vec_x = random_double_min_max (rnd k) 0 (real_of_int width),
      vec_y = random_double_min_max (rnd (k + 1)) 0 (real_of_int height)\<rparr>"

subsection \<open>One drop\<close>

text \<open>
  The loop \<^verbatim>\<open>while (norm <= EPSILON)\<close> of \<^verbatim>\<open>simulate_drop\<close>, which draws a new
  direction until it is long enough. It has no bound in the source: \<open>None\<close> is the
  run that never leaves it.
\<close>

partial_function (option) resample ::
  "(nat \<Rightarrow> 32 word) \<Rightarrow> nat \<Rightarrow> vec2 \<Rightarrow> real \<Rightarrow> (vec2 \<times> real \<times> nat) option" where
  "resample rnd k new_dir nrm =
     (if nrm \<le> EPSILON
      then (let nx = random_double (rnd k); ny = random_double (rnd (k + 1))
            in resample rnd (k + 2) \<lparr>vec_x = nx, vec_y = ny\<rparr> (sqrt (nx * nx + ny * ny)))
      else Some (new_dir, nrm, k))"

text \<open>
  The two loops of the uphill branch:
  \<^verbatim>\<open>while (to_drop > EPSILON) to_drop -= simulate_deposition(..., old_pos, drop.sediment);\<close>
  and
  \<^verbatim>\<open>while (drop.sediment > EPSILON) drop.sediment -= simulate_deposition(..., old_pos, drop.sediment);\<close>
\<close>

partial_function (option) deposit_rest ::
  "int \<Rightarrow> int \<Rightarrow> vec2 \<Rightarrow> real \<Rightarrow> heightmap \<Rightarrow> real \<Rightarrow> (heightmap \<times> real) option" where
  "deposit_rest width height old_pos sed hm to_drop =
     (if to_drop > EPSILON
      then (case simulate_deposition width height hm old_pos sed of
              (r, hm') \<Rightarrow> deposit_rest width height old_pos sed hm' (to_drop - r))
      else Some (hm, to_drop))"

partial_function (option) deposit_all ::
  "int \<Rightarrow> int \<Rightarrow> vec2 \<Rightarrow> heightmap \<Rightarrow> real \<Rightarrow> (heightmap \<times> real) option" where
  "deposit_all width height old_pos hm sed =
     (if sed > EPSILON
      then (case simulate_deposition width height hm old_pos sed of
              (r, hm') \<Rightarrow> deposit_all width height old_pos hm' (sed - r))
      else Some (hm, sed))"

text \<open>
  The erosion branch fills an array of \<^verbatim>\<open>struct weight\<close>, one entry for each offset
  \<open>(dx, dy)\<close> of the square around the old position, \<open>dx\<close> outermost. An entry that
  is not used keeps \<^verbatim>\<open>used = 0\<close>; its other fields are never read (the source leaves
  them uninitialised, the model writes 0).
\<close>

definition unused_weight :: weight where
  "unused_weight = \<lparr>used = False, w_x = 0, w_y = 0, w_w = 0\<rparr>"

definition make_weight :: "int \<Rightarrow> int \<Rightarrow> vec2 \<Rightarrow> int \<Rightarrow> int \<Rightarrow> int \<Rightarrow> weight" where
  "make_weight width height old_pos rad dx dy =
     (let cx = c_trunc (vec_x old_pos + real_of_int dx);
          cy = c_trunc (vec_y old_pos + real_of_int dy)
      in if 0 \<le> cx \<and> cx < width \<and> 0 \<le> cy \<and> cy < height
         then (let dist = sqrt (real_of_int (dx * dx + dy * dy))
               in if dist \<le> real_of_int rad
                  then \<lparr>used = True, w_x = cx, w_y = cy, w_w = real_of_int rad - dist\<rparr>
                  else unused_weight)
         else unused_weight)"

definition build_weights :: "int \<Rightarrow> int \<Rightarrow> vec2 \<Rightarrow> int \<Rightarrow> weight list" where
  "build_weights width height old_pos rad =
     concat (map (\<lambda>dx. map (\<lambda>dy. make_weight width height old_pos rad dx dy) [- rad .. rad])
                 [- rad .. rad])"

definition total_weight_of :: "weight list \<Rightarrow> real" where
  "total_weight_of ws = foldl (\<lambda>total_weight e. if used e then total_weight + w_w e else total_weight) 0 ws"

text \<open>
  The second loop of the erosion branch, for one entry. The variable \<^verbatim>\<open>taux_evap\<close>
  of the source is assigned there and never read.
\<close>

definition erode_cell :: "int \<Rightarrow> real \<Rightarrow> real \<Rightarrow> heightmap \<times> real \<Rightarrow> weight \<Rightarrow> heightmap \<times> real" where
  "erode_cell width gain total_weight st e =
     (case st of (hm, sed) \<Rightarrow>
        if used e
        then (let quantity = gain * (w_w e / total_weight) * 1
              in (H_add hm width (w_x e) (w_y e) (- quantity), sed + quantity))
        else (hm, sed))"

definition erode :: "int \<Rightarrow> int \<Rightarrow> heightmap \<Rightarrow> vec2 \<Rightarrow> int \<Rightarrow> real \<Rightarrow> real \<Rightarrow> heightmap \<times> real" where
  "erode width height hm old_pos rad gain sed =
     (let weights = build_weights width height old_pos rad;
          total_weight = total_weight_of weights
      in if total_weight > 0
         then foldl (erode_cell width gain total_weight) (hm, sed) weights
         else (hm, sed))"

text \<open>
  One iteration of the loop of \<^verbatim>\<open>simulate_drop\<close>. \<open>Break\<close> is an iteration left by
  \<^verbatim>\<open>break\<close>, \<open>Continue\<close> one that reaches the end of the body. The source never
  assigns \<^verbatim>\<open>drop.direction\<close>: the new direction is a local variable.
\<close>

datatype flow = Continue | Break

definition new_direction ::
  "int \<Rightarrow> (nat \<Rightarrow> 32 word) \<Rightarrow> parameters \<Rightarrow> heightmap \<Rightarrow> drop \<Rightarrow> nat \<Rightarrow> (vec2 \<times> nat) option" where
  "new_direction width rnd param hm d k =
     (let gradient = compute_gradient width hm (position d);
          new_dir = \<lparr>vec_x = vec_x (direction d) * inertia param - vec_x gradient * (1 - inertia param),
                     vec_y = vec_y (direction d) * inertia param - vec_y gradient * (1 - inertia param)\<rparr>;
          nrm = sqrt (vec_x new_dir * vec_x new_dir + vec_y new_dir * vec_y new_dir)
      in case resample rnd k new_dir nrm of
           None \<Rightarrow> None
         | Some (new_dir, nrm, k') \<Rightarrow>
             Some (\<lparr>vec_x = vec_x new_dir / nrm, vec_y = vec_y new_dir / nrm\<rparr>, k'))"

definition moved :: "drop \<Rightarrow> vec2 \<Rightarrow> drop" where
  "moved d new_dir =
     d\<lparr>position := \<lparr>vec_x = vec_x (position d) + vec_x new_dir,
                      vec_y = vec_y (position d) + vec_y new_dir\<rparr>\<rparr>"

definition height_diff :: "int \<Rightarrow> heightmap \<Rightarrow> vec2 \<Rightarrow> vec2 \<Rightarrow> real" where
  "height_diff width hm new_pos old_pos =
     H hm width (c_trunc (vec_x new_pos)) (c_trunc (vec_y new_pos)) -
     H hm width (c_trunc (vec_x old_pos)) (c_trunc (vec_y old_pos))"

definition uphill ::
  "int \<Rightarrow> int \<Rightarrow> heightmap \<Rightarrow> drop \<Rightarrow> vec2 \<Rightarrow> real \<Rightarrow> (heightmap \<times> drop) option" where
  "uphill width height hm d old_pos h_diff =
     (if sediment d \<ge> h_diff
      then (case simulate_deposition width height hm old_pos h_diff of
              (r, hm1) \<Rightarrow>
                (case deposit_rest width height old_pos (sediment d) hm1 (h_diff - r) of
                   None \<Rightarrow> None
                 | Some (hm2, to_drop) \<Rightarrow> Some (hm2, d)))
      else (case simulate_deposition width height hm old_pos (sediment d) of
              (r, hm1) \<Rightarrow>
                (case deposit_all width height old_pos hm1 (sediment d - r) of
                   None \<Rightarrow> None
                 | Some (hm2, sed) \<Rightarrow> Some (hm2, d\<lparr>sediment := sed\<rparr>))))"

text \<open>
  The capacity \<^verbatim>\<open>c\<close> of step 5 and the \<^verbatim>\<open>gain\<close> of the erosion branch, as the
  source computes them.
\<close>

definition drop_capacity :: "parameters \<Rightarrow> drop \<Rightarrow> real \<Rightarrow> real" where
  "drop_capacity param d h_diff = c_MAX (- h_diff) (slope param) * velocity d * water d * capacity param"

definition erosion_gain :: "parameters \<Rightarrow> drop \<Rightarrow> real \<Rightarrow> real" where
  "erosion_gain param d h_diff =
     c_MIN ((drop_capacity param d h_diff - sediment d) * erosion param) (- h_diff)"

definition downhill ::
  "int \<Rightarrow> int \<Rightarrow> parameters \<Rightarrow> heightmap \<Rightarrow> drop \<Rightarrow> vec2 \<Rightarrow> real \<Rightarrow> heightmap \<times> drop" where
  "downhill width height param hm d old_pos h_diff =
     (let c = drop_capacity param d h_diff
      in if sediment d \<ge> c
         then (let to_drop = (sediment d - c) * deposition param
               in case simulate_deposition width height hm old_pos to_drop of
                    (dropped, hm') \<Rightarrow> (hm', d\<lparr>sediment := sediment d - dropped\<rparr>))
         else (let gain = erosion_gain param d h_diff
               in case erode width height hm old_pos (radius param) gain (sediment d) of
                    (hm', sed) \<Rightarrow> (hm', d\<lparr>sediment := sed\<rparr>)))"

definition drop_step ::
  "int \<Rightarrow> int \<Rightarrow> (nat \<Rightarrow> 32 word) \<Rightarrow> parameters \<Rightarrow> heightmap \<times> drop \<times> nat
     \<Rightarrow> (flow \<times> heightmap \<times> drop \<times> nat) option" where
  "drop_step height width rnd param st =
     (case st of (hm, d0, k) \<Rightarrow>
        let d1 = d0\<lparr>lifetime := lifetime d0 - 1\<rparr>
        in case new_direction width rnd param hm d1 k of
             None \<Rightarrow> None
           | Some (new_dir, k') \<Rightarrow>
               let old_pos = position d1;
                   d2 = moved d1 new_dir
               in if \<not> verify_drop_pos d2 width height then Some (Break, hm, d2, k')
                  else let h_diff = height_diff width hm (position d2) old_pos
                       in if h_diff > 0
                          then (case uphill width height hm d2 old_pos h_diff of
                                  None \<Rightarrow> None
                                | Some (hm', d3) \<Rightarrow> Some (Break, hm', d3, k'))
                          else (case downhill width height param hm d2 old_pos h_diff of
                                  (hm', d3) \<Rightarrow>
                                    let d4 = d3\<lparr>velocity := sqrt (velocity d3 * velocity d3 +
                                                              c_ABS h_diff * gravity param)\<rparr>;
                                        d5 = d4\<lparr>water := water d4 * (1 - evaporation param)\<rparr>
                                    in Some (Continue, hm', d5, k')))"

text \<open>An iteration decrements the lifetime once, which bounds the loop.\<close>

lemma uphill_lifetime:
  "uphill width height hm d old_pos h_diff = Some (hm', d') \<Longrightarrow> lifetime d' = lifetime d"
  by (auto simp: uphill_def split: if_splits prod.splits option.splits)

lemma downhill_lifetime:
  "downhill width height param hm d old_pos h_diff = (hm', d') \<Longrightarrow> lifetime d' = lifetime d"
  by (auto simp: downhill_def Let_def split: if_splits prod.splits)

lemma drop_step_lifetime:
  assumes "drop_step height width rnd param (hm, d, k) = Some (fl, hm', d', k')"
  shows "lifetime d' = lifetime d - 1"
  using assms
  by (auto simp: drop_step_def Let_def moved_def split: if_splits prod.splits option.splits
      dest!: uphill_lifetime downhill_lifetime)

text \<open>
  The loop itself. The first component of the result counts the iterations entered; it
  is not a variable of the source.
\<close>

function simulate_drop ::
  "int \<Rightarrow> int \<Rightarrow> (nat \<Rightarrow> 32 word) \<Rightarrow> parameters \<Rightarrow> nat \<Rightarrow> heightmap \<times> drop \<times> nat
     \<Rightarrow> (nat \<times> heightmap \<times> drop \<times> nat) option" where
  "simulate_drop height width rnd param n (hm, d, k) =
     (if lifetime d > 0 \<and> verify_drop_pos d width height \<and> water d > EPSILON
      then (case drop_step height width rnd param (hm, d, k) of
              None \<Rightarrow> None
            | Some (Break, st') \<Rightarrow> Some (Suc n, st')
            | Some (Continue, st') \<Rightarrow> simulate_drop height width rnd param (Suc n) st')
      else Some (n, hm, d, k))"
  by pat_completeness auto
termination
  apply (relation "measure (\<lambda>(height, width, rnd, param, n, hm, d, k). nat (lifetime d))")
   apply simp
  apply (auto dest!: drop_step_lifetime)
  done

declare simulate_drop.simps [simp del]

text \<open>
  The drop that \<^verbatim>\<open>simulate_erosion_detailed\<close> creates for each particle, and its loop
  over the particles. Saving an image every \<^verbatim>\<open>nb_particule_before_save\<close> particles
  (a period that is not 0) does not change the heightmap and is left out.
\<close>

definition new_drop :: "vec2 \<Rightarrow> drop" where
  "new_drop pos =
     \<lparr>position = pos, direction = \<lparr>vec_x = 0, vec_y = 0\<rparr>, lifetime = 1000,
      velocity = 1, water = 1, sediment = 0\<rparr>"

fun simulate_erosion_detailed ::
  "int \<Rightarrow> int \<Rightarrow> (nat \<Rightarrow> 32 word) \<Rightarrow> parameters \<Rightarrow> nat \<Rightarrow> heightmap \<times> nat
     \<Rightarrow> (heightmap \<times> nat) option" where
  "simulate_erosion_detailed height width rnd param 0 st = Some st"
| "simulate_erosion_detailed height width rnd param (Suc nb_drop) (hm, k) =
     (case simulate_drop height width rnd param 0
             (hm, new_drop (random_vec2 rnd k width height), k + 2) of
        None \<Rightarrow> None
      | Some (n, hm', d', k') \<Rightarrow> simulate_erosion_detailed height width rnd param nb_drop (hm', k'))"

subsection \<open>Double arithmetic\<close>

text \<open>
  The functions above compute with exact real numbers. The deposition and the erosion are
  modelled a second time with the rounding of every operation on \<^verbatim>\<open>double\<close> values made
  explicit: \<open>rd\<close> is applied to the exact result of each addition, subtraction,
  multiplication, division and square root, in the order of the source (each operation is
  rounded to \<^verbatim>\<open>double\<close>, as with \<^verbatim>\<open>FLT_EVAL_METHOD\<close> 0). With the identity for \<open>rd\<close>
  these are the functions above.

  \<open>round_double\<close> is the rounding of IEEE 754 binary64, to nearest with ties to even:
  53 significant bits, gradual underflow below \<open>2 ^ (- 1022)\<close> with the spacing
  \<open>2 ^ (- 1074)\<close>. Overflow is not modelled: results of magnitude \<open>2 ^ 1024\<close> and more are
  outside the model.
\<close>

definition rne :: "real \<Rightarrow> int" where
  "rne y = (let f = \<lfloor>y\<rfloor>; r = y - real_of_int f
            in if r < 1 / 2 then f else if 1 / 2 < r then f + 1 else if even f then f else f + 1)"

definition pow2 :: "int \<Rightarrow> real" where
  "pow2 e = (if 0 \<le> e then 2 ^ nat e else 1 / 2 ^ nat (- e))"

definition round_double :: "real \<Rightarrow> real" where
  "round_double x =
     (if x = 0 then 0
      else let e = max \<lfloor>log 2 \<bar>x\<bar>\<rfloor> (- 1022) - 52
           in real_of_int (rne (x / pow2 e)) * pow2 e)"

text \<open>
  What the error analysis uses of a rounding \<open>rd\<close>: it keeps 0 and the sign of a
  non-negative number, does not exceed 1 on a number that does not, and its error is at
  most \<open>u\<close> times the magnitude of the exact result plus \<open>\<eta>\<close>. For \<open>round_double\<close> the
  unit roundoff \<open>u\<close> is \<open>1 / 2 ^ 53\<close> and the underflow term \<open>\<eta>\<close> is \<open>1 / 2 ^ 1075\<close>.
\<close>

definition rounding :: "real \<Rightarrow> real \<Rightarrow> (real \<Rightarrow> real) \<Rightarrow> bool" where
  "rounding u \<eta> rd \<longleftrightarrow>
     rd 0 = 0 \<and> (\<forall>x. 0 \<le> x \<longrightarrow> 0 \<le> rd x) \<and> (\<forall>x. x \<le> 1 \<longrightarrow> rd x \<le> 1) \<and>
     (\<forall>x. \<bar>rd x - x\<bar> \<le> u * \<bar>x\<bar> + \<eta>)"

definition drop_cell_fl ::
  "(real \<Rightarrow> real) \<Rightarrow> int \<Rightarrow> int \<Rightarrow> int \<Rightarrow> real \<Rightarrow> real \<times> heightmap \<Rightarrow> real \<times> heightmap" where
  "drop_cell_fl rd width cx cy q st =
     (case st of (sum_dropped, hm) \<Rightarrow>
        if q > 0
        then (rd (sum_dropped + q), hm (cy * width + cx := rd (H hm width cx cy + q)))
        else (sum_dropped, hm))"

definition simulate_deposition_fl ::
  "(real \<Rightarrow> real) \<Rightarrow> int \<Rightarrow> int \<Rightarrow> heightmap \<Rightarrow> vec2 \<Rightarrow> real \<Rightarrow> real \<times> heightmap" where
  "simulate_deposition_fl rd width height hm pos to_drop =
     (let x1 = c_trunc (vec_x pos); y1 = c_trunc (vec_y pos);
          x2 = c_MIN (x1 + 1) (width - 1); y2 = c_MIN (y1 + 1) (height - 1);
          dx = rd (vec_x pos - real_of_int x1); dy = rd (vec_y pos - real_of_int y1);
          w11 = rd (rd (1 - dx) * rd (1 - dy));
          w12 = rd (rd (1 - dx) * dy);
          w21 = rd (dx * rd (1 - dy));
          w22 = rd (dx * dy);
          sum_w = rd (rd (rd (w11 + w12) + w21) + w22)
      in if sum_w \<le> EPSILON then (0, hm)
         else drop_cell_fl rd width x2 y2 (rd (to_drop * rd (w22 / sum_w)))
               (drop_cell_fl rd width x2 y1 (rd (to_drop * rd (w21 / sum_w)))
                 (drop_cell_fl rd width x1 y2 (rd (to_drop * rd (w12 / sum_w)))
                   (drop_cell_fl rd width x1 y1 (rd (to_drop * rd (w11 / sum_w))) (0, hm)))))"

partial_function (option) deposit_rest_fl ::
  "(real \<Rightarrow> real) \<Rightarrow> int \<Rightarrow> int \<Rightarrow> vec2 \<Rightarrow> real \<Rightarrow> heightmap \<Rightarrow> real \<Rightarrow> (heightmap \<times> real) option" where
  "deposit_rest_fl rd width height old_pos sed hm to_drop =
     (if to_drop > EPSILON
      then (case simulate_deposition_fl rd width height hm old_pos sed of
              (r, hm') \<Rightarrow> deposit_rest_fl rd width height old_pos sed hm' (rd (to_drop - r)))
      else Some (hm, to_drop))"

partial_function (option) deposit_all_fl ::
  "(real \<Rightarrow> real) \<Rightarrow> int \<Rightarrow> int \<Rightarrow> vec2 \<Rightarrow> heightmap \<Rightarrow> real \<Rightarrow> (heightmap \<times> real) option" where
  "deposit_all_fl rd width height old_pos hm sed =
     (if sed > EPSILON
      then (case simulate_deposition_fl rd width height hm old_pos sed of
              (r, hm') \<Rightarrow> deposit_all_fl rd width height old_pos hm' (rd (sed - r)))
      else Some (hm, sed))"

definition uphill_fl ::
  "(real \<Rightarrow> real) \<Rightarrow> int \<Rightarrow> int \<Rightarrow> heightmap \<Rightarrow> drop \<Rightarrow> vec2 \<Rightarrow> real \<Rightarrow> (heightmap \<times> drop) option" where
  "uphill_fl rd width height hm d old_pos h_diff =
     (if sediment d \<ge> h_diff
      then (case simulate_deposition_fl rd width height hm old_pos h_diff of
              (r, hm1) \<Rightarrow>
                (case deposit_rest_fl rd width height old_pos (sediment d) hm1 (rd (h_diff - r)) of
                   None \<Rightarrow> None
                 | Some (hm2, to_drop) \<Rightarrow> Some (hm2, d)))
      else (case simulate_deposition_fl rd width height hm old_pos (sediment d) of
              (r, hm1) \<Rightarrow>
                (case deposit_all_fl rd width height old_pos hm1 (rd (sediment d - r)) of
                   None \<Rightarrow> None
                 | Some (hm2, sed) \<Rightarrow> Some (hm2, d\<lparr>sediment := sed\<rparr>))))"

definition make_weight_fl ::
  "(real \<Rightarrow> real) \<Rightarrow> int \<Rightarrow> int \<Rightarrow> vec2 \<Rightarrow> int \<Rightarrow> int \<Rightarrow> int \<Rightarrow> weight" where
  "make_weight_fl rd width height old_pos rad dx dy =
     (let cx = c_trunc (rd (vec_x old_pos + real_of_int dx));
          cy = c_trunc (rd (vec_y old_pos + real_of_int dy))
      in if 0 \<le> cx \<and> cx < width \<and> 0 \<le> cy \<and> cy < height
         then (let dist = rd (sqrt (real_of_int (dx * dx + dy * dy)))
               in if dist \<le> real_of_int rad
                  then \<lparr>used = True, w_x = cx, w_y = cy, w_w = rd (real_of_int rad - dist)\<rparr>
                  else unused_weight)
         else unused_weight)"

definition build_weights_fl :: "(real \<Rightarrow> real) \<Rightarrow> int \<Rightarrow> int \<Rightarrow> vec2 \<Rightarrow> int \<Rightarrow> weight list" where
  "build_weights_fl rd width height old_pos rad =
     concat (map (\<lambda>dx. map (\<lambda>dy. make_weight_fl rd width height old_pos rad dx dy) [- rad .. rad])
                 [- rad .. rad])"

definition total_weight_of_fl :: "(real \<Rightarrow> real) \<Rightarrow> weight list \<Rightarrow> real" where
  "total_weight_of_fl rd ws =
     foldl (\<lambda>total_weight e. if used e then rd (total_weight + w_w e) else total_weight) 0 ws"

definition erode_cell_fl ::
  "(real \<Rightarrow> real) \<Rightarrow> int \<Rightarrow> real \<Rightarrow> real \<Rightarrow> heightmap \<times> real \<Rightarrow> weight \<Rightarrow> heightmap \<times> real" where
  "erode_cell_fl rd width gain total_weight st e =
     (case st of (hm, sed) \<Rightarrow>
        if used e
        then (let quantity = rd (rd (gain * rd (w_w e / total_weight)) * 1)
              in (hm (w_y e * width + w_x e := rd (H hm width (w_x e) (w_y e) - quantity)),
                  rd (sed + quantity)))
        else (hm, sed))"

definition erode_fl ::
  "(real \<Rightarrow> real) \<Rightarrow> int \<Rightarrow> int \<Rightarrow> heightmap \<Rightarrow> vec2 \<Rightarrow> int \<Rightarrow> real \<Rightarrow> real \<Rightarrow> heightmap \<times> real" where
  "erode_fl rd width height hm old_pos rad gain sed =
     (let weights = build_weights_fl rd width height old_pos rad;
          total_weight = total_weight_of_fl rd weights
      in if total_weight > 0
         then foldl (erode_cell_fl rd width gain total_weight) (hm, sed) weights
         else (hm, sed))"

definition drop_capacity_fl :: "(real \<Rightarrow> real) \<Rightarrow> parameters \<Rightarrow> drop \<Rightarrow> real \<Rightarrow> real" where
  "drop_capacity_fl rd param d h_diff =
     rd (rd (rd (c_MAX (- h_diff) (slope param) * velocity d) * water d) * capacity param)"

definition erosion_gain_fl :: "(real \<Rightarrow> real) \<Rightarrow> parameters \<Rightarrow> drop \<Rightarrow> real \<Rightarrow> real" where
  "erosion_gain_fl rd param d h_diff =
     c_MIN (rd (rd (drop_capacity_fl rd param d h_diff - sediment d) * erosion param)) (- h_diff)"

definition downhill_fl ::
  "(real \<Rightarrow> real) \<Rightarrow> int \<Rightarrow> int \<Rightarrow> parameters \<Rightarrow> heightmap \<Rightarrow> drop \<Rightarrow> vec2 \<Rightarrow> real \<Rightarrow> heightmap \<times> drop" where
  "downhill_fl rd width height param hm d old_pos h_diff =
     (let c = drop_capacity_fl rd param d h_diff
      in if sediment d \<ge> c
         then (let to_drop = rd (rd (sediment d - c) * deposition param)
               in case simulate_deposition_fl rd width height hm old_pos to_drop of
                    (dropped, hm') \<Rightarrow> (hm', d\<lparr>sediment := rd (sediment d - dropped)\<rparr>))
         else (let gain = erosion_gain_fl rd param d h_diff
               in case erode_fl rd width height hm old_pos (radius param) gain (sediment d) of
                    (hm', sed) \<Rightarrow> (hm', d\<lparr>sediment := sed\<rparr>)))"

subsection \<open>Terrain generator\<close>

text \<open>
  \<^verbatim>\<open>generate_random_heightgaussian\<close> divides by \<^verbatim>\<open>max - min\<close> and by
  \<^verbatim>\<open>2 * gaussian_width * gaussian_width\<close> without a test, so its values are modelled with
  the special values of the IEEE arithmetic: a finite number, an infinity of either sign,
  or a NaN. Finite results are exact (no rounding, no overflow); a zero has no sign, and a
  division by zero takes the sign of the dividend, as for the divisors of this function,
  a difference \<^verbatim>\<open>max - min\<close> and a square, whose zero is \<open>+0\<close>.
\<close>

datatype dbl = Fin real | PInf | NInf | NaN

fun dadd :: "dbl \<Rightarrow> dbl \<Rightarrow> dbl" where
  "dadd (Fin a) (Fin b) = Fin (a + b)"
| "dadd NaN b = NaN"
| "dadd a NaN = NaN"
| "dadd PInf NInf = NaN"
| "dadd NInf PInf = NaN"
| "dadd PInf b = PInf"
| "dadd a PInf = PInf"
| "dadd NInf b = NInf"
| "dadd a NInf = NInf"

fun dneg :: "dbl \<Rightarrow> dbl" where
  "dneg (Fin a) = Fin (- a)"
| "dneg PInf = NInf"
| "dneg NInf = PInf"
| "dneg NaN = NaN"

definition dsub :: "dbl \<Rightarrow> dbl \<Rightarrow> dbl" where
  "dsub a b = dadd a (dneg b)"

fun dmul :: "dbl \<Rightarrow> dbl \<Rightarrow> dbl" where
  "dmul (Fin a) (Fin b) = Fin (a * b)"
| "dmul NaN b = NaN"
| "dmul a NaN = NaN"
| "dmul (Fin a) PInf = (if a = 0 then NaN else if 0 < a then PInf else NInf)"
| "dmul (Fin a) NInf = (if a = 0 then NaN else if 0 < a then NInf else PInf)"
| "dmul PInf (Fin b) = (if b = 0 then NaN else if 0 < b then PInf else NInf)"
| "dmul NInf (Fin b) = (if b = 0 then NaN else if 0 < b then NInf else PInf)"
| "dmul PInf PInf = PInf"
| "dmul PInf NInf = NInf"
| "dmul NInf PInf = NInf"
| "dmul NInf NInf = PInf"

fun ddiv :: "dbl \<Rightarrow> dbl \<Rightarrow> dbl" where
  "ddiv (Fin a) (Fin b) =
     (if b = 0 then (if a = 0 then NaN else if 0 < a then PInf else NInf) else Fin (a / b))"
| "ddiv NaN b = NaN"
| "ddiv a NaN = NaN"
| "ddiv (Fin a) PInf = Fin 0"
| "ddiv (Fin a) NInf = Fin 0"
| "ddiv PInf (Fin b) = (if 0 \<le> b then PInf else NInf)"
| "ddiv NInf (Fin b) = (if 0 \<le> b then NInf else PInf)"
| "ddiv a b = NaN"

fun dless :: "dbl \<Rightarrow> dbl \<Rightarrow> bool" where
  "dless (Fin a) (Fin b) = (a < b)"
| "dless NaN b = False"
| "dless a NaN = False"
| "dless NInf NInf = False"
| "dless NInf b = True"
| "dless a NInf = False"
| "dless PInf b = False"
| "dless a PInf = True"

fun dexp2 :: "dbl \<Rightarrow> dbl" where
  "dexp2 (Fin a) = Fin (2 powr a)"
| "dexp2 PInf = PInf"
| "dexp2 NInf = Fin 0"
| "dexp2 NaN = NaN"

text \<open>
  The generator reaches a cell as \<^verbatim>\<open>heightmap[x][y]\<close>, with \<open>x\<close> below \<^verbatim>\<open>height\<close>
  and \<open>y\<close> below \<^verbatim>\<open>width\<close>, on an array declared \<^verbatim>\<open>[width][height]\<close>: the indices
  are within the declared shape when the grid is square, as it is in \<^verbatim>\<open>main\<close>. The model
  addresses a cell by its pair of indices. Every loop of the function visits the cells in
  the order of \<open>cells\<close>: \<open>x\<close> outermost.
\<close>

type_synonym grid = "int \<times> int \<Rightarrow> dbl"

definition cells :: "int \<Rightarrow> int \<Rightarrow> (int \<times> int) list" where
  "cells width height = List.product [0 .. height - 1] [0 .. width - 1]"

definition clear_grid :: "int \<Rightarrow> int \<Rightarrow> grid \<Rightarrow> grid" where
  "clear_grid width height hm = fold (\<lambda>c hm. hm(c := Fin 0)) (cells width height) hm"

text \<open>
  What one boss adds to the cell \<open>c\<close>:
  \<^verbatim>\<open>exp2(-(distance * distance) / (2 * gaussian_width * gaussian_width)) * amplitude\<close>.
  The centre, the width and the amplitude are finite numbers drawn with \<^verbatim>\<open>rand()\<close>, four
  calls for each boss.
\<close>

definition boss_value :: "int \<times> int \<Rightarrow> vec2 \<Rightarrow> real \<Rightarrow> real \<Rightarrow> dbl" where
  "boss_value c center gaussian_width amplitude =
     (case c of (cx, cy) \<Rightarrow>
        let distance = sqrt ((real_of_int cx - vec_x center) * (real_of_int cx - vec_x center) +
                             (real_of_int cy - vec_y center) * (real_of_int cy - vec_y center))
        in dmul (dexp2 (ddiv (Fin (- (distance * distance)))
                             (Fin (2 * gaussian_width * gaussian_width))))
                (Fin amplitude))"

definition add_boss :: "int \<Rightarrow> int \<Rightarrow> vec2 \<Rightarrow> real \<Rightarrow> real \<Rightarrow> grid \<Rightarrow> grid" where
  "add_boss width height center gaussian_width amplitude hm =
     fold (\<lambda>c hm. hm(c := dadd (hm c) (boss_value c center gaussian_width amplitude)))
       (cells width height) hm"

fun add_bosses ::
  "int \<Rightarrow> int \<Rightarrow> (nat \<Rightarrow> 32 word) \<Rightarrow> vec2 \<Rightarrow> vec2 \<Rightarrow> nat \<Rightarrow> nat \<Rightarrow> grid \<Rightarrow> grid \<times> nat" where
  "add_bosses width height rnd width_range amplitude_range 0 k hm = (hm, k)"
| "add_bosses width height rnd width_range amplitude_range (Suc n) k hm =
     (let center = random_vec2 rnd k width height;
          gaussian_width = random_double_min_max (rnd (k + 2)) (vec_x width_range) (vec_y width_range);
          amplitude = random_double_min_max (rnd (k + 3)) (vec_x amplitude_range) (vec_y amplitude_range)
      in add_bosses width height rnd width_range amplitude_range n (k + 4)
           (add_boss width height center gaussian_width amplitude hm))"

text \<open>
  The scaling loop, which also tracks \<^verbatim>\<open>min\<close> and \<^verbatim>\<open>max\<close>, both starting from
  \<^verbatim>\<open>heightmap[0][0] * scale\<close>; then the normalizing loop:
  \<^verbatim>\<open>heightmap[x][y] -= min; heightmap[x][y] /= (max - min); heightmap[x][y] *= 255.0;\<close>
\<close>

definition scale_cell :: "int \<Rightarrow> int \<times> int \<Rightarrow> grid \<times> dbl \<times> dbl \<Rightarrow> grid \<times> dbl \<times> dbl" where
  "scale_cell scale c st =
     (case st of (hm, mn, mx) \<Rightarrow>
        let v = dmul (hm c) (Fin (real_of_int scale));
            mx' = (if dless mx v then v else mx);
            mn' = (if dless v mn then v else mn)
        in (hm(c := v), mn', mx'))"

definition scale_grid :: "int \<Rightarrow> int \<Rightarrow> int \<Rightarrow> grid \<Rightarrow> grid \<times> dbl \<times> dbl" where
  "scale_grid width height scale hm =
     (let mn = dmul (hm (0, 0)) (Fin (real_of_int scale));
          mx = dmul (hm (0, 0)) (Fin (real_of_int scale))
      in fold (scale_cell scale) (cells width height) (hm, mn, mx))"

definition normalize_cell :: "dbl \<Rightarrow> dbl \<Rightarrow> dbl \<Rightarrow> dbl" where
  "normalize_cell mn mx v = dmul (ddiv (dsub v mn) (dsub mx mn)) (Fin 255)"

definition normalize_grid :: "int \<Rightarrow> int \<Rightarrow> dbl \<Rightarrow> dbl \<Rightarrow> grid \<Rightarrow> grid" where
  "normalize_grid width height mn mx hm =
     fold (\<lambda>c hm. hm(c := normalize_cell mn mx (hm c))) (cells width height) hm"

text \<open>
  The function itself: the heightmap it leaves and the number of calls of \<^verbatim>\<open>rand()\<close>
  made. The loop over the bosses runs \<^verbatim>\<open>num_bosses\<close> times, not at all for a number
  below 1.
\<close>

definition generate_random_heightgaussian ::
  "int \<Rightarrow> int \<Rightarrow> grid \<Rightarrow> (nat \<Rightarrow> 32 word) \<Rightarrow> nat \<Rightarrow> int \<Rightarrow> int \<Rightarrow> vec2 \<Rightarrow> vec2 \<Rightarrow> grid \<times> nat" where
  "generate_random_heightgaussian width height heightmap rnd k num_bosses scale width_range amplitude_range =
     (let hm1 = clear_grid width height heightmap in
      case add_bosses width height rnd width_range amplitude_range (nat num_bosses) k hm1 of
        (hm2, k') \<Rightarrow>
          (case scale_grid width height scale hm2 of
             (hm3, mn, mx) \<Rightarrow> (normalize_grid width height mn mx hm3, k')))"

subsection \<open>Notions used in the statements\<close>

text \<open>
  The length of the direction drawn by the calls \<open>k\<close> and \<open>k + 1\<close> of \<^verbatim>\<open>rand()\<close>, and
  the assumption on the library that the resampling loop needs: from every point of the
  sequence on, some pair it will try is longer than \<open>EPSILON\<close>.
\<close>

definition pair_norm :: "(nat \<Rightarrow> 32 word) \<Rightarrow> nat \<Rightarrow> real" where
  "pair_norm rnd k =
     (let nx = random_double (rnd k); ny = random_double (rnd (k + 1)) in sqrt (nx * nx + ny * ny))"

definition rnd_fair :: "(nat \<Rightarrow> 32 word) \<Rightarrow> bool" where
  "rnd_fair rnd = (\<forall>k. \<exists>j. EPSILON < pair_norm rnd (k + 2 * j))"



text \<open>What the uphill branch sets out to deposit.\<close>

definition uphill_amount :: "drop \<Rightarrow> real \<Rightarrow> real" where
  "uphill_amount d h_diff = (if sediment d \<ge> h_diff then h_diff else sediment d)"

text \<open>
  A finite value and its number; the grid after the loop over the bosses, and after the
  scaling loop.
\<close>

definition is_fin :: "dbl \<Rightarrow> bool" where
  "is_fin v = (case v of Fin a \<Rightarrow> True | _ \<Rightarrow> False)"

definition fin_val :: "dbl \<Rightarrow> real" where
  "fin_val v = (case v of Fin a \<Rightarrow> a | _ \<Rightarrow> 0)"

definition bossed_heightmap ::
  "int \<Rightarrow> int \<Rightarrow> grid \<Rightarrow> (nat \<Rightarrow> 32 word) \<Rightarrow> nat \<Rightarrow> int \<Rightarrow> vec2 \<Rightarrow> vec2 \<Rightarrow> grid" where
  "bossed_heightmap width height heightmap rnd k num_bosses width_range amplitude_range =
     fst (add_bosses width height rnd width_range amplitude_range (nat num_bosses) k
            (clear_grid width height heightmap))"

definition scaled_heightmap ::
  "int \<Rightarrow> int \<Rightarrow> grid \<Rightarrow> (nat \<Rightarrow> 32 word) \<Rightarrow> nat \<Rightarrow> int \<Rightarrow> int \<Rightarrow> vec2 \<Rightarrow> vec2 \<Rightarrow> grid" where
  "scaled_heightmap width height heightmap rnd k num_bosses scale width_range amplitude_range =
     fst (scale_grid width height scale
            (bossed_heightmap width height heightmap rnd k num_bosses width_range amplitude_range))"

section \<open>Properties\<close>

subsection \<open>Truncation and cells\<close>

lemma c_trunc_nonneg: "0 \<le> r \<Longrightarrow> c_trunc r = \<lfloor>r\<rfloor>"
  by (simp add: c_trunc_def)

lemma c_trunc_pos_iff: "0 < c_trunc r \<longleftrightarrow> 0 < \<lfloor>r\<rfloor>"
proof (cases "0 \<le> r")
  case True
  then show ?thesis by (simp add: c_trunc_def)
next
  case False
  then have "r < 0" by simp
  then have "\<lceil>r\<rceil> \<le> 0" and "\<lfloor>r\<rfloor> < 0"
    by (simp_all add: ceiling_le_iff floor_less_iff)
  with False show ?thesis by (simp add: c_trunc_def)
qed

lemma c_trunc_pos_floor: "0 < c_trunc r \<Longrightarrow> c_trunc r = \<lfloor>r\<rfloor>"
proof -
  assume a: "0 < c_trunc r"
  have "0 \<le> r"
  proof (rule ccontr)
    assume "\<not> 0 \<le> r"
    then have "\<lceil>r\<rceil> \<le> 0" and "c_trunc r = \<lceil>r\<rceil>"
      by (simp_all add: ceiling_le_iff c_trunc_def)
    with a show False by simp
  qed
  then show ?thesis by (rule c_trunc_nonneg)
qed

lemma frac_part_bounds:
  assumes "0 \<le> r"
  shows "0 \<le> r - real_of_int (c_trunc r)" and "r - real_of_int (c_trunc r) < 1"
  using assms by (simp_all add: c_trunc_def) linarith+

lemma cell_in_grid:
  fixes cx cy width height :: int
  assumes "0 \<le> cx" "cx < width" "0 \<le> cy" "cy < height"
  shows "cy * width + cx \<in> {0 ..< width * height}"
proof -
  have "0 \<le> width" using assms by simp
  then have "0 \<le> cy * width" using assms by simp
  moreover have "(cy + 1) * width \<le> height * width"
    by (rule mult_right_mono) (use assms in simp_all)
  then have "cy * width + cx < width * height"
    using assms by (simp add: algebra_simps)
  ultimately show ?thesis using assms by simp
qed

lemma grid_total_H_add:
  assumes "0 \<le> cx" "cx < width" "0 \<le> cy" "cy < height"
  shows "grid_total width height (H_add hm width cx cy q) = grid_total width height hm + q"
proof -
  let ?i = "cy * width + cx" and ?S = "{0 ..< width * height}"
  have i: "?i \<in> ?S" using assms by (rule cell_in_grid)
  have fin: "finite ?S" by simp
  have "sum (hm(?i := hm ?i + q)) ?S = (hm ?i + q) + sum (hm(?i := hm ?i + q)) (?S - {?i})"
    using sum.remove [OF fin i, of "hm(?i := hm ?i + q)"] by simp
  also have "sum (hm(?i := hm ?i + q)) (?S - {?i}) = sum hm (?S - {?i})"
    by (rule sum.cong) simp_all
  also have "(hm ?i + q) + sum hm (?S - {?i}) = sum hm ?S + q"
    using sum.remove [OF fin i, of hm] by simp
  finally show ?thesis by (simp add: grid_total_def H_add_def)
qed

subsection \<open>Rounding to double\<close>

lemma pow2_powr: "pow2 e = 2 powr (real_of_int e)"
proof (cases "0 \<le> e")
  case True
  then have "real_of_int e = real (nat e)" by simp
  then show ?thesis using True by (simp add: pow2_def powr_realpow del: of_nat_nat)
next
  case False
  then have "real_of_int e = - real (nat (- e))" by simp
  then show ?thesis using False
    by (simp add: pow2_def powr_minus powr_realpow field_simps del: of_nat_nat)
qed

lemma pow2_pos: "0 < pow2 e"
  by (simp add: pow2_powr)

lemma pow2_add: "pow2 (a + b) = pow2 a * pow2 b"
  by (simp add: pow2_powr powr_add)

lemma pow2_mono: "a \<le> b \<Longrightarrow> pow2 a \<le> pow2 b"
  by (simp add: pow2_powr)

lemma binade_eq:
  assumes "pow2 e \<le> \<bar>x\<bar>" "\<bar>x\<bar> < pow2 (e + 1)"
  shows "\<lfloor>log 2 \<bar>x\<bar>\<rfloor> = e"
proof (rule floor_unique)
  have pos: "0 < \<bar>x\<bar>" using assms(1) pow2_pos [of e] by linarith
  show "real_of_int e \<le> log 2 \<bar>x\<bar>"
    using assms(1) pos by (simp add: le_log_iff pow2_powr)
  have "log 2 \<bar>x\<bar> < real_of_int (e + 1)"
    using assms(2) pos by (simp add: log_less_iff pow2_powr)
  then show "log 2 \<bar>x\<bar> < real_of_int e + 1" by simp
qed

lemma binade_bounds:
  assumes "x \<noteq> 0"
  shows "pow2 \<lfloor>log 2 \<bar>x\<bar>\<rfloor> \<le> \<bar>x\<bar>"
proof -
  have pos: "0 < \<bar>x\<bar>" using assms by simp
  have "2 powr real_of_int \<lfloor>log 2 \<bar>x\<bar>\<rfloor> \<le> 2 powr log 2 \<bar>x\<bar>"
    by (rule powr_mono) simp_all
  also have "2 powr log 2 \<bar>x\<bar> = \<bar>x\<bar>" using pos by simp
  finally show ?thesis by (simp add: pow2_powr)
qed

lemma rne_error: "\<bar>real_of_int (rne y) - y\<bar> \<le> 1 / 2"
  unfolding rne_def Let_def by (auto; linarith)

lemma rne_unique: "\<bar>y - real_of_int m\<bar> < 1 / 2 \<Longrightarrow> rne y = m"
proof -
  assume a: "\<bar>y - real_of_int m\<bar> < 1 / 2"
  have "\<bar>real_of_int (rne y) - y\<bar> \<le> 1 / 2" by (rule rne_error)
  with a have "\<bar>real_of_int (rne y) - real_of_int m\<bar> < 1" by linarith
  then have "\<bar>real_of_int (rne y - m)\<bar> < 1" by simp
  then have "\<bar>rne y - m\<bar> < 1" by linarith
  then show ?thesis by simp
qed

lemma rne_nonneg: "0 \<le> y \<Longrightarrow> 0 \<le> rne y"
  unfolding rne_def Let_def by (auto; linarith)

lemma rne_of_int: "rne (real_of_int m) = m"
  by (rule rne_unique) simp

lemma round_double_eqI:
  assumes "pow2 e \<le> \<bar>x\<bar>" "\<bar>x\<bar> < pow2 (e + 1)" "- 1022 \<le> e" "rne (x / pow2 (e - 52)) = m"
  shows "round_double x = real_of_int m * pow2 (e - 52)"
proof -
  have ne: "x \<noteq> 0" using assms(1) pow2_pos [of e] by auto
  have "\<lfloor>log 2 \<bar>x\<bar>\<rfloor> = e" using assms(1,2) by (rule binade_eq)
  with assms(3,4) ne show ?thesis by (simp add: round_double_def Let_def max_def)
qed

lemma round_double_nonneg: "0 \<le> x \<Longrightarrow> 0 \<le> round_double x"
  by (simp add: round_double_def Let_def rne_nonneg pow2_pos less_imp_le)

lemma round_double_error: "\<bar>round_double x - x\<bar> \<le> \<bar>x\<bar> / 2 ^ 53 + 1 / 2 ^ 1075"
proof (cases "x = 0")
  case True
  then show ?thesis by (simp add: round_double_def)
next
  case False
  define b where "b = \<lfloor>log 2 \<bar>x\<bar>\<rfloor>"
  define e where "e = max b (- 1022) - 52"
  have p: "0 < pow2 e" by (rule pow2_pos)
  have rd: "round_double x = real_of_int (rne (x / pow2 e)) * pow2 e"
    using False by (simp add: round_double_def Let_def e_def b_def)
  have "\<bar>real_of_int (rne (x / pow2 e)) - x / pow2 e\<bar> \<le> 1 / 2" by (rule rne_error)
  then have "\<bar>real_of_int (rne (x / pow2 e)) - x / pow2 e\<bar> * pow2 e \<le> 1 / 2 * pow2 e"
    using p by (intro mult_right_mono) simp_all
  moreover have "\<bar>real_of_int (rne (x / pow2 e)) - x / pow2 e\<bar> * pow2 e =
      \<bar>real_of_int (rne (x / pow2 e)) * pow2 e - x\<bar>"
  proof -
    have "\<bar>real_of_int (rne (x / pow2 e)) - x / pow2 e\<bar> * pow2 e =
        \<bar>(real_of_int (rne (x / pow2 e)) - x / pow2 e) * pow2 e\<bar>"
      using p by (simp add: abs_mult)
    also have "(real_of_int (rne (x / pow2 e)) - x / pow2 e) * pow2 e =
        real_of_int (rne (x / pow2 e)) * pow2 e - x"
      using p by (simp add: field_simps)
    finally show ?thesis .
  qed
  ultimately have err: "\<bar>round_double x - x\<bar> \<le> pow2 e / 2" by (simp add: rd)
  show ?thesis
  proof (cases "- 1022 \<le> b")
    case True
    then have e: "e = b + (- 52)" by (simp add: e_def)
    have "pow2 b \<le> \<bar>x\<bar>" unfolding b_def using False by (rule binade_bounds)
    then have "pow2 e \<le> \<bar>x\<bar> * pow2 (- 52)"
      unfolding e pow2_add using pow2_pos [of "- 52"] by (intro mult_right_mono) simp_all
    then have "pow2 e / 2 \<le> \<bar>x\<bar> / 2 ^ 53" by (simp add: pow2_def)
    with err show ?thesis by simp
  next
    case False
    then have "e = - 1074" by (simp add: e_def)
    then have "pow2 e / 2 = 1 / 2 ^ 1075" by (simp add: pow2_def)
    with err have "\<bar>round_double x - x\<bar> \<le> 1 / 2 ^ 1075" by simp
    moreover have "0 \<le> \<bar>x\<bar> / 2 ^ 53" by simp
    ultimately show ?thesis by linarith
  qed
qed

lemma round_double_0: "round_double 0 = 0"
  by (simp add: round_double_def)

lemma rounding_0: "rounding u \<eta> rd \<Longrightarrow> rd 0 = 0"
  by (simp add: rounding_def)

lemma rounding_nonneg: "rounding u \<eta> rd \<Longrightarrow> 0 \<le> x \<Longrightarrow> 0 \<le> rd x"
  by (simp add: rounding_def)

lemma rounding_le_1: "rounding u \<eta> rd \<Longrightarrow> x \<le> 1 \<Longrightarrow> rd x \<le> 1"
  by (simp add: rounding_def)

lemma rounding_error: "rounding u \<eta> rd \<Longrightarrow> \<bar>rd x - x\<bar> \<le> u * \<bar>x\<bar> + \<eta>"
  by (simp add: rounding_def)

lemma rounding_error_le:
  assumes "rounding u \<eta> rd" "0 \<le> u" "0 \<le> x" "x \<le> c"
  shows "\<bar>rd x - x\<bar> \<le> u * c + \<eta>"
proof -
  have "u * \<bar>x\<bar> \<le> u * c" using assms(2-4) by (intro mult_left_mono) simp_all
  with rounding_error [OF assms(1), of x] show ?thesis by linarith
qed

lemma rne_le_int: "y \<le> real_of_int N \<Longrightarrow> rne y \<le> N"
proof -
  assume a: "y \<le> real_of_int N"
  then have f: "\<lfloor>y\<rfloor> \<le> N" by (simp add: floor_le_iff) 
  show ?thesis
  proof (cases "\<lfloor>y\<rfloor> = N")
    case True
    then have "real_of_int N \<le> y" by (metis of_int_floor_le)
    with a have "y = real_of_int N" by simp
    then show ?thesis by (simp add: rne_of_int)
  next
    case False
    with f have "\<lfloor>y\<rfloor> + 1 \<le> N" by simp
    moreover have "rne y \<le> \<lfloor>y\<rfloor> + 1" by (simp add: rne_def Let_def)
    ultimately show ?thesis by simp
  qed
qed

lemma rne_nonpos: "y \<le> 0 \<Longrightarrow> rne y \<le> 0"
  using rne_le_int [of y 0] by simp

lemma round_double_le_1: "x \<le> 1 \<Longrightarrow> round_double x \<le> 1"
proof (cases "x \<le> 0")
  case True
  then have "x = 0 \<or> x < 0" by auto
  then show ?thesis
  proof
    assume "x = 0" then show ?thesis by (simp add: round_double_def)
  next
    assume neg: "x < 0"
    define e where "e = max \<lfloor>log 2 \<bar>x\<bar>\<rfloor> (- 1022) - 52"
    have "x / pow2 e \<le> 0" using neg pow2_pos [of e] by (simp add: divide_nonpos_pos)
    then have "rne (x / pow2 e) \<le> 0" by (rule rne_nonpos)
    then have "real_of_int (rne (x / pow2 e)) * pow2 e \<le> 0"
      using pow2_pos [of e] by (simp add: mult_nonpos_nonneg)
    then show ?thesis using neg by (simp add: round_double_def Let_def e_def)
  qed
next
  case False
  assume le: "x \<le> 1"
  from False have pos: "0 < x" by simp
  define e where "e = max \<lfloor>log 2 \<bar>x\<bar>\<rfloor> (- 1022) - 52"
  have "log 2 \<bar>x\<bar> \<le> 0" using pos le by simp
  then have "\<lfloor>log 2 \<bar>x\<bar>\<rfloor> \<le> 0" by (simp add: floor_le_iff) 
  then have e: "e \<le> 0" by (simp add: e_def)
  have inv: "pow2 (- e) * pow2 e = 1" using pow2_add [of "- e" e] by (simp add: pow2_def)
  have int: "pow2 (- e) = real_of_int (2 ^ nat (- e))" using e by (simp add: pow2_def)
  have "x / pow2 e = x * pow2 (- e)" using inv pow2_pos [of e] by (simp add: field_simps)
  also have "\<dots> \<le> 1 * pow2 (- e)" using le pow2_pos [of "- e"] by (intro mult_right_mono) simp_all
  finally have "x / pow2 e \<le> real_of_int (2 ^ nat (- e))" by (simp add: int)
  then have "rne (x / pow2 e) \<le> 2 ^ nat (- e)" by (rule rne_le_int)
  then have "real_of_int (rne (x / pow2 e)) \<le> pow2 (- e)" unfolding int by linarith
  then have "real_of_int (rne (x / pow2 e)) * pow2 e \<le> pow2 (- e) * pow2 e"
    using pow2_pos [of e] by (intro mult_right_mono) simp_all
  then show ?thesis using pos inv by (simp add: round_double_def Let_def e_def)
qed

lemma round_double_rounding: "rounding (1 / 2 ^ 53) (1 / 2 ^ 1075) round_double"
  unfolding rounding_def
proof (intro conjI allI impI)
  show "round_double 0 = 0" by (rule round_double_0)
  fix x :: real
  show "0 \<le> x \<Longrightarrow> 0 \<le> round_double x" by (rule round_double_nonneg)
  show "x \<le> 1 \<Longrightarrow> round_double x \<le> 1" by (rule round_double_le_1)
  show "\<bar>round_double x - x\<bar> \<le> 1 / 2 ^ 53 * \<bar>x\<bar> + 1 / 2 ^ 1075"
    using round_double_error [of x] by simp
qed

text \<open>With exact arithmetic the rounded deposition is the exact one.\<close>

lemma simulate_deposition_fl_exact:
  "simulate_deposition_fl (\<lambda>x. x) width height hm pos to_drop =
     simulate_deposition width height hm pos to_drop"
  by (simp add: simulate_deposition_fl_def simulate_deposition_def drop_cell_fl_def drop_cell_def
      H_add_def H_def fun_eq_iff Let_def)

subsection \<open>The validity check\<close>

text \<open>
  C9. \<^verbatim>\<open>verify_drop_pos\<close> holds exactly when the floors of the coordinates lie in the
  strict interior of their own axis: the width bounds x, the height bounds y, square
  grid or not.
\<close>

theorem verify_drop_pos_strict_interior:
  "verify_drop_pos d width height \<longleftrightarrow>
     (0 < \<lfloor>vec_x (position d)\<rfloor> \<and> \<lfloor>vec_x (position d)\<rfloor> < width - 1 \<and>
      0 < \<lfloor>vec_y (position d)\<rfloor> \<and> \<lfloor>vec_y (position d)\<rfloor> < height - 1)"
proof -
  have "0 < c_trunc r \<and> c_trunc r < n \<longleftrightarrow> 0 < \<lfloor>r\<rfloor> \<and> \<lfloor>r\<rfloor> < n" for r :: real and n :: int
    using c_trunc_pos_iff [of r] c_trunc_pos_floor [of r] by auto
  from this [of "vec_x (position d)" "width - 1"] this [of "vec_y (position d)" "height - 1"]
  show ?thesis
    unfolding verify_drop_pos_def Let_def by blast
qed

lemma c_trunc_unique_nonneg:
  "0 \<le> r \<Longrightarrow> real_of_int n \<le> r \<Longrightarrow> r < real_of_int n + 1 \<Longrightarrow> c_trunc r = n"
  by (simp add: c_trunc_def floor_unique)

lemma c_trunc_unique_neg:
  "r < 0 \<Longrightarrow> real_of_int n - 1 < r \<Longrightarrow> r \<le> real_of_int n \<Longrightarrow> c_trunc r = n"
  by (simp add: c_trunc_def ceiling_unique)

subsection \<open>Deposition: mass and frame\<close>

lemma bilinear_weights_sum:
  "(1 - dx) * (1 - dy) + (1 - dx) * dy + dx * (1 - dy) + dx * dy = (1::real)"
  by (simp add: algebra_simps)

lemma EPSILON_less_one: "\<not> 1 \<le> EPSILON"
  by (simp add: EPSILON_def)

lemma simulate_deposition_cells:
  "simulate_deposition width height hm pos to_drop =
     (let x1 = c_trunc (vec_x pos); y1 = c_trunc (vec_y pos);
          x2 = c_MIN (x1 + 1) (width - 1); y2 = c_MIN (y1 + 1) (height - 1);
          dx = vec_x pos - real_of_int x1; dy = vec_y pos - real_of_int y1
      in drop_cell width x2 y2 (to_drop * (dx * dy))
           (drop_cell width x2 y1 (to_drop * (dx * (1 - dy)))
             (drop_cell width x1 y2 (to_drop * ((1 - dx) * dy))
               (drop_cell width x1 y1 (to_drop * ((1 - dx) * (1 - dy))) (0, hm)))))"
  unfolding simulate_deposition_def Let_def bilinear_weights_sum
  by (simp add: EPSILON_less_one)

lemma drop_cell_nonpos: "q \<le> 0 \<Longrightarrow> drop_cell width cx cy q st = st"
  by (simp add: drop_cell_def split: prod.splits)

lemma simulate_deposition_noop:
  assumes "to_drop \<le> 0" "0 \<le> vec_x pos" "0 \<le> vec_y pos"
  shows "simulate_deposition width height hm pos to_drop = (0, hm)"
proof -
  define dx where "dx = vec_x pos - real_of_int (c_trunc (vec_x pos))"
  define dy where "dy = vec_y pos - real_of_int (c_trunc (vec_y pos))"
  have dx: "0 \<le> dx" "dx < 1" and dy: "0 \<le> dy" "dy < 1"
    using frac_part_bounds assms by (simp_all add: dx_def dy_def)
  have w: "0 \<le> dx * dy" "0 \<le> dx * (1 - dy)" "0 \<le> (1 - dx) * dy" "0 \<le> (1 - dx) * (1 - dy)"
    using dx dy by simp_all
  have q: "to_drop * v \<le> 0" if "0 \<le> v" for v
    using that assms(1) by (simp add: mult_nonpos_nonneg)
  show ?thesis
    unfolding simulate_deposition_cells Let_def dx_def [symmetric] dy_def [symmetric]
    by (simp add: drop_cell_nonpos q w)
qed

text \<open>
  C10 (as amended). At a position with non-negative coordinates, depositing an amount
  \<open>to_drop \<le> 0\<close> returns 0 and leaves the heightmap as it was: the four weights are
  then non-negative and every guard \<^verbatim>\<open>to_drop * w > 0.0\<close> fails.
\<close>

theorem simulate_deposition_nonpositive:
  assumes "to_drop \<le> 0" "0 \<le> vec_x pos" "0 \<le> vec_y pos"
  shows "simulate_deposition width height hm pos to_drop = (0, hm)"
proof -
  have "fst (simulate_deposition width height hm pos to_drop) = 0"
    and "snd (simulate_deposition width height hm pos to_drop) = hm"
    using assms by (simp_all add: simulate_deposition_noop)
  then show ?thesis by (simp add: prod_eq_iff)
qed

text \<open>
  C10 as stated, for every position, fails: at \<open>(-0.5, 0.25)\<close> the cast truncates
  \<open>-0.5\<close> to 0, the weights of the cells in column \<open>x2\<close> are negative, and with
  \<open>to_drop = -1\<close> their products are positive: 0.5 is returned, and the cells \<open>(1, 0)\<close>
  and \<open>(1, 1)\<close> of a grid of zeros, at the offsets 1 and 3, receive 0.375 and 0.125.
\<close>

theorem simulate_deposition_nonpositive_counterexample:
  "fst (simulate_deposition 2 2 (\<lambda>i. 0) \<lparr>vec_x = - 1 / 2, vec_y = 1 / 4\<rparr> (- 1)) = 1 / 2
   \<and> snd (simulate_deposition 2 2 (\<lambda>i. 0) \<lparr>vec_x = - 1 / 2, vec_y = 1 / 4\<rparr> (- 1)) 1 = 3 / 8
   \<and> snd (simulate_deposition 2 2 (\<lambda>i. 0) \<lparr>vec_x = - 1 / 2, vec_y = 1 / 4\<rparr> (- 1)) 3 = 1 / 8"
proof -
  have t: "c_trunc (- (1 / 2)) = 0" "c_trunc (1 / 4) = 0"
    by (rule c_trunc_unique_neg, simp_all) (rule c_trunc_unique_nonneg, simp_all)
  show ?thesis
    by (simp add: simulate_deposition_cells t c_MIN_def drop_cell_def H_add_def)
qed

theorem simulate_deposition_nonpositive_witness:
  "simulate_deposition 3 3 (\<lambda>i. 0) \<lparr>vec_x = 1 / 2, vec_y = 5 / 4\<rparr> (- 2) = (0, \<lambda>i. 0)"
  using simulate_deposition_nonpositive [of "- 2" "\<lparr>vec_x = 1 / 2, vec_y = 5 / 4\<rparr>" 3 3 "\<lambda>i. 0"]
  by simp

lemma drop_cell_total:
  assumes "0 \<le> cx" "cx < width" "0 \<le> cy" "cy < height" "0 \<le> q"
  shows "fst (drop_cell width cx cy q st) = fst st + q"
    and "grid_total width height (snd (drop_cell width cx cy q st)) =
           grid_total width height (snd st) + q"
  using assms by (auto simp: drop_cell_def grid_total_H_add split: prod.splits)

lemma simulate_deposition_positive:
  assumes "0 \<le> vec_x pos" "c_trunc (vec_x pos) < width"
    and "0 \<le> vec_y pos" "c_trunc (vec_y pos) < height"
    and "0 < amount"
  shows "fst (simulate_deposition width height hm pos amount) = amount"
    and "grid_total width height (snd (simulate_deposition width height hm pos amount)) =
           grid_total width height hm + amount"
proof -
  define x1 where "x1 = c_trunc (vec_x pos)"
  define y1 where "y1 = c_trunc (vec_y pos)"
  define x2 where "x2 = c_MIN (x1 + 1) (width - 1)"
  define y2 where "y2 = c_MIN (y1 + 1) (height - 1)"
  define dx where "dx = vec_x pos - real_of_int x1"
  define dy where "dy = vec_y pos - real_of_int y1"
  have dx: "0 \<le> dx" "dx < 1" and dy: "0 \<le> dy" "dy < 1"
    using frac_part_bounds assms by (simp_all add: dx_def dy_def x1_def y1_def)
  have x1: "0 \<le> x1" "x1 < width" and y1: "0 \<le> y1" "y1 < height"
    using assms by (simp_all add: x1_def y1_def c_trunc_def)
  have x2: "0 \<le> x2" "x2 < width" and y2: "0 \<le> y2" "y2 < height"
    using x1 y1 by (simp_all add: x2_def y2_def c_MIN_def)
  define q11 where "q11 = amount * ((1 - dx) * (1 - dy))"
  define q12 where "q12 = amount * ((1 - dx) * dy)"
  define q21 where "q21 = amount * (dx * (1 - dy))"
  define q22 where "q22 = amount * (dx * dy)"
  have q: "0 \<le> q11" "0 \<le> q12" "0 \<le> q21" "0 \<le> q22"
    using dx dy assms(5) by (simp_all add: q11_def q12_def q21_def q22_def)
  have qsum: "q11 + q12 + q21 + q22 = amount"
    by (simp add: q11_def q12_def q21_def q22_def algebra_simps)
  define s1 where "s1 = drop_cell width x1 y1 q11 (0, hm)"
  define s2 where "s2 = drop_cell width x1 y2 q12 s1"
  define s3 where "s3 = drop_cell width x2 y1 q21 s2"
  define s4 where "s4 = drop_cell width x2 y2 q22 s3"
  have res: "simulate_deposition width height hm pos amount = s4"
    unfolding simulate_deposition_cells Let_def s4_def s3_def s2_def s1_def
      q11_def q12_def q21_def q22_def dx_def dy_def x2_def y2_def x1_def y1_def ..
  have f: "fst s4 = q11 + q12 + q21 + q22"
    unfolding s4_def s3_def s2_def s1_def
    by (simp add: drop_cell_total(1) [where height = height] x1 x2 y1 y2 q)
  have g: "grid_total width height (snd s4) = grid_total width height hm + (q11 + q12 + q21 + q22)"
    unfolding s4_def s3_def s2_def s1_def
    by (simp add: drop_cell_total(2) x1 x2 y1 y2 q)
  show "fst (simulate_deposition width height hm pos amount) = amount"
    unfolding res using f qsum by simp
  show "grid_total width height (snd (simulate_deposition width height hm pos amount)) =
           grid_total width height hm + amount"
    unfolding res using g qsum by simp
qed

subsection \<open>The gradient\<close>

text \<open>
  C8. At an interior position, \<^verbatim>\<open>compute_gradient\<close> is the blend with weights 0.5 and
  0.5 of the forward differences at the cell \<open>(\<lfloor>x\<rfloor>, \<lfloor>y\<rfloor>)\<close>; any other position of the same
  cell gives the same result; and on a grid with \<open>h(x, y) = x\<close> the result is \<open>(1, 0)\<close>.
\<close>

theorem compute_gradient_blend:
  assumes "0 < \<lfloor>vec_x pos\<rfloor>" "\<lfloor>vec_x pos\<rfloor> < w - 1"
    and "0 < \<lfloor>vec_y pos\<rfloor>" "\<lfloor>vec_y pos\<rfloor> < height - 1"
  shows "compute_gradient w h pos =
           \<lparr>vec_x = (H h w (\<lfloor>vec_x pos\<rfloor> + 1) \<lfloor>vec_y pos\<rfloor> - H h w \<lfloor>vec_x pos\<rfloor> \<lfloor>vec_y pos\<rfloor>) * 0.5 +
                    (H h w (\<lfloor>vec_x pos\<rfloor> + 1) (\<lfloor>vec_y pos\<rfloor> + 1) - H h w \<lfloor>vec_x pos\<rfloor> (\<lfloor>vec_y pos\<rfloor> + 1)) * 0.5,
            vec_y = (H h w \<lfloor>vec_x pos\<rfloor> (\<lfloor>vec_y pos\<rfloor> + 1) - H h w \<lfloor>vec_x pos\<rfloor> \<lfloor>vec_y pos\<rfloor>) * 0.5 +
                    (H h w (\<lfloor>vec_x pos\<rfloor> + 1) (\<lfloor>vec_y pos\<rfloor> + 1) - H h w (\<lfloor>vec_x pos\<rfloor> + 1) \<lfloor>vec_y pos\<rfloor>) * 0.5\<rparr>
       \<and> (\<forall>pos'. \<lfloor>vec_x pos'\<rfloor> = \<lfloor>vec_x pos\<rfloor> \<and> \<lfloor>vec_y pos'\<rfloor> = \<lfloor>vec_y pos\<rfloor> \<longrightarrow>
              compute_gradient w h pos' = compute_gradient w h pos)
       \<and> ((\<forall>cx cy. 0 \<le> cx \<and> cx < w \<and> 0 \<le> cy \<and> cy < height \<longrightarrow> H h w cx cy = real_of_int cx) \<longrightarrow>
              compute_gradient w h pos = \<lparr>vec_x = 1, vec_y = 0\<rparr>)"
proof (intro conjI allI impI)
  have tx: "c_trunc (vec_x pos) = \<lfloor>vec_x pos\<rfloor>" and ty: "c_trunc (vec_y pos) = \<lfloor>vec_y pos\<rfloor>"
    using assms by (simp_all add: c_trunc_pos_floor c_trunc_pos_iff)
  show formula: "compute_gradient w h pos =
           \<lparr>vec_x = (H h w (\<lfloor>vec_x pos\<rfloor> + 1) \<lfloor>vec_y pos\<rfloor> - H h w \<lfloor>vec_x pos\<rfloor> \<lfloor>vec_y pos\<rfloor>) * 0.5 +
                    (H h w (\<lfloor>vec_x pos\<rfloor> + 1) (\<lfloor>vec_y pos\<rfloor> + 1) - H h w \<lfloor>vec_x pos\<rfloor> (\<lfloor>vec_y pos\<rfloor> + 1)) * 0.5,
            vec_y = (H h w \<lfloor>vec_x pos\<rfloor> (\<lfloor>vec_y pos\<rfloor> + 1) - H h w \<lfloor>vec_x pos\<rfloor> \<lfloor>vec_y pos\<rfloor>) * 0.5 +
                    (H h w (\<lfloor>vec_x pos\<rfloor> + 1) (\<lfloor>vec_y pos\<rfloor> + 1) - H h w (\<lfloor>vec_x pos\<rfloor> + 1) \<lfloor>vec_y pos\<rfloor>) * 0.5\<rparr>"
    by (simp add: compute_gradient_def Let_def tx ty)
  {
    fix pos' :: vec2
    assume eq: "\<lfloor>vec_x pos'\<rfloor> = \<lfloor>vec_x pos\<rfloor> \<and> \<lfloor>vec_y pos'\<rfloor> = \<lfloor>vec_y pos\<rfloor>"
    then have "0 < \<lfloor>vec_x pos'\<rfloor>" "0 < \<lfloor>vec_y pos'\<rfloor>" using assms by simp_all
    then have "c_trunc (vec_x pos') = \<lfloor>vec_x pos'\<rfloor>" "c_trunc (vec_y pos') = \<lfloor>vec_y pos'\<rfloor>"
      by (simp_all add: c_trunc_pos_floor c_trunc_pos_iff)
    with eq tx ty show "compute_gradient w h pos' = compute_gradient w h pos"
      by (simp add: compute_gradient_def Let_def)
  }
  {
    assume grid: "\<forall>cx cy. 0 \<le> cx \<and> cx < w \<and> 0 \<le> cy \<and> cy < height \<longrightarrow> H h w cx cy = real_of_int cx"
    let ?x = "\<lfloor>vec_x pos\<rfloor>" and ?y = "\<lfloor>vec_y pos\<rfloor>"
    have "H h w ?x ?y = real_of_int ?x" "H h w (?x + 1) ?y = real_of_int (?x + 1)"
      "H h w ?x (?y + 1) = real_of_int ?x" "H h w (?x + 1) (?y + 1) = real_of_int (?x + 1)"
      using assms grid by simp_all
    then show "compute_gradient w h pos = \<lparr>vec_x = 1, vec_y = 0\<rparr>"
      unfolding formula by simp
  }
qed

theorem compute_gradient_blend_witness:
  "compute_gradient 4 (\<lambda>i. real_of_int (i mod 4)) \<lparr>vec_x = 3 / 2, vec_y = 9 / 4\<rparr> = \<lparr>vec_x = 1, vec_y = 0\<rparr>
   \<and> compute_gradient 4 (\<lambda>i. real_of_int (i mod 4)) \<lparr>vec_x = 1, vec_y = 2\<rparr> =
       compute_gradient 4 (\<lambda>i. real_of_int (i mod 4)) \<lparr>vec_x = 3 / 2, vec_y = 9 / 4\<rparr>"
proof -
  have fl: "\<lfloor>3 / 2 :: real\<rfloor> = 1" "\<lfloor>9 / 4 :: real\<rfloor> = 2"
    by (rule floor_unique, simp_all)+
  have grid: "\<forall>cx cy. 0 \<le> cx \<and> cx < 4 \<and> 0 \<le> cy \<and> cy < 4 \<longrightarrow>
      H (\<lambda>i. real_of_int (i mod 4)) 4 cx cy = real_of_int cx"
    by (simp add: H_def)
  from compute_gradient_blend [of "\<lparr>vec_x = 3 / 2, vec_y = 9 / 4\<rparr>" 4 4 "\<lambda>i. real_of_int (i mod 4)"]
  show ?thesis using grid by (simp add: fl)
qed

text \<open>
  C2 as stated fails for \<^verbatim>\<open>compute_gradient\<close>, the gradient the drop loop calls: it
  has no boundary case. On a grid of width 3 with \<open>h(x, y) = x\<close>, at the corner position
  \<open>(0, 0)\<close> it returns \<open>(1, 0)\<close>. It fails for \<^verbatim>\<open>compute_gradient_central\<close> too,
  which tests both coordinates against the width: on a grid of width 5 and height 3
  whose cell at offset \<open>i\<close> holds \<open>i\<close>, at \<open>(2.5, 2.5)\<close> in the last row it returns
  \<open>(1, 5)\<close>.
\<close>

theorem compute_gradient_boundary_counterexample:
  "c_trunc (vec_x \<lparr>vec_x = 0, vec_y = 0\<rparr>) = 0 \<and>
   compute_gradient 3 (\<lambda>i. real_of_int (i mod 3)) \<lparr>vec_x = 0, vec_y = 0\<rparr> = \<lparr>vec_x = 1, vec_y = 0\<rparr> \<and>
   c_trunc (vec_y \<lparr>vec_x = 5 / 2, vec_y = 5 / 2\<rparr>) = 3 - 1 \<and>
   compute_gradient_central 5 (\<lambda>i. real_of_int i) \<lparr>vec_x = 5 / 2, vec_y = 5 / 2\<rparr> =
     \<lparr>vec_x = 1, vec_y = 5\<rparr>"
proof -
  have t: "c_trunc (5 / 2) = 2" by (rule c_trunc_unique_nonneg) simp_all
  show ?thesis
    by (simp add: compute_gradient_def compute_gradient_central_def c_trunc_def [of 0] H_def t)
qed

text \<open>
  C2 (as amended). Take a position whose truncated x or y lies within 1 cell of the
  boundary of the grid: x below 1 or at least \<open>width - 1\<close>, y below 1 or at least
  \<open>height - 1\<close>. On a grid at least as high as it is wide,
  \<^verbatim>\<open>compute_gradient_central\<close> returns \<open>(0, 0)\<close> there. For a drop at such a position
  the loop of \<^verbatim>\<open>simulate_drop\<close>, the only caller of \<^verbatim>\<open>compute_gradient\<close>, is not
  entered: no gradient is computed, and the heightmap, the drop and the random sequence
  are left as they were. At a position that \<^verbatim>\<open>verify_drop_pos\<close> accepts, the result of
  \<^verbatim>\<open>compute_gradient\<close> depends on cells of the grid only.
\<close>

theorem gradient_boundary_rule:
  "(w \<le> height \<and>
    (c_trunc (vec_x pos) < 1 \<or> c_trunc (vec_x pos) \<ge> w - 1 \<or>
     c_trunc (vec_y pos) < 1 \<or> c_trunc (vec_y pos) \<ge> height - 1)
      \<longrightarrow> compute_gradient_central w h pos = \<lparr>vec_x = 0, vec_y = 0\<rparr>)
   \<and> (c_trunc (vec_x (position d)) < 1 \<or> c_trunc (vec_x (position d)) \<ge> w - 1 \<or>
      c_trunc (vec_y (position d)) < 1 \<or> c_trunc (vec_y (position d)) \<ge> height - 1
      \<longrightarrow> simulate_drop height w rnd param n (h, d, k) = Some (n, h, d, k))
   \<and> (verify_drop_pos d' w height
      \<longrightarrow> (\<forall>h'. (\<forall>i \<in> {0 ..< w * height}. h' i = h i)
             \<longrightarrow> compute_gradient w h' (position d') = compute_gradient w h (position d')))"
proof (intro conjI impI allI)
  assume "w \<le> height \<and>
    (c_trunc (vec_x pos) < 1 \<or> c_trunc (vec_x pos) \<ge> w - 1 \<or>
     c_trunc (vec_y pos) < 1 \<or> c_trunc (vec_y pos) \<ge> height - 1)"
  then have "c_trunc (vec_x pos) < 1 \<or> c_trunc (vec_x pos) \<ge> w - 1 \<or>
     c_trunc (vec_y pos) < 1 \<or> c_trunc (vec_y pos) \<ge> w - 1"
    by linarith
  then show "compute_gradient_central w h pos = \<lparr>vec_x = 0, vec_y = 0\<rparr>"
    unfolding compute_gradient_central_def Let_def by (simp only: if_True)
next
  assume "c_trunc (vec_x (position d)) < 1 \<or> c_trunc (vec_x (position d)) \<ge> w - 1 \<or>
      c_trunc (vec_y (position d)) < 1 \<or> c_trunc (vec_y (position d)) \<ge> height - 1"
  then have "\<not> verify_drop_pos d w height"
    unfolding verify_drop_pos_def Let_def by linarith
  then have "\<not> (lifetime d > 0 \<and> verify_drop_pos d w height \<and> water d > EPSILON)" by simp
  then show "simulate_drop height w rnd param n (h, d, k) = Some (n, h, d, k)"
    by (subst simulate_drop.simps) (rule if_not_P)
next
  fix h' :: heightmap
  assume v: "verify_drop_pos d' w height" and same: "\<forall>i \<in> {0 ..< w * height}. h' i = h i"
  define cx where "cx = c_trunc (vec_x (position d'))"
  define cy where "cy = c_trunc (vec_y (position d'))"
  from v have c: "0 < cx" "cx < w - 1" "0 < cy" "cy < height - 1"
    by (simp_all add: verify_drop_pos_def Let_def cx_def cy_def)
  have eqH: "H h' w a b = H h w a b" if "0 \<le> a" "a < w" "0 \<le> b" "b < height" for a b
  proof -
    from cell_in_grid [OF that] same have "h' (b * w + a) = h (b * w + a)" by blast
    then show ?thesis by (simp add: H_def)
  qed
  have "H h' w cx cy = H h w cx cy" "H h' w (cx + 1) cy = H h w (cx + 1) cy"
    "H h' w cx (cy + 1) = H h w cx (cy + 1)" "H h' w (cx + 1) (cy + 1) = H h w (cx + 1) (cy + 1)"
    using c by (simp_all add: eqH)
  then show "compute_gradient w h' (position d') = compute_gradient w h (position d')"
    by (simp add: compute_gradient_def Let_def cx_def cy_def)
qed

theorem gradient_boundary_rule_witness:
  "compute_gradient_central 3 (\<lambda>i. real_of_int i) \<lparr>vec_x = 3 / 2, vec_y = 7 / 2\<rparr> = \<lparr>vec_x = 0, vec_y = 0\<rparr>
   \<and> simulate_drop 4 3 (\<lambda>i. 1)
         \<lparr>inertia = 1 / 10, slope = 1 / 1000, capacity = 32, deposition = 1 / 1000, erosion = 1 / 10,
          gravity = 981 / 100, evaporation = 1 / 500, radius = 4\<rparr> 0
         (\<lambda>i. real_of_int i, new_drop \<lparr>vec_x = 3 / 2, vec_y = 7 / 2\<rparr>, 0) =
       Some (0, \<lambda>i. real_of_int i, new_drop \<lparr>vec_x = 3 / 2, vec_y = 7 / 2\<rparr>, 0)
   \<and> compute_gradient 3 (\<lambda>i. if 0 \<le> i \<and> i < 12 then real_of_int i else 7)
         (position (new_drop \<lparr>vec_x = 3 / 2, vec_y = 3 / 2\<rparr>)) =
       compute_gradient 3 (\<lambda>i. real_of_int i) (position (new_drop \<lparr>vec_x = 3 / 2, vec_y = 3 / 2\<rparr>))"
proof -
  let ?p = "\<lparr>inertia = 1 / 10, slope = 1 / 1000, capacity = 32, deposition = 1 / 1000, erosion = 1 / 10,
          gravity = 981 / 100, evaporation = 1 / 500, radius = 4\<rparr>"
  let ?h = "\<lambda>i::int. real_of_int i"
  let ?h' = "\<lambda>i::int. if 0 \<le> i \<and> i < 12 then real_of_int i else 7"
  let ?edge = "\<lparr>vec_x = 3 / 2, vec_y = 7 / 2\<rparr>"
  let ?mid = "\<lparr>vec_x = 3 / 2, vec_y = 3 / 2\<rparr>"
  have t: "c_trunc (3 / 2) = 1" "c_trunc (7 / 2) = 3"
    by (rule c_trunc_unique_nonneg, simp_all)+
  have v: "verify_drop_pos (new_drop ?mid) 3 4"
    by (simp add: verify_drop_pos_def new_drop_def t)
  have b: "(3::int) \<le> 4 \<and> (c_trunc (vec_x ?edge) < 1 \<or> c_trunc (vec_x ?edge) \<ge> 3 - 1 \<or>
      c_trunc (vec_y ?edge) < 1 \<or> c_trunc (vec_y ?edge) \<ge> 4 - 1)"
    by (simp add: t)
  have bd: "c_trunc (vec_x (position (new_drop ?edge))) < 1 \<or>
      c_trunc (vec_x (position (new_drop ?edge))) \<ge> 3 - 1 \<or>
      c_trunc (vec_y (position (new_drop ?edge))) < 1 \<or>
      c_trunc (vec_y (position (new_drop ?edge))) \<ge> 4 - 1"
    by (simp add: t new_drop_def)
  have agree: "\<forall>i \<in> {0 ..< 3 * 4}. ?h' i = ?h i"
    by simp
  note rule = gradient_boundary_rule [of 3 4 ?edge ?h "new_drop ?edge" "\<lambda>i. 1" ?p 0 0 "new_drop ?mid"]
  from rule b have central: "compute_gradient_central 3 ?h ?edge = \<lparr>vec_x = 0, vec_y = 0\<rparr>"
    by blast
  from rule bd have loop: "simulate_drop 4 3 (\<lambda>i. 1) ?p 0 (?h, new_drop ?edge, 0) =
      Some (0, ?h, new_drop ?edge, 0)"
    by blast
  from rule v have "\<forall>h'. (\<forall>i \<in> {0 ..< 3 * 4}. h' i = ?h i) \<longrightarrow>
       compute_gradient 3 h' (position (new_drop ?mid)) = compute_gradient 3 ?h (position (new_drop ?mid))"
    by blast
  then have "(\<forall>i \<in> {0 ..< 3 * 4}. ?h' i = ?h i) \<longrightarrow>
       compute_gradient 3 ?h' (position (new_drop ?mid)) = compute_gradient 3 ?h (position (new_drop ?mid))"
    by (rule spec)
  from this agree have "compute_gradient 3 ?h' (position (new_drop ?mid)) =
       compute_gradient 3 ?h (position (new_drop ?mid))"
    by (rule mp)
  with central loop show ?thesis by blast
qed

subsection \<open>The drop loop\<close>

lemma resample_exit: "EPSILON < nrm \<Longrightarrow> resample rnd k nd nrm = Some (nd, nrm, k)"
  by (subst resample.simps) simp

lemma resample_retry:
  "nrm \<le> EPSILON \<Longrightarrow>
   resample rnd k nd nrm =
     resample rnd (k + 2) \<lparr>vec_x = random_double (rnd k), vec_y = random_double (rnd (k + 1))\<rparr>
       (pair_norm rnd k)"
  by (subst resample.simps) (simp add: pair_norm_def Let_def)

lemma resample_reaches:
  "EPSILON < pair_norm rnd (k + 2 * j) \<Longrightarrow>
   \<exists>nd' nrm' k'. resample rnd k nd nrm = Some (nd', nrm', k') \<and> EPSILON < nrm'"
proof (induction j arbitrary: k nd nrm)
  case 0
  show ?case
  proof (cases "EPSILON < nrm")
    case True
    then show ?thesis by (simp add: resample_exit)
  next
    case False
    then have "nrm \<le> EPSILON" by simp
    with 0 show ?thesis by (simp add: resample_retry resample_exit)
  qed
next
  case (Suc j)
  show ?case
  proof (cases "EPSILON < nrm")
    case True
    then show ?thesis by (simp add: resample_exit)
  next
    case False
    then have le: "nrm \<le> EPSILON" by simp
    have "EPSILON < pair_norm rnd ((k + 2) + 2 * j)" using Suc.prems by simp
    from Suc.IH [OF this] show ?thesis by (simp add: resample_retry [OF le])
  qed
qed

lemma resample_total:
  assumes "rnd_fair rnd"
  shows "\<exists>nd' nrm' k'. resample rnd k nd nrm = Some (nd', nrm', k') \<and> EPSILON < nrm'"
proof -
  from assms obtain j where "EPSILON < pair_norm rnd (k + 2 * j)"
    unfolding rnd_fair_def by blast
  then show ?thesis by (rule resample_reaches)
qed

lemma new_direction_total:
  assumes "rnd_fair rnd"
  shows "\<exists>nd k'. new_direction width rnd param hm d k = Some (nd, k')"
proof -
  let ?g = "compute_gradient width hm (position d)"
  let ?nd = "\<lparr>vec_x = vec_x (direction d) * inertia param - vec_x ?g * (1 - inertia param),
              vec_y = vec_y (direction d) * inertia param - vec_y ?g * (1 - inertia param)\<rparr>"
  from resample_total [OF assms, of k ?nd "sqrt (vec_x ?nd * vec_x ?nd + vec_y ?nd * vec_y ?nd)"]
  obtain nd' nrm' k' where
    "resample rnd k ?nd (sqrt (vec_x ?nd * vec_x ?nd + vec_y ?nd * vec_y ?nd)) = Some (nd', nrm', k')"
    by blast
  then show ?thesis by (simp add: new_direction_def Let_def)
qed

lemma deposit_rest_exit:
  "to_drop \<le> EPSILON \<Longrightarrow> deposit_rest width height old_pos sed hm to_drop = Some (hm, to_drop)"
  by (subst deposit_rest.simps) simp

lemma deposit_all_exit:
  "sed \<le> EPSILON \<Longrightarrow> deposit_all width height old_pos hm sed = Some (hm, sed)"
  by (subst deposit_all.simps) simp

lemma EPSILON_pos: "0 < EPSILON"
  by (simp add: EPSILON_def)

lemma verify_drop_pos_in_grid:
  assumes "verify_drop_pos d width height"
  shows "0 \<le> vec_x (position d)" "c_trunc (vec_x (position d)) < width"
    "0 \<le> vec_y (position d)" "c_trunc (vec_y (position d)) < height"
proof -
  have pos: "0 \<le> r" if "0 < c_trunc r" for r
  proof (rule ccontr)
    assume "\<not> 0 \<le> r"
    then have "c_trunc r = \<lceil>r\<rceil>" "\<lceil>r\<rceil> \<le> 0" by (simp_all add: c_trunc_def ceiling_le_iff)
    with that show False by simp
  qed
  from assms have c: "0 < c_trunc (vec_x (position d))" "c_trunc (vec_x (position d)) < width - 1"
    "0 < c_trunc (vec_y (position d))" "c_trunc (vec_y (position d)) < height - 1"
    by (simp_all add: verify_drop_pos_def Let_def)
  from c show "0 \<le> vec_x (position d)" "0 \<le> vec_y (position d)" by (simp_all add: pos)
  from c show "c_trunc (vec_x (position d)) < width" "c_trunc (vec_y (position d)) < height" by simp_all
qed

lemma uphill_inside:
  assumes "0 \<le> vec_x old_pos" "c_trunc (vec_x old_pos) < width"
    and "0 \<le> vec_y old_pos" "c_trunc (vec_y old_pos) < height"
    and "0 < h_diff"
  shows "uphill width height hm d old_pos h_diff =
           Some (snd (simulate_deposition width height hm old_pos (uphill_amount d h_diff)),
                 if sediment d \<ge> h_diff then d else d\<lparr>sediment := min (sediment d) 0\<rparr>)"
proof (cases "sediment d \<ge> h_diff")
  case True
  obtain r hm1 where dep: "simulate_deposition width height hm old_pos h_diff = (r, hm1)"
    by (cases "simulate_deposition width height hm old_pos h_diff")
  have "r = h_diff"
    using simulate_deposition_positive(1) [OF assms, of hm] dep by simp
  then have "deposit_rest width height old_pos (sediment d) hm1 (h_diff - r) = Some (hm1, h_diff - r)"
    using EPSILON_pos by (simp add: deposit_rest_exit)
  with True dep show ?thesis by (simp add: uphill_def uphill_amount_def)
next
  case False
  obtain r hm1 where dep: "simulate_deposition width height hm old_pos (sediment d) = (r, hm1)"
    by (cases "simulate_deposition width height hm old_pos (sediment d)")
  have r: "sediment d - r = min (sediment d) 0"
  proof (cases "0 < sediment d")
    case True
    from simulate_deposition_positive(1) [OF assms(1-4) True, of hm] dep True show ?thesis by simp
  next
    case neg: False
    then have "simulate_deposition width height hm old_pos (sediment d) = (0, hm)"
      using assms by (intro simulate_deposition_noop) simp_all
    with dep neg show ?thesis by simp
  qed
  have "deposit_all width height old_pos hm1 (sediment d - r) = Some (hm1, sediment d - r)"
    using EPSILON_pos r by (intro deposit_all_exit) simp
  with False dep r show ?thesis by (simp add: uphill_def uphill_amount_def)
qed

lemma drop_step_total:
  assumes "rnd_fair rnd" "verify_drop_pos d width height"
  shows "\<exists>fl hm' d' k'. drop_step height width rnd param (hm, d, k) = Some (fl, hm', d', k')"
proof -
  let ?d1 = "d\<lparr>lifetime := lifetime d - 1\<rparr>"
  from new_direction_total [OF assms(1)] obtain nd k' where
    nd: "new_direction width rnd param hm ?d1 k = Some (nd, k')" by blast
  have v: "verify_drop_pos ?d1 width height" using assms(2) by (simp add: verify_drop_pos_def)
  note g = verify_drop_pos_in_grid [OF assms(2)]
  show ?thesis
  proof (cases "0 < height_diff width hm (position (moved ?d1 nd)) (position d)")
    case True
    from uphill_inside [OF g True, of hm "moved ?d1 nd"]
    show ?thesis using nd True by (simp add: drop_step_def Let_def)
  next
    case False
    then show ?thesis using nd
      by (simp add: drop_step_def Let_def split: prod.splits)
  qed
qed

lemma simulate_drop_bounded:
  assumes "rnd_fair rnd"
  shows "\<exists>m hm' d' k'. simulate_drop height width rnd param n (hm, d, k) = Some (m, hm', d', k')
           \<and> m \<le> n + nat (lifetime d)"
proof (induction "nat (lifetime d)" arbitrary: n hm d k rule: less_induct)
  case less
  show ?case
  proof (cases "lifetime d > 0 \<and> verify_drop_pos d width height \<and> water d > EPSILON")
    case False
    then have "simulate_drop height width rnd param n (hm, d, k) = Some (n, hm, d, k)"
      by (subst simulate_drop.simps) (rule if_not_P)
    then show ?thesis by simp
  next
    case True
    then have unfold: "simulate_drop height width rnd param n (hm, d, k) =
       (case drop_step height width rnd param (hm, d, k) of
          None \<Rightarrow> None
        | Some (Break, st') \<Rightarrow> Some (Suc n, st')
        | Some (Continue, st') \<Rightarrow> simulate_drop height width rnd param (Suc n) st')"
      by (subst simulate_drop.simps) (rule if_P)
    from drop_step_total [OF assms, of d width height param hm k] True
    obtain fl hm1 d1 k1 where step: "drop_step height width rnd param (hm, d, k) = Some (fl, hm1, d1, k1)"
      by blast
    have lt: "lifetime d1 = lifetime d - 1" using step by (rule drop_step_lifetime)
    show ?thesis
    proof (cases fl)
      case Break
      have "Suc n \<le> n + nat (lifetime d)" using True by linarith
      with step Break show ?thesis by (simp add: unfold)
    next
      case Continue
      have "nat (lifetime d1) < nat (lifetime d)" using lt True by simp
      from less [OF this, of "Suc n" hm1 k1] obtain m hm' d' k' where
        run: "simulate_drop height width rnd param (Suc n) (hm1, d1, k1) = Some (m, hm', d', k')"
        and m: "m \<le> Suc n + nat (lifetime d1)" by blast
      have "Suc n + nat (lifetime d1) = n + nat (lifetime d)" using lt True by linarith
      with m have "m \<le> n + nat (lifetime d)" by simp
      with run step Continue show ?thesis by (simp add: unfold)
    qed
  qed
qed

lemma simulate_erosion_detailed_total:
  assumes "rnd_fair rnd"
  shows "\<exists>r. simulate_erosion_detailed height width rnd param nb_drop (hm, k) = Some r"
proof (induction nb_drop arbitrary: hm k)
  case 0
  show ?case by simp
next
  case (Suc nb_drop)
  from simulate_drop_bounded [OF assms, of height width param 0 hm
      "new_drop (random_vec2 rnd k width height)" "k + 2"]
  obtain m hm' d' k' where
    "simulate_drop height width rnd param 0 (hm, new_drop (random_vec2 rnd k width height), k + 2)
       = Some (m, hm', d', k')" by blast
  with Suc.IH [of hm' k'] show ?case by simp
qed

lemma PCG_Hash_zero: "PCG_Hash 449710063 = 0"
  by (simp add: PCG_Hash_def)

lemma random_double_zero: "random_double 449710063 = 0"
  by (simp add: random_double_def PCG_Hash_zero)

lemma pair_norm_zero: "pair_norm (\<lambda>i. 449710063) k = 0"
  by (simp add: pair_norm_def random_double_zero)

lemma resample_Some_fair:
  assumes "resample rnd k nd nrm = Some r"
  shows "EPSILON < nrm \<or> (\<exists>j. EPSILON < pair_norm rnd (k + 2 * j))"
proof (rule resample.raw_induct
    [where P = "\<lambda>rnd k nd nrm r. EPSILON < nrm \<or> (\<exists>j. EPSILON < pair_norm rnd (k + 2 * j))",
     OF _ assms])
  fix f :: "(nat \<Rightarrow> 32 word) \<Rightarrow> nat \<Rightarrow> vec2 \<Rightarrow> real \<Rightarrow> (vec2 \<times> real \<times> nat) option"
  fix rnd k nd nrm r
  assume IH: "\<And>rnd k nd nrm r. f rnd k nd nrm = Some r \<Longrightarrow>
      EPSILON < nrm \<or> (\<exists>j. EPSILON < pair_norm rnd (k + 2 * j))"
    and body: "(if nrm \<le> EPSILON
      then let nx = random_double (rnd k); ny = random_double (rnd (k + 1))
           in f rnd (k + 2) \<lparr>vec_x = nx, vec_y = ny\<rparr> (sqrt (nx * nx + ny * ny))
      else Some (nd, nrm, k)) = Some r"
  show "EPSILON < nrm \<or> (\<exists>j. EPSILON < pair_norm rnd (k + 2 * j))"
  proof (cases "nrm \<le> EPSILON")
    case False
    then show ?thesis by simp
  next
    case True
    with body have "f rnd (k + 2) \<lparr>vec_x = random_double (rnd k), vec_y = random_double (rnd (k + 1))\<rparr>
        (pair_norm rnd k) = Some r"
      by (simp add: pair_norm_def Let_def)
    from IH [OF this] show ?thesis
    proof
      assume "EPSILON < pair_norm rnd k"
      then have "EPSILON < pair_norm rnd (k + 2 * 0)" by simp
      then show ?thesis by blast
    next
      assume "\<exists>j. EPSILON < pair_norm rnd (k + 2 + 2 * j)"
      then obtain j where "EPSILON < pair_norm rnd (k + 2 * Suc j)" by auto
      then show ?thesis by blast
    qed
  qed
qed

lemma simulate_drop_steps:
  "simulate_drop height width rnd param n (hm, d, k) = Some (m, hm', d', k') \<Longrightarrow>
   m \<le> n + nat (lifetime d)"
proof (induction "nat (lifetime d)" arbitrary: n hm d k rule: less_induct)
  case less
  show ?case
  proof (cases "lifetime d > 0 \<and> verify_drop_pos d width height \<and> water d > EPSILON")
    case False
    then have "simulate_drop height width rnd param n (hm, d, k) = Some (n, hm, d, k)"
      by (subst simulate_drop.simps) (rule if_not_P)
    with less.prems show ?thesis by simp
  next
    case True
    then have unfold: "simulate_drop height width rnd param n (hm, d, k) =
       (case drop_step height width rnd param (hm, d, k) of
          None \<Rightarrow> None
        | Some (Break, st') \<Rightarrow> Some (Suc n, st')
        | Some (Continue, st') \<Rightarrow> simulate_drop height width rnd param (Suc n) st')"
      by (subst simulate_drop.simps) (rule if_P)
    from less.prems unfold obtain fl hm1 d1 k1 where
      step: "drop_step height width rnd param (hm, d, k) = Some (fl, hm1, d1, k1)"
      by (cases "drop_step height width rnd param (hm, d, k)") auto
    have lt: "lifetime d1 = lifetime d - 1" using step by (rule drop_step_lifetime)
    show ?thesis
    proof (cases fl)
      case Break
      with less.prems step have "m = Suc n" by (simp add: unfold)
      with True show ?thesis by linarith
    next
      case Continue
      with less.prems step have
        run: "simulate_drop height width rnd param (Suc n) (hm1, d1, k1) = Some (m, hm', d', k')"
        by (simp add: unfold)
      have "nat (lifetime d1) < nat (lifetime d)" using lt True by simp
      from less.hyps [OF this run] have "m \<le> Suc n + nat (lifetime d1)" .
      with lt True show ?thesis by linarith
    qed
  qed
qed

text \<open>
  C6 as stated fails: the loop that redraws a direction too short to be normalized has
  no bound, and a drop whose every draw has norm 0 never leaves it. On a flat grid the
  gradient and the first direction are 0; with a \<^verbatim>\<open>rand()\<close> that keeps returning
  449710063, which \<^verbatim>\<open>PCG_Hash\<close> maps to 0, every redrawn direction is \<open>(0, 0)\<close> and
  the first step of the drop does not end.
\<close>

theorem simulate_drop_never_returns:
  "simulate_drop 5 5 (\<lambda>i. 449710063)
     \<lparr>inertia = 1 / 10, slope = 1 / 1000, capacity = 32, deposition = 1 / 1000, erosion = 1 / 10,
      gravity = 981 / 100, evaporation = 1 / 500, radius = 4\<rparr> 0
     (\<lambda>i. 0, new_drop \<lparr>vec_x = 5 / 2, vec_y = 5 / 2\<rparr>, 0) = None"
proof -
  let ?rnd = "\<lambda>i::nat. 449710063 :: 32 word"
  let ?p = "\<lparr>inertia = 1 / 10, slope = 1 / 1000, capacity = 32, deposition = 1 / 1000, erosion = 1 / 10,
      gravity = 981 / 100, evaporation = 1 / 500, radius = 4\<rparr>"
  let ?d = "new_drop \<lparr>vec_x = 5 / 2, vec_y = 5 / 2\<rparr>"
  have t: "c_trunc (5 / 2) = 2" by (rule c_trunc_unique_nonneg) simp_all
  have never: "resample ?rnd k nd 0 = None" for k nd
  proof (cases "resample ?rnd k nd 0")
    case None
    then show ?thesis .
  next
    case (Some r)
    from resample_Some_fair [OF this] show ?thesis
      using EPSILON_pos by (simp add: pair_norm_zero)
  qed
  have dir: "new_direction 5 ?rnd ?p (\<lambda>i. 0) (?d\<lparr>lifetime := lifetime ?d - 1\<rparr>) 0 = None"
    by (simp add: new_direction_def compute_gradient_def H_def Let_def new_drop_def never)
  have step: "drop_step 5 5 ?rnd ?p (\<lambda>i. 0, ?d, 0) = None"
    using dir by (simp add: drop_step_def Let_def)
  have guard: "lifetime ?d > 0 \<and> verify_drop_pos ?d 5 5 \<and> water ?d > EPSILON"
    by (simp add: new_drop_def verify_drop_pos_def t EPSILON_def)
  show ?thesis
    by (subst simulate_drop.simps) (simp add: guard step)
qed

text \<open>
  C6 (as amended). A drop as \<^verbatim>\<open>simulate_erosion_detailed\<close> creates it has lifetime 1000;
  a run of its loop that returns has made at most 1000 iterations; every iteration
  decrements the lifetime once; and the loop is entered only while the lifetime is
  positive, the position valid and the water above \<open>EPSILON\<close>. The loop does return when
  the library's \<^verbatim>\<open>rand()\<close> keeps giving, from every call on, some pair of values whose
  direction is longer than \<open>EPSILON\<close> (\<open>rnd_fair\<close>): then each iteration leaves the
  loop that redraws the direction.
\<close>

theorem simulate_drop_within_lifetime:
  "lifetime (new_drop pos) = 1000
   \<and> (\<forall>n hm' d' k'. simulate_drop height width rnd param 0 (hm, new_drop pos, k) = Some (n, hm', d', k')
          \<longrightarrow> n \<le> 1000)
   \<and> (rnd_fair rnd \<longrightarrow>
         (\<exists>n hm' d' k'. simulate_drop height width rnd param 0 (hm, new_drop pos, k) = Some (n, hm', d', k')
             \<and> n \<le> 1000))
   \<and> (\<forall>d fl hm1 d1 k1. drop_step height width rnd param (hm, d, k) = Some (fl, hm1, d1, k1)
          \<longrightarrow> lifetime d1 = lifetime d - 1)
   \<and> (\<forall>d n. \<not> (0 < lifetime d \<and> verify_drop_pos d width height \<and> EPSILON < water d)
          \<longrightarrow> simulate_drop height width rnd param n (hm, d, k) = Some (n, hm, d, k))"
proof (intro conjI allI impI)
  show "lifetime (new_drop pos) = 1000" by (simp add: new_drop_def)
next
  fix n hm' d' k'
  assume "simulate_drop height width rnd param 0 (hm, new_drop pos, k) = Some (n, hm', d', k')"
  from simulate_drop_steps [OF this] show "n \<le> 1000" by (simp add: new_drop_def)
next
  assume "rnd_fair rnd"
  from simulate_drop_bounded [OF this, of height width param 0 hm "new_drop pos" k]
  show "\<exists>n hm' d' k'. simulate_drop height width rnd param 0 (hm, new_drop pos, k) = Some (n, hm', d', k')
          \<and> n \<le> 1000"
    by (simp add: new_drop_def)
next
  fix d fl hm1 d1 k1
  assume "drop_step height width rnd param (hm, d, k) = Some (fl, hm1, d1, k1)"
  then show "lifetime d1 = lifetime d - 1" by (rule drop_step_lifetime)
next
  fix d n
  assume "\<not> (0 < lifetime d \<and> verify_drop_pos d width height \<and> EPSILON < water d)"
  then show "simulate_drop height width rnd param n (hm, d, k) = Some (n, hm, d, k)"
    by (subst simulate_drop.simps) (rule if_not_P)
qed

lemma PCG_Hash_1: "PCG_Hash 1 = 2831084092"
  by (simp add: PCG_Hash_def)

lemma rnd_fair_const_1: "rnd_fair (\<lambda>i. 1)"
proof -
  have "EPSILON < pair_norm (\<lambda>i. 1) k" for k
  proof -
    have "EPSILON\<^sup>2 < random_double 1 * random_double 1 + random_double 1 * random_double 1"
      by (simp add: random_double_def PCG_Hash_1 UINT32_MAX_def EPSILON_def power2_eq_square)
    then have "EPSILON < sqrt (random_double 1 * random_double 1 + random_double 1 * random_double 1)"
      by (rule real_less_rsqrt)
    then show ?thesis by (simp add: pair_norm_def Let_def)
  qed
  then show ?thesis unfolding rnd_fair_def by blast
qed

theorem simulate_drop_within_lifetime_witness:
  "(\<exists>n hm' d' k'.
      simulate_drop 5 5 (\<lambda>i. 1)
        \<lparr>inertia = 1 / 10, slope = 1 / 1000, capacity = 32, deposition = 1 / 1000, erosion = 1 / 10,
         gravity = 981 / 100, evaporation = 1 / 500, radius = 4\<rparr> 0
        (\<lambda>i. real_of_int (i mod 5), new_drop \<lparr>vec_x = 5 / 2, vec_y = 5 / 2\<rparr>, 0) = Some (n, hm', d', k')
      \<and> n \<le> 1000)
   \<and> (\<exists>fl hm1 d1 k1.
      drop_step 5 5 (\<lambda>i. 1)
        \<lparr>inertia = 1 / 10, slope = 1 / 1000, capacity = 32, deposition = 1 / 1000, erosion = 1 / 10,
         gravity = 981 / 100, evaporation = 1 / 500, radius = 4\<rparr>
        (\<lambda>i. real_of_int (i mod 5), new_drop \<lparr>vec_x = 5 / 2, vec_y = 5 / 2\<rparr>, 0) = Some (fl, hm1, d1, k1)
      \<and> lifetime d1 = 999)
   \<and> simulate_drop 5 5 (\<lambda>i. 1)
        \<lparr>inertia = 1 / 10, slope = 1 / 1000, capacity = 32, deposition = 1 / 1000, erosion = 1 / 10,
         gravity = 981 / 100, evaporation = 1 / 500, radius = 4\<rparr> 3
        (\<lambda>i. real_of_int (i mod 5), (new_drop \<lparr>vec_x = 5 / 2, vec_y = 5 / 2\<rparr>)\<lparr>water := 0\<rparr>, 0) =
       Some (3, \<lambda>i. real_of_int (i mod 5), (new_drop \<lparr>vec_x = 5 / 2, vec_y = 5 / 2\<rparr>)\<lparr>water := 0\<rparr>, 0)"
proof -
  let ?p = "\<lparr>inertia = 1 / 10, slope = 1 / 1000, capacity = 32, deposition = 1 / 1000, erosion = 1 / 10,
         gravity = 981 / 100, evaporation = 1 / 500, radius = 4\<rparr>"
  let ?hm = "\<lambda>i::int. real_of_int (i mod 5)"
  let ?d = "new_drop \<lparr>vec_x = 5 / 2, vec_y = 5 / 2\<rparr>"
  note rule = simulate_drop_within_lifetime [of "\<lparr>vec_x = 5 / 2, vec_y = 5 / 2\<rparr>" 5 5 "\<lambda>i. 1" ?p ?hm 0]
  have t: "c_trunc (5 / 2) = 2" by (rule c_trunc_unique_nonneg) simp_all
  have v: "verify_drop_pos ?d 5 5" by (simp add: verify_drop_pos_def new_drop_def t)
  from drop_step_total [OF rnd_fair_const_1 v, of ?p ?hm 0] obtain fl hm1 d1 k1 where
    step: "drop_step 5 5 (\<lambda>i. 1) ?p (?hm, ?d, 0) = Some (fl, hm1, d1, k1)" by blast
  with rule have "lifetime d1 = lifetime ?d - 1" by blast
  then have l: "lifetime d1 = 999" by (simp add: new_drop_def)
  have dry: "\<not> (0 < lifetime (?d\<lparr>water := 0\<rparr>) \<and> verify_drop_pos (?d\<lparr>water := 0\<rparr>) 5 5
      \<and> EPSILON < water (?d\<lparr>water := 0\<rparr>))"
    using EPSILON_pos by simp
  from rule dry have stop: "simulate_drop 5 5 (\<lambda>i. 1) ?p 3 (?hm, ?d\<lparr>water := 0\<rparr>, 0) =
      Some (3, ?hm, ?d\<lparr>water := 0\<rparr>, 0)"
    by blast
  from rule rnd_fair_const_1 have "\<exists>n hm' d' k'.
      simulate_drop 5 5 (\<lambda>i. 1) ?p 0 (?hm, ?d, 0) = Some (n, hm', d', k') \<and> n \<le> 1000"
    by blast
  with step l stop show ?thesis by blast
qed

subsection \<open>Deposition in double arithmetic\<close>

lemma grid_total_upd:
  assumes "i \<in> {0 ..< width * height}"
  shows "grid_total width height (hm(i := v)) = grid_total width height hm + (v - hm i)"
proof -
  let ?S = "{0 ..< width * height}"
  have fin: "finite ?S" by simp
  have "sum (hm(i := v)) ?S = v + sum (hm(i := v)) (?S - {i})"
    using sum.remove [OF fin assms, of "hm(i := v)"] by simp
  also have "sum (hm(i := v)) (?S - {i}) = sum hm (?S - {i})"
    by (rule sum.cong) simp_all
  also have "v + sum hm (?S - {i}) = sum hm ?S + (v - hm i)"
    using sum.remove [OF fin assms, of hm] by simp
  finally show ?thesis by (simp add: grid_total_def)
qed

text \<open>
  The four weights in double arithmetic: their sum is at least 0.9, above \<open>EPSILON\<close>, and
  the normalized weights sum to 1 up to \<open>16 u + 8 \<eta>\<close>.
\<close>

lemma bilinear_weights_fl:
  fixes u \<eta> :: real
  assumes R: "rounding u \<eta> rd" and u: "0 \<le> u" "u \<le> 1 / 1000" and e: "0 \<le> \<eta>" "\<eta> \<le> 1 / 1000"
    and x0: "0 \<le> x0" "x0 < 1" and y0: "0 \<le> y0" "y0 < 1"
    and dx: "dx = rd x0" and dy: "dy = rd y0"
    and w11: "w11 = rd (rd (1 - dx) * rd (1 - dy))"
    and w12: "w12 = rd (rd (1 - dx) * dy)"
    and w21: "w21 = rd (dx * rd (1 - dy))"
    and w22: "w22 = rd (dx * dy)"
    and s: "s = rd (rd (rd (w11 + w12) + w21) + w22)"
  shows "9 / 10 \<le> s"
    and "0 \<le> rd (w11 / s) \<and> rd (w11 / s) \<le> 6 / 5"
    and "0 \<le> rd (w12 / s) \<and> rd (w12 / s) \<le> 6 / 5"
    and "0 \<le> rd (w21 / s) \<and> rd (w21 / s) \<le> 6 / 5"
    and "0 \<le> rd (w22 / s) \<and> rd (w22 / s) \<le> 6 / 5"
    and "\<bar>rd (w11 / s) + rd (w12 / s) + rd (w21 / s) + rd (w22 / s) - 1\<bar> \<le> 16 * u + 8 * \<eta>"
proof -
  define \<delta> where "\<delta> = u + \<eta>"
  define \<delta>2 where "\<delta>2 = 2 * u + \<eta>"
  have d: "0 \<le> \<delta>" "\<delta> \<le> 2 / 1000" "0 \<le> \<delta>2" "\<delta>2 \<le> 3 / 1000" "\<delta> \<le> \<delta>2"
    using u e by (simp_all add: \<delta>_def \<delta>2_def)
  have r1: "\<bar>rd x - x\<bar> \<le> \<delta>" if "0 \<le> x" "x \<le> 1" for x
    using rounding_error_le [OF R u(1) that] by (simp add: \<delta>_def)
  have r2: "\<bar>rd x - x\<bar> \<le> \<delta>2" if "0 \<le> x" "x \<le> 2" for x
    using rounding_error_le [OF R u(1) that] by (simp add: \<delta>2_def)
  note nn = rounding_nonneg [OF R] and le1 = rounding_le_1 [OF R]
  have dx01: "0 \<le> dx" "dx \<le> 1" using x0 by (simp_all add: dx nn le1)
  have dy01: "0 \<le> dy" "dy \<le> 1" using y0 by (simp_all add: dy nn le1)
  define a where "a = rd (1 - dx)"
  define b where "b = rd (1 - dy)"
  have a01: "0 \<le> a" "a \<le> 1" using dx01 by (simp_all add: a_def nn le1)
  have b01: "0 \<le> b" "b \<le> 1" using dy01 by (simp_all add: b_def nn le1)
  have ea: "\<bar>a - (1 - dx)\<bar> \<le> \<delta>" unfolding a_def using dx01 by (intro r1) simp_all
  have eb: "\<bar>b - (1 - dy)\<bar> \<le> \<delta>" unfolding b_def using dy01 by (intro r1) simp_all
  have p: "0 \<le> a * b" "a * b \<le> 1" "0 \<le> a * dy" "a * dy \<le> 1"
    "0 \<le> dx * b" "dx * b \<le> 1" "0 \<le> dx * dy" "dx * dy \<le> 1"
    using a01 b01 dx01 dy01 by (simp_all add: mult_le_one)
  have w: "0 \<le> w11" "w11 \<le> 1" "0 \<le> w12" "w12 \<le> 1" "0 \<le> w21" "w21 \<le> 1" "0 \<le> w22" "w22 \<le> 1"
    using p by (simp_all add: w11 w12 w21 w22 a_def [symmetric] b_def [symmetric] nn le1)
  have ew: "\<bar>w11 - a * b\<bar> \<le> \<delta>" "\<bar>w12 - a * dy\<bar> \<le> \<delta>" "\<bar>w21 - dx * b\<bar> \<le> \<delta>" "\<bar>w22 - dx * dy\<bar> \<le> \<delta>"
    unfolding w11 w12 w21 w22 a_def [symmetric] b_def [symmetric] using p by (simp_all add: r1)
  define P where "P = (a + dx) * (b + dy)"
  have P_eq: "P = a * b + a * dy + dx * b + dx * dy" by (simp add: P_def algebra_simps)
  have ax: "1 - \<delta> \<le> a + dx" "a + dx \<le> 1 + \<delta>" using ea by linarith+
  have bx: "1 - \<delta> \<le> b + dy" "b + dy \<le> 1 + \<delta>" using eb by linarith+
  have "(1 - \<delta>) * (1 - \<delta>) \<le> P" unfolding P_def
    by (intro mult_mono) (use ax bx d in linarith)+
  moreover have "(1 - \<delta>) * (1 - \<delta>) = 1 - 2 * \<delta> + \<delta> * \<delta>" by (simp add: algebra_simps)
  moreover have "0 \<le> \<delta> * \<delta>" by simp
  ultimately have Plo: "1 - 2 * \<delta> \<le> P" by linarith
  have "P \<le> (1 + \<delta>) * (1 + \<delta>)" unfolding P_def
    by (intro mult_mono) (use ax bx d a01 b01 dx01 dy01 in linarith)+
  moreover have "(1 + \<delta>) * (1 + \<delta>) = 1 + 2 * \<delta> + \<delta> * \<delta>" by (simp add: algebra_simps)
  moreover have "\<delta> * \<delta> \<le> \<delta> * 1" using d by (intro mult_left_mono) linarith+
  ultimately have Phi: "P \<le> 1 + 3 * \<delta>" by linarith
  define W where "W = w11 + w12 + w21 + w22"
  have WP: "\<bar>W - P\<bar> \<le> 4 * \<delta>" unfolding W_def P_eq using ew by linarith
  have Wb: "97 / 100 \<le> W" "W \<le> 103 / 100" using WP Plo Phi d by linarith+
  define s1 where "s1 = rd (w11 + w12)"
  define s2 where "s2 = rd (s1 + w21)"
  have s_eq: "s = rd (s2 + w22)" by (simp add: s s1_def s2_def)
  have e1: "\<bar>s1 - (w11 + w12)\<bar> \<le> \<delta>2" "0 \<le> s1"
    unfolding s1_def using w by (simp_all add: r2 nn)
  have "0 \<le> s1 + w21" "s1 + w21 \<le> 2" using e1 w Wb d unfolding W_def by linarith+
  then have e2: "\<bar>s2 - (s1 + w21)\<bar> \<le> \<delta>2" "0 \<le> s2"
    unfolding s2_def by (simp_all add: r2 nn)
  have "0 \<le> s2 + w22" "s2 + w22 \<le> 2" using e1 e2 w Wb d unfolding W_def by linarith+
  then have e3: "\<bar>s - (s2 + w22)\<bar> \<le> \<delta>2" "0 \<le> s"
    unfolding s_eq by (simp_all add: r2 nn)
  have sW: "\<bar>s - W\<bar> \<le> 3 * \<delta>2" unfolding W_def using e1 e2 e3 by linarith
  show s9: "9 / 10 \<le> s" using sW Wb d by linarith
  then have spos: "0 < s" by linarith
  have quot: "0 \<le> x / s \<and> x / s \<le> 2" if "0 \<le> x" "x \<le> 1" for x
  proof
    show "0 \<le> x / s" using that spos by simp
    have "x \<le> 2 * s" using that s9 by linarith
    then show "x / s \<le> 2" using spos by (simp add: pos_divide_le_eq)
  qed
  have quot': "x / s \<le> 10 / 9" if "0 \<le> x" "x \<le> 1" for x
  proof -
    have "x \<le> 10 / 9 * s" using that s9 by linarith
    then show ?thesis using spos by (simp add: pos_divide_le_eq)
  qed
  have n: "0 \<le> rd (x / s) \<and> rd (x / s) \<le> 6 / 5 \<and> \<bar>rd (x / s) - x / s\<bar> \<le> \<delta>2" if "0 \<le> x" "x \<le> 1" for x
  proof -
    from quot [OF that] have q: "0 \<le> x / s" "x / s \<le> 2" by simp_all
    have "\<bar>rd (x / s) - x / s\<bar> \<le> \<delta>2" using q by (rule r2)
    moreover have "0 \<le> rd (x / s)" using q(1) by (rule nn)
    ultimately show ?thesis using quot' [OF that] d by linarith
  qed
  from n [OF w(1,2)] show "0 \<le> rd (w11 / s) \<and> rd (w11 / s) \<le> 6 / 5" by simp
  from n [OF w(3,4)] show "0 \<le> rd (w12 / s) \<and> rd (w12 / s) \<le> 6 / 5" by simp
  from n [OF w(5,6)] show "0 \<le> rd (w21 / s) \<and> rd (w21 / s) \<le> 6 / 5" by simp
  from n [OF w(7,8)] show "0 \<le> rd (w22 / s) \<and> rd (w22 / s) \<le> 6 / 5" by simp
  have sumq: "w11 / s + w12 / s + w21 / s + w22 / s = W / s"
    by (simp add: W_def add_divide_distrib)
  have "W / s - 1 = (W - s) / s" using spos by (simp add: diff_divide_distrib)
  then have "\<bar>W / s - 1\<bar> = \<bar>W - s\<bar> / s" using spos by (simp add: abs_divide)
  moreover have "\<bar>W - s\<bar> / s \<le> 4 * \<delta>2"
  proof -
    have "4 * \<delta>2 * (9 / 10) \<le> 4 * \<delta>2 * s" using d s9 by (intro mult_left_mono) linarith+
    then have "\<bar>W - s\<bar> \<le> 4 * \<delta>2 * s" using sW d by linarith
    then show ?thesis using spos by (simp add: pos_divide_le_eq)
  qed
  ultimately have Ws: "\<bar>W / s - 1\<bar> \<le> 4 * \<delta>2" by simp
  define r where "r = W / s"
  define N where "N = rd (w11 / s) + rd (w12 / s) + rd (w21 / s) + rd (w22 / s)"
  have "\<bar>N - (w11 / s + w12 / s + w21 / s + w22 / s)\<bar> \<le> 4 * \<delta>2"
    unfolding N_def using n [OF w(1,2)] n [OF w(3,4)] n [OF w(5,6)] n [OF w(7,8)]
    by linarith
  then have "\<bar>N - r\<bar> \<le> 4 * \<delta>2" by (simp add: sumq r_def)
  moreover have "\<bar>r - 1\<bar> \<le> 4 * \<delta>2" using Ws by (simp add: r_def)
  ultimately have "\<bar>N - 1\<bar> \<le> 8 * \<delta>2" by linarith
  then show "\<bar>rd (w11 / s) + rd (w12 / s) + rd (w21 / s) + rd (w22 / s) - 1\<bar> \<le> 16 * u + 8 * \<eta>"
    by (simp add: N_def \<delta>2_def)
qed

text \<open>One guarded addition: the value returned, the grid total and the bound on the cells.\<close>

lemma grid_bound_nonneg:
  fixes cx cy width height :: int
  assumes "0 \<le> cx" "cx < width" "0 \<le> cy" "cy < height"
    and "\<forall>i \<in> {0 ..< width * height}. \<bar>hm i\<bar> \<le> M"
  shows "0 \<le> (M::real)" and "\<bar>hm (cy * width + cx)\<bar> \<le> M"
proof -
  from cell_in_grid [OF assms(1-4)] assms(5) show "\<bar>hm (cy * width + cx)\<bar> \<le> M" by blast
  then show "0 \<le> M" by linarith
qed

lemma drop_cell_fl_step:
  fixes u \<eta> :: real
  assumes R: "rounding u \<eta> rd" and u: "0 \<le> u" and e: "0 \<le> \<eta>"
    and cell: "0 \<le> cx" "cx < width" "0 \<le> cy" "cy < height"
    and q: "0 \<le> q" and sd: "0 \<le> sd"
    and M: "\<forall>i \<in> {0 ..< width * height}. \<bar>hm i\<bar> \<le> M"
  shows "0 \<le> fst (drop_cell_fl rd width cx cy q (sd, hm))"
    and "\<bar>fst (drop_cell_fl rd width cx cy q (sd, hm)) - (sd + q)\<bar> \<le> u * (sd + q) + \<eta>"
    and "\<bar>grid_total width height (snd (drop_cell_fl rd width cx cy q (sd, hm))) -
          (grid_total width height hm + q)\<bar> \<le> u * (M + q) + \<eta>"
    and "\<forall>i \<in> {0 ..< width * height}.
          \<bar>snd (drop_cell_fl rd width cx cy q (sd, hm)) i\<bar> \<le> M + q + (u * (M + q) + \<eta>)"
proof -
  let ?i = "cy * width + cx"
  note g = grid_bound_nonneg [OF cell M]
  have in_grid: "?i \<in> {0 ..< width * height}" using cell by (rule cell_in_grid)
  have slack: "0 \<le> u * (M + q) + \<eta>" "0 \<le> u * (sd + q) + \<eta>"
    using u e q sd g(1) by simp_all
  show "0 \<le> fst (drop_cell_fl rd width cx cy q (sd, hm))"
    using sd q by (simp add: drop_cell_fl_def rounding_nonneg [OF R])
  show "\<bar>fst (drop_cell_fl rd width cx cy q (sd, hm)) - (sd + q)\<bar> \<le> u * (sd + q) + \<eta>"
  proof (cases "0 < q")
    case True
    with rounding_error [OF R, of "sd + q"] sd show ?thesis by (simp add: drop_cell_fl_def)
  next
    case False
    with q have "q = 0" by simp
    then show ?thesis using slack(2) by (simp add: drop_cell_fl_def)
  qed
  have cellerr: "\<bar>rd (hm ?i + q) - (hm ?i + q)\<bar> \<le> u * (M + q) + \<eta>"
  proof -
    have "\<bar>hm ?i + q\<bar> \<le> M + q" using g(2) q by linarith
    then have "u * \<bar>hm ?i + q\<bar> \<le> u * (M + q)" using u by (intro mult_left_mono) simp_all
    with rounding_error [OF R, of "hm ?i + q"] show ?thesis by linarith
  qed
  show "\<bar>grid_total width height (snd (drop_cell_fl rd width cx cy q (sd, hm))) -
          (grid_total width height hm + q)\<bar> \<le> u * (M + q) + \<eta>"
  proof (cases "0 < q")
    case True
    then show ?thesis using cellerr
      by (simp add: drop_cell_fl_def H_def grid_total_upd [OF in_grid])
  next
    case False
    with q have "q = 0" by simp
    then show ?thesis using slack(1) by (simp add: drop_cell_fl_def)
  qed
  show "\<forall>i \<in> {0 ..< width * height}.
          \<bar>snd (drop_cell_fl rd width cx cy q (sd, hm)) i\<bar> \<le> M + q + (u * (M + q) + \<eta>)"
  proof
    fix i assume i: "i \<in> {0 ..< width * height}"
    with M have old: "\<bar>hm i\<bar> \<le> M" by blast
    have new: "\<bar>rd (hm ?i + q)\<bar> \<le> M + q + (u * (M + q) + \<eta>)"
      using cellerr g(2) q by linarith
    have keep: "\<bar>hm i\<bar> \<le> M + q + (u * (M + q) + \<eta>)" using old q slack(1) by linarith
    show "\<bar>snd (drop_cell_fl rd width cx cy q (sd, hm)) i\<bar> \<le> M + q + (u * (M + q) + \<eta>)"
    proof (cases "0 < q \<and> i = ?i")
      case True
      then show ?thesis using new by (simp add: drop_cell_fl_def H_def)
    next
      case False
      then have "snd (drop_cell_fl rd width cx cy q (sd, hm)) i = hm i"
        by (auto simp: drop_cell_fl_def)
      then show ?thesis using keep by simp
    qed
  qed
qed

text \<open>
  The deposition of a positive amount at a position inside the grid, on a grid whose cells
  are bounded by \<open>B\<close> in magnitude.
\<close>

lemma simulate_deposition_fl_bounds:
  fixes u \<eta> :: real
  assumes R: "rounding u \<eta> rd" and u: "0 \<le> u" "u \<le> 1 / 1000" and e: "0 \<le> \<eta>" "\<eta> \<le> 1 / 1000"
    and px: "0 \<le> vec_x pos" "c_trunc (vec_x pos) < width"
    and py: "0 \<le> vec_y pos" "c_trunc (vec_y pos) < height"
    and A: "0 < amount"
    and B: "\<forall>i \<in> {0 ..< width * height}. \<bar>hm i\<bar> \<le> B"
  shows "\<bar>fst (simulate_deposition_fl rd width height hm pos amount) - amount\<bar>
           \<le> (26 * u + 8 * \<eta>) * amount + 9 * \<eta>"
    and "\<bar>grid_total width height (snd (simulate_deposition_fl rd width height hm pos amount)) -
           (grid_total width height hm + fst (simulate_deposition_fl rd width height hm pos amount))\<bar>
           \<le> u * (5 * B + 9 * amount) + 9 * \<eta>"
proof -
  define x1 where "x1 = c_trunc (vec_x pos)"
  define y1 where "y1 = c_trunc (vec_y pos)"
  define x2 where "x2 = c_MIN (x1 + 1) (width - 1)"
  define y2 where "y2 = c_MIN (y1 + 1) (height - 1)"
  define x0 where "x0 = vec_x pos - real_of_int x1"
  define y0 where "y0 = vec_y pos - real_of_int y1"
  have fx: "0 \<le> x0" "x0 < 1" and fy: "0 \<le> y0" "y0 < 1"
    using frac_part_bounds px(1) py(1) by (simp_all add: x0_def y0_def x1_def y1_def)
  have x1: "0 \<le> x1" "x1 < width" and y1: "0 \<le> y1" "y1 < height"
    using px py by (simp_all add: x1_def y1_def c_trunc_def)
  have x2: "0 \<le> x2" "x2 < width" and y2: "0 \<le> y2" "y2 < height"
    using x1 y1 by (simp_all add: x2_def y2_def c_MIN_def)
  define dx where "dx = rd x0"
  define dy where "dy = rd y0"
  define w11 where "w11 = rd (rd (1 - dx) * rd (1 - dy))"
  define w12 where "w12 = rd (rd (1 - dx) * dy)"
  define w21 where "w21 = rd (dx * rd (1 - dy))"
  define w22 where "w22 = rd (dx * dy)"
  define s where "s = rd (rd (rd (w11 + w12) + w21) + w22)"
  note W = bilinear_weights_fl [OF R u e fx fy dx_def dy_def w11_def w12_def w21_def w22_def s_def]
  define n11 where "n11 = rd (w11 / s)"
  define n12 where "n12 = rd (w12 / s)"
  define n21 where "n21 = rd (w21 / s)"
  define n22 where "n22 = rd (w22 / s)"
  have n: "0 \<le> n11" "n11 \<le> 6 / 5" "0 \<le> n12" "n12 \<le> 6 / 5"
    "0 \<le> n21" "n21 \<le> 6 / 5" "0 \<le> n22" "n22 \<le> 6 / 5"
    using W(2-5) by (simp_all add: n11_def n12_def n21_def n22_def)
  have N: "\<bar>n11 + n12 + n21 + n22 - 1\<bar> \<le> 16 * u + 8 * \<eta>"
    using W(6) by (simp add: n11_def n12_def n21_def n22_def)
  define q11 where "q11 = rd (amount * n11)"
  define q12 where "q12 = rd (amount * n12)"
  define q21 where "q21 = rd (amount * n21)"
  define q22 where "q22 = rd (amount * n22)"
  define st1 where "st1 = drop_cell_fl rd width x1 y1 q11 (0, hm)"
  define st2 where "st2 = drop_cell_fl rd width x1 y2 q12 (fst st1, snd st1)"
  define st3 where "st3 = drop_cell_fl rd width x2 y1 q21 (fst st2, snd st2)"
  define st4 where "st4 = drop_cell_fl rd width x2 y2 q22 (fst st3, snd st3)"
  have "\<not> s \<le> EPSILON" using W(1) by (simp add: EPSILON_def)
  then have res: "simulate_deposition_fl rd width height hm pos amount = st4"
    unfolding simulate_deposition_fl_def Let_def st4_def st3_def st2_def st1_def
      q11_def q12_def q21_def q22_def n11_def n12_def n21_def n22_def s_def
      w11_def w12_def w21_def w22_def dx_def dy_def x0_def y0_def x2_def y2_def x1_def y1_def
    by simp
  define v where "v = u * amount"
  define z where "z = \<eta> * amount"
  define ue where "ue = u * \<eta>"
  define uB where "uB = u * B"
  have B0: "0 \<le> B" using grid_bound_nonneg(1) [OF x1 y1 B] .
  have v: "0 \<le> v" "v \<le> amount / 1000"
    using u A mult_right_mono [of u "1 / 1000" amount] by (simp_all add: v_def)
  have z: "0 \<le> z" "z \<le> amount / 1000"
    using e A mult_right_mono [of \<eta> "1 / 1000" amount] by (simp_all add: z_def)
  have ue: "0 \<le> ue" "ue \<le> \<eta> / 1000"
    using u e mult_right_mono [of u "1 / 1000" \<eta>] by (simp_all add: ue_def)
  have uB: "0 \<le> uB" "uB \<le> B / 1000"
    using u B0 mult_right_mono [of u "1 / 1000" B] by (simp_all add: uB_def)
  have qn: "0 \<le> rd (amount * m) \<and> \<bar>rd (amount * m) - amount * m\<bar> \<le> 6 / 5 * v + \<eta>"
    if "0 \<le> m" "m \<le> 6 / 5" for m
  proof -
    have t: "0 \<le> amount * m" "amount * m \<le> 6 / 5 * amount"
      using that A by (simp_all add: mult_left_mono)
    from rounding_error_le [OF R u(1) t] rounding_nonneg [OF R t(1)]
    show ?thesis by (simp add: v_def algebra_simps)
  qed
  have q: "0 \<le> q11" "0 \<le> q12" "0 \<le> q21" "0 \<le> q22"
    and eq: "\<bar>q11 - amount * n11\<bar> \<le> 6 / 5 * v + \<eta>" "\<bar>q12 - amount * n12\<bar> \<le> 6 / 5 * v + \<eta>"
      "\<bar>q21 - amount * n21\<bar> \<le> 6 / 5 * v + \<eta>" "\<bar>q22 - amount * n22\<bar> \<le> 6 / 5 * v + \<eta>"
    using qn [OF n(1,2)] qn [OF n(3,4)] qn [OF n(5,6)] qn [OF n(7,8)]
    by (simp_all add: q11_def q12_def q21_def q22_def)
  define Q where "Q = q11 + q12 + q21 + q22"
  have "\<bar>amount * (n11 + n12 + n21 + n22) - amount\<bar> = amount * \<bar>n11 + n12 + n21 + n22 - 1\<bar>"
  proof -
    have "amount * (n11 + n12 + n21 + n22) - amount = amount * (n11 + n12 + n21 + n22 - 1)"
      by (simp add: algebra_simps)
    then show ?thesis using A by (simp add: abs_mult)
  qed
  also have "\<dots> \<le> amount * (16 * u + 8 * \<eta>)"
    using N A by (intro mult_left_mono) simp_all
  also have "\<dots> = 16 * v + 8 * z" by (simp add: v_def z_def algebra_simps)
  finally have AN: "\<bar>amount * n11 + amount * n12 + amount * n21 + amount * n22 - amount\<bar> \<le> 16 * v + 8 * z"
    by (simp add: algebra_simps)
  have QA: "\<bar>Q - amount\<bar> \<le> 104 / 5 * v + 8 * z + 4 * \<eta>"
    unfolding Q_def using eq AN by linarith
  have Qle: "Q \<le> 103 / 100 * amount + 4 * \<eta>" using QA v z by linarith
  define g where "g = 11 / 10 * v + 101 / 100 * \<eta>"
  define h where "h = 101 / 100 * uB + 11 / 10 * v + 101 / 100 * \<eta>"
  have g0: "0 \<le> g" "g \<le> 11 / 10000 * amount + 101 / 100 * \<eta>" using v e by (simp_all add: g_def)
  have h0: "0 \<le> h" "h \<le> 101 / 100000 * B + 11 / 10000 * amount + 101 / 100 * \<eta>"
    using v e uB by (simp_all add: h_def)
  have sum_err: "u * x + \<eta> \<le> g" if "0 \<le> x" "x \<le> 11 / 10 * amount + 10 * \<eta>" for x
  proof -
    have "u * x \<le> u * (11 / 10 * amount + 10 * \<eta>)" using that u by (intro mult_left_mono) simp_all
    also have "\<dots> = 11 / 10 * v + 10 * ue" by (simp add: v_def ue_def algebra_simps)
    finally show ?thesis using ue by (simp add: g_def)
  qed
  have cell_err: "u * x + \<eta> \<le> h" if "x \<le> 101 / 100 * B + 11 / 10 * amount + 10 * \<eta>" for x
  proof -
    have "u * x \<le> u * (101 / 100 * B + 11 / 10 * amount + 10 * \<eta>)"
      using that u by (intro mult_left_mono) simp_all
    also have "\<dots> = 101 / 100 * uB + 11 / 10 * v + 10 * ue"
      by (simp add: v_def ue_def uB_def algebra_simps)
    finally show ?thesis using ue by (simp add: h_def)
  qed
  note step1 = drop_cell_fl_step [OF R u(1) e(1) x1 y1 q(1) order_refl B, folded st1_def]
  define M1 where "M1 = B + q11 + (u * (B + q11) + \<eta>)"
  have S1: "\<bar>fst st1 - q11\<bar> \<le> g"
    using step1(2) sum_err [of "0 + q11"] q Qle A e unfolding Q_def by simp
  have G1: "\<bar>grid_total width height (snd st1) - (grid_total width height hm + q11)\<bar> \<le> h"
    using step1(3) cell_err [of "B + q11"] q Qle A e B0 unfolding Q_def by linarith
  have M1: "M1 \<le> B + q11 + h"
    using cell_err [of "B + q11"] q Qle A e B0 unfolding Q_def M1_def by linarith
  note step2 = drop_cell_fl_step [OF R u(1) e(1) x1 y2 q(2) step1(1) step1(4) [folded M1_def],
      folded st2_def]
  define M2 where "M2 = M1 + q12 + (u * (M1 + q12) + \<eta>)"
  have S2: "\<bar>fst st2 - (fst st1 + q12)\<bar> \<le> g"
    using step2(2) sum_err [of "fst st1 + q12"] step1(1) S1 g0 q Qle A e unfolding Q_def by linarith
  have G2: "\<bar>grid_total width height (snd st2) - (grid_total width height (snd st1) + q12)\<bar> \<le> h"
    using step2(3) cell_err [of "M1 + q12"] M1 h0 q Qle A e B0 unfolding Q_def by linarith
  have M2: "M2 \<le> B + q11 + q12 + 2 * h"
    using cell_err [of "M1 + q12"] M1 h0 q Qle A e B0 unfolding Q_def M2_def by linarith
  note step3 = drop_cell_fl_step [OF R u(1) e(1) x2 y1 q(3) step2(1) step2(4) [folded M2_def],
      folded st3_def]
  define M3 where "M3 = M2 + q21 + (u * (M2 + q21) + \<eta>)"
  have S3: "\<bar>fst st3 - (fst st2 + q21)\<bar> \<le> g"
    using step3(2) sum_err [of "fst st2 + q21"] step2(1) S1 S2 g0 q Qle A e unfolding Q_def by linarith
  have G3: "\<bar>grid_total width height (snd st3) - (grid_total width height (snd st2) + q21)\<bar> \<le> h"
    using step3(3) cell_err [of "M2 + q21"] M2 h0 q Qle A e B0 unfolding Q_def by linarith
  have M3: "M3 \<le> B + q11 + q12 + q21 + 3 * h"
    using cell_err [of "M2 + q21"] M2 h0 q Qle A e B0 unfolding Q_def M3_def by linarith
  note step4 = drop_cell_fl_step [OF R u(1) e(1) x2 y2 q(4) step3(1) step3(4) [folded M3_def],
      folded st4_def]
  have S4: "\<bar>fst st4 - (fst st3 + q22)\<bar> \<le> g"
    using step4(2) sum_err [of "fst st3 + q22"] step3(1) S1 S2 S3 g0 q Qle A e unfolding Q_def by linarith
  have G4: "\<bar>grid_total width height (snd st4) - (grid_total width height (snd st3) + q22)\<bar> \<le> h"
    using step4(3) cell_err [of "M3 + q22"] M3 h0 q Qle A e B0 unfolding Q_def by linarith
  have retQ: "\<bar>fst st4 - Q\<bar> \<le> 4 * g" unfolding Q_def using S1 S2 S3 S4 by linarith
  have totQ: "\<bar>grid_total width height (snd st4) - (grid_total width height hm + Q)\<bar> \<le> 4 * h"
    unfolding Q_def using G1 G2 G3 G4 by linarith
  have "\<bar>fst st4 - amount\<bar> \<le> \<bar>fst st4 - Q\<bar> + \<bar>Q - amount\<bar>" by linarith
  also have "\<dots> \<le> 4 * g + (104 / 5 * v + 8 * z + 4 * \<eta>)" using retQ QA by linarith
  also have "\<dots> \<le> 26 * v + 8 * z + 9 * \<eta>" using e(1) v(1) by (simp add: g_def)
  finally have "\<bar>fst st4 - amount\<bar> \<le> 26 * v + 8 * z + 9 * \<eta>" .
  then show "\<bar>fst (simulate_deposition_fl rd width height hm pos amount) - amount\<bar>
           \<le> (26 * u + 8 * \<eta>) * amount + 9 * \<eta>"
    by (simp add: res v_def z_def algebra_simps)
  define T where "T = grid_total width height (snd st4) - grid_total width height hm"
  have "\<bar>T - fst st4\<bar> \<le> \<bar>T - Q\<bar> + \<bar>fst st4 - Q\<bar>" by linarith
  also have "\<dots> \<le> 4 * h + 4 * g" using retQ totQ unfolding T_def by linarith
  also have "\<dots> \<le> 5 * uB + 9 * v + 9 * \<eta>" using e(1) v(1) uB(1) by (simp add: g_def h_def)
  finally have "\<bar>grid_total width height (snd st4) - (grid_total width height hm + fst st4)\<bar>
      \<le> 5 * uB + 9 * v + 9 * \<eta>"
    unfolding T_def by linarith
  then show "\<bar>grid_total width height (snd (simulate_deposition_fl rd width height hm pos amount)) -
           (grid_total width height hm + fst (simulate_deposition_fl rd width height hm pos amount))\<bar>
           \<le> u * (5 * B + 9 * amount) + 9 * \<eta>"
    by (simp add: res v_def uB_def algebra_simps)
qed

text \<open>
  Two calls of the deposition in double arithmetic, at the position \<open>(2.25, 2.25)\<close> of a
  grid of 5 by 5 whose cell \<open>(1, 2)\<close> holds \<open>2 ^ 40 + 7 / 2 ^ 12\<close> and whose other cells
  hold 0: first of that amount, then of \<open>2 ^ 41\<close>. The first call returns \<open>1 / 2 ^ 12\<close> less
  than the amount.
\<close>

lemma c_trunc_9_4: "c_trunc (9 / 4) = 2"
  by (rule c_trunc_unique_nonneg) simp_all

lemma deposition_trace:
  "simulate_deposition_fl round_double 5 5 (\<lambda>i. if i = 11 then 4503599627370503 / 4096 else 0) \<lparr>vec_x = 9 / 4, vec_y = 9 / 4\<rparr> (4503599627370503 / 4096) =
     (2251799813685251 / 2048, (\<lambda>i. if i = 11 then 4503599627370503 / 4096 else 0)(12 := 633318697598977 / 1024, 17 := 3377699720527877 / 16384, 13 := 3377699720527877 / 16384, 18 := 4503599627370503 / 65536))"
  "simulate_deposition_fl round_double 5 5 ((\<lambda>i. if i = 11 then 4503599627370503 / 4096 else 0)(12 := 633318697598977 / 1024, 17 := 3377699720527877 / 16384, 13 := 3377699720527877 / 16384, 18 := 4503599627370503 / 65536)) \<lparr>vec_x = 9 / 4, vec_y = 9 / 4\<rparr> 2199023255552 =
     (2199023255552, ((\<lambda>i. if i = 11 then 4503599627370503 / 4096 else 0)(12 := 633318697598977 / 1024, 17 := 3377699720527877 / 16384, 13 := 3377699720527877 / 16384, 18 := 4503599627370503 / 65536))(12 := 1899956092796929 / 1024, 17 := 2533274790395905 / 4096, 13 := 2533274790395905 / 4096, 18 := 1688849860263937 / 8192))"
  "round_double (1 / 4096) = 1 / 4096"
  "round_double (- (9007199254740991 / 4096)) = - (9007199254740991 / 4096)"
proof -
  note t = c_trunc_9_4
  have r0: "round_double (1 / 4) = 1 / 4"
    using round_double_eqI [of "- 2" "1 / 4" "4503599627370496"] by (simp add: pow2_def rne_def Let_def)
  have r1: "round_double (3 / 4) = 3 / 4"
    using round_double_eqI [of "- 1" "3 / 4" "6755399441055744"] by (simp add: pow2_def rne_def Let_def)
  have r2: "round_double (9 / 16) = 9 / 16"
    using round_double_eqI [of "- 1" "9 / 16" "5066549580791808"] by (simp add: pow2_def rne_def Let_def)
  have r3: "round_double (3 / 16) = 3 / 16"
    using round_double_eqI [of "- 3" "3 / 16" "6755399441055744"] by (simp add: pow2_def rne_def Let_def)
  have r4: "round_double (1 / 16) = 1 / 16"
    using round_double_eqI [of "- 4" "1 / 16" "4503599627370496"] by (simp add: pow2_def rne_def Let_def)
  have r5: "round_double (15 / 16) = 15 / 16"
    using round_double_eqI [of "- 1" "15 / 16" "8444249301319680"] by (simp add: pow2_def rne_def Let_def)
  have r6: "round_double 1 = 1"
    using round_double_eqI [of "0" "1" "4503599627370496"] by (simp add: pow2_def rne_def Let_def)
  have r7: "round_double (40532396646334527 / 65536) = 633318697598977 / 1024"
    using round_double_eqI [of "39" "40532396646334527 / 65536" "5066549580791816"] by (simp add: pow2_def rne_def Let_def)
  have r8: "round_double (633318697598977 / 1024) = 633318697598977 / 1024"
    using round_double_eqI [of "39" "633318697598977 / 1024" "5066549580791816"] by (simp add: pow2_def rne_def Let_def)
  have r9: "round_double (13510798882111509 / 65536) = 3377699720527877 / 16384"
    using round_double_eqI [of "37" "13510798882111509 / 65536" "6755399441055754"] by (simp add: pow2_def rne_def Let_def)
  have r10: "round_double (3377699720527877 / 16384) = 3377699720527877 / 16384"
    using round_double_eqI [of "37" "3377699720527877 / 16384" "6755399441055754"] by (simp add: pow2_def rne_def Let_def)
  have r11: "round_double (13510798882111509 / 16384) = 3377699720527877 / 4096"
    using round_double_eqI [of "39" "13510798882111509 / 16384" "6755399441055754"] by (simp add: pow2_def rne_def Let_def)
  have r12: "round_double (16888498602639385 / 16384) = 2111062325329923 / 2048"
    using round_double_eqI [of "39" "16888498602639385 / 16384" "8444249301319692"] by (simp add: pow2_def rne_def Let_def)
  have r13: "round_double (4503599627370503 / 65536) = 4503599627370503 / 65536"
    using round_double_eqI [of "36" "4503599627370503 / 65536" "4503599627370503"] by (simp add: pow2_def rne_def Let_def)
  have r14: "round_double (72057594037928039 / 65536) = 2251799813685251 / 2048"
    using round_double_eqI [of "40" "72057594037928039 / 65536" "4503599627370502"] by (simp add: pow2_def rne_def Let_def)
  have r15: "round_double (1 / 4096) = 1 / 4096"
    using round_double_eqI [of "- 12" "1 / 4096" "4503599627370496"] by (simp add: pow2_def rne_def Let_def)
  have r16: "round_double 1236950581248 = 1236950581248"
    using round_double_eqI [of "40" "1236950581248" "5066549580791808"] by (simp add: pow2_def rne_def Let_def)
  have r17: "round_double (1899956092796929 / 1024) = 1899956092796929 / 1024"
    using round_double_eqI [of "40" "1899956092796929 / 1024" "7599824371187716"] by (simp add: pow2_def rne_def Let_def)
  have r18: "round_double 412316860416 = 412316860416"
    using round_double_eqI [of "38" "412316860416" "6755399441055744"] by (simp add: pow2_def rne_def Let_def)
  have r19: "round_double (10133099161583621 / 16384) = 2533274790395905 / 4096"
    using round_double_eqI [of "39" "10133099161583621 / 16384" "5066549580791810"] by (simp add: pow2_def rne_def Let_def)
  have r20: "round_double 1649267441664 = 1649267441664"
    using round_double_eqI [of "40" "1649267441664" "6755399441055744"] by (simp add: pow2_def rne_def Let_def)
  have r21: "round_double 2061584302080 = 2061584302080"
    using round_double_eqI [of "40" "2061584302080" "8444249301319680"] by (simp add: pow2_def rne_def Let_def)
  have r22: "round_double 137438953472 = 137438953472"
    using round_double_eqI [of "37" "137438953472" "4503599627370496"] by (simp add: pow2_def rne_def Let_def)
  have r23: "round_double (13510798882111495 / 65536) = 1688849860263937 / 8192"
    using round_double_eqI [of "37" "13510798882111495 / 65536" "6755399441055748"] by (simp add: pow2_def rne_def Let_def)
  have r24: "round_double 2199023255552 = 2199023255552"
    using round_double_eqI [of "41" "2199023255552" "4503599627370496"] by (simp add: pow2_def rne_def Let_def)
  have r25: "round_double (- (9007199254740991 / 4096)) = - (9007199254740991 / 4096)"
    using round_double_eqI [of "40" "- (9007199254740991 / 4096)" "- 9007199254740991"] by (simp add: pow2_def rne_def Let_def)
  note rs = r0 r1 r2 r3 r4 r5 r6 r7 r8 r9 r10 r11 r12 r13 r14 r15 r16 r17 r18 r19 r20 r21 r22 r23 r24 r25
  show "simulate_deposition_fl round_double 5 5 (\<lambda>i. if i = 11 then 4503599627370503 / 4096 else 0) \<lparr>vec_x = 9 / 4, vec_y = 9 / 4\<rparr> (4503599627370503 / 4096) =
     (2251799813685251 / 2048, (\<lambda>i. if i = 11 then 4503599627370503 / 4096 else 0)(12 := 633318697598977 / 1024, 17 := 3377699720527877 / 16384, 13 := 3377699720527877 / 16384, 18 := 4503599627370503 / 65536))"
    by (simp add: simulate_deposition_fl_def drop_cell_fl_def H_def c_MIN_def t EPSILON_def round_double_0 rs)
  show "simulate_deposition_fl round_double 5 5 ((\<lambda>i. if i = 11 then 4503599627370503 / 4096 else 0)(12 := 633318697598977 / 1024, 17 := 3377699720527877 / 16384, 13 := 3377699720527877 / 16384, 18 := 4503599627370503 / 65536)) \<lparr>vec_x = 9 / 4, vec_y = 9 / 4\<rparr> 2199023255552 =
     (2199023255552, ((\<lambda>i. if i = 11 then 4503599627370503 / 4096 else 0)(12 := 633318697598977 / 1024, 17 := 3377699720527877 / 16384, 13 := 3377699720527877 / 16384, 18 := 4503599627370503 / 65536))(12 := 1899956092796929 / 1024, 17 := 2533274790395905 / 4096, 13 := 2533274790395905 / 4096, 18 := 1688849860263937 / 8192))"
    by (simp add: simulate_deposition_fl_def drop_cell_fl_def H_def c_MIN_def t EPSILON_def round_double_0 rs)
  show "round_double (1 / 4096) = 1 / 4096" by (simp add: rs)
  show "round_double (- (9007199254740991 / 4096)) = - (9007199254740991 / 4096)" by (simp add: rs)
qed

text \<open>
  C3 as stated fails in double arithmetic. The first call above returns a value
  \<open>1 / 2 ^ 12\<close> away from the amount, more than \<open>1e-9\<close>, and the grid total does not grow
  by the value returned.
\<close>

theorem simulate_deposition_rounding_counterexample:
  "1 / 10 ^ 9 <
     \<bar>fst (simulate_deposition_fl round_double 5 5 (\<lambda>i. if i = 11 then 4503599627370503 / 4096 else 0) \<lparr>vec_x = 9 / 4, vec_y = 9 / 4\<rparr> (4503599627370503 / 4096)) - (4503599627370503 / 4096)\<bar>
   \<and> grid_total 5 5 (snd (simulate_deposition_fl round_double 5 5 (\<lambda>i. if i = 11 then 4503599627370503 / 4096 else 0) \<lparr>vec_x = 9 / 4, vec_y = 9 / 4\<rparr> (4503599627370503 / 4096))) \<noteq>
       grid_total 5 5 (\<lambda>i. if i = 11 then 4503599627370503 / 4096 else 0) +
       fst (simulate_deposition_fl round_double 5 5 (\<lambda>i. if i = 11 then 4503599627370503 / 4096 else 0) \<lparr>vec_x = 9 / 4, vec_y = 9 / 4\<rparr> (4503599627370503 / 4096))"
  by (simp add: deposition_trace(1) grid_total_upd)


text \<open>
  C3 (as amended). At a position inside the grid (the four target cells are then inside
  it too, the second column and row being clamped to the last one), depositing
  \<open>amount > 0\<close> in double arithmetic returns \<open>amount\<close> up to the relative error
  \<open>1 / 2 ^ 48\<close> (and \<open>1 / 2 ^ 1070\<close> for underflow), and the sum of the grid's heights
  grows by the value returned up to \<open>(B + amount) / 2 ^ 49\<close>, where \<open>B\<close> bounds the
  magnitude of the heights. Both differences come from rounding only, never from
  clamping: in exact arithmetic the value returned is \<open>amount\<close> and the total grows by
  exactly that. With the amount and the heights at most \<open>2 ^ 1000\<close> no operation
  overflows.
\<close>

theorem simulate_deposition_conserves:
  assumes "0 \<le> vec_x pos" "c_trunc (vec_x pos) < width"
    and "0 \<le> vec_y pos" "c_trunc (vec_y pos) < height"
    and "0 < amount" "amount \<le> 2 ^ 1000"
    and "\<forall>i \<in> {0 ..< width * height}. \<bar>hm i\<bar> \<le> B" "B \<le> 2 ^ 1000"
  shows "\<bar>fst (simulate_deposition_fl round_double width height hm pos amount) - amount\<bar>
           \<le> amount / 2 ^ 48 + 1 / 2 ^ 1070
       \<and> \<bar>grid_total width height (snd (simulate_deposition_fl round_double width height hm pos amount)) -
            (grid_total width height hm +
             fst (simulate_deposition_fl round_double width height hm pos amount))\<bar>
           \<le> (B + amount) / 2 ^ 49 + 1 / 2 ^ 1070
       \<and> fst (simulate_deposition width height hm pos amount) = amount
       \<and> grid_total width height (snd (simulate_deposition width height hm pos amount)) =
           grid_total width height hm + fst (simulate_deposition width height hm pos amount)"
proof -
  let ?u = "1 / 2 ^ 53 :: real" and ?e = "1 / 2 ^ 1075 :: real"
  let ?r = "simulate_deposition_fl round_double width height hm pos amount"
  have small: "0 \<le> ?u" "?u \<le> 1 / 1000" "0 \<le> ?e" "?e \<le> 1 / 1000" by simp_all
  note b = simulate_deposition_fl_bounds [OF round_double_rounding small assms(1-5) assms(7)]
  have B0: "0 \<le> B"
  proof -
    have "0 \<le> c_trunc (vec_x pos)" "0 \<le> c_trunc (vec_y pos)"
      using assms(1,3) by (simp_all add: c_trunc_def)
    from grid_bound_nonneg(1) [OF this(1) assms(2) this(2) assms(4) assms(7)] show ?thesis .
  qed
  have c1: "(26 * ?u + 8 * ?e) * amount \<le> 1 / 2 ^ 48 * amount"
    using assms(5) by (intro mult_right_mono) simp_all
  have c2: "9 * ?e \<le> 1 / 2 ^ 1070" by simp
  have ret: "\<bar>fst ?r - amount\<bar> \<le> amount / 2 ^ 48 + 1 / 2 ^ 1070"
    using b(1) c1 c2 by simp
  have "?u * (5 * B + 9 * amount) \<le> ?u * (16 * (B + amount))"
    using B0 assms(5) by (intro mult_left_mono) simp_all
  also have "\<dots> = (B + amount) / 2 ^ 49" by simp
  finally have tot: "\<bar>grid_total width height (snd ?r) - (grid_total width height hm + fst ?r)\<bar>
      \<le> (B + amount) / 2 ^ 49 + 1 / 2 ^ 1070"
    using b(2) c2 by linarith
  have ex: "fst (simulate_deposition width height hm pos amount) = amount"
    "grid_total width height (snd (simulate_deposition width height hm pos amount)) =
       grid_total width height hm + amount"
    using simulate_deposition_positive [OF assms(1-5)] by simp_all
  from ret tot ex show ?thesis by simp
qed

theorem simulate_deposition_conserves_witness:
  "\<bar>fst (simulate_deposition_fl round_double 5 5 (\<lambda>i. real_of_int (i mod 5))
           \<lparr>vec_x = 9 / 4, vec_y = 5 / 2\<rparr> (3 / 10)) - 3 / 10\<bar>
     \<le> (3 / 10) / 2 ^ 48 + 1 / 2 ^ 1070
   \<and> \<bar>grid_total 5 5 (snd (simulate_deposition_fl round_double 5 5 (\<lambda>i. real_of_int (i mod 5))
           \<lparr>vec_x = 9 / 4, vec_y = 5 / 2\<rparr> (3 / 10))) -
        (grid_total 5 5 (\<lambda>i. real_of_int (i mod 5)) +
         fst (simulate_deposition_fl round_double 5 5 (\<lambda>i. real_of_int (i mod 5))
           \<lparr>vec_x = 9 / 4, vec_y = 5 / 2\<rparr> (3 / 10)))\<bar>
     \<le> (4 + 3 / 10) / 2 ^ 49 + 1 / 2 ^ 1070
   \<and> fst (simulate_deposition 5 5 (\<lambda>i. real_of_int (i mod 5)) \<lparr>vec_x = 9 / 4, vec_y = 5 / 2\<rparr> (3 / 10)) = 3 / 10"
proof -
  have t: "c_trunc (9 / 4) = 2" "c_trunc (5 / 2) = 2"
    by (rule c_trunc_unique_nonneg, simp_all)+
  have B: "\<forall>i \<in> {0 ..< 5 * 5}. \<bar>real_of_int (i mod 5)\<bar> \<le> 4"
  proof
    fix i :: int assume "i \<in> {0 ..< 5 * 5}"
    have "0 \<le> i mod 5" "i mod 5 < 5" by simp_all
    then show "\<bar>real_of_int (i mod 5)\<bar> \<le> 4" by simp
  qed
  from simulate_deposition_conserves [of "\<lparr>vec_x = 9 / 4, vec_y = 5 / 2\<rparr>" 5 5 "3 / 10"
      "\<lambda>i. real_of_int (i mod 5)" 4, OF _ _ _ _ _ _ B]
  show ?thesis by (simp add: t)
qed

subsection \<open>The uphill branch\<close>

text \<open>
  C5. The claim fails on the code. A drop with sediment \<open>2 ^ 41\<close> has moved from
  \<open>(2.25, 2.25)\<close> to the cell \<open>(1, 2)\<close>, higher by \<open>h_diff = 2 ^ 40 + 7 / 2 ^ 12\<close>. The
  first deposition returns \<open>1 / 2 ^ 12\<close> less than \<open>h_diff\<close>; this leftover is above
  \<open>EPSILON\<close>, and the loop \<^verbatim>\<open>while (to_drop > EPSILON)\<close> deposits \<^verbatim>\<open>drop.sediment\<close>, not
  the leftover: the grid receives about \<open>3 * 2 ^ 40\<close> in place of \<open>h_diff\<close>.
\<close>

theorem uphill_reissues_sediment:
  "uphill_fl round_double 5 5 (\<lambda>i. if i = 11 then 4503599627370503 / 4096 else 0)
     \<lparr>position = \<lparr>vec_x = 5 / 4, vec_y = 9 / 4\<rparr>, direction = \<lparr>vec_x = 0, vec_y = 0\<rparr>,
        lifetime = 999, velocity = 1, water = 1, sediment = 2199023255552\<rparr>
     \<lparr>vec_x = 9 / 4, vec_y = 9 / 4\<rparr> (4503599627370503 / 4096) =
   Some (((\<lambda>i. if i = 11 then 4503599627370503 / 4096 else 0)(12 := 633318697598977 / 1024, 17 := 3377699720527877 / 16384, 13 := 3377699720527877 / 16384, 18 := 4503599627370503 / 65536))(12 := 1899956092796929 / 1024, 17 := 2533274790395905 / 4096, 13 := 2533274790395905 / 4096, 18 := 1688849860263937 / 8192),
     \<lparr>position = \<lparr>vec_x = 5 / 4, vec_y = 9 / 4\<rparr>, direction = \<lparr>vec_x = 0, vec_y = 0\<rparr>,
        lifetime = 999, velocity = 1, water = 1, sediment = 2199023255552\<rparr>)
   \<and> grid_total 5 5 (((\<lambda>i. if i = 11 then 4503599627370503 / 4096 else 0)(12 := 633318697598977 / 1024, 17 := 3377699720527877 / 16384, 13 := 3377699720527877 / 16384, 18 := 4503599627370503 / 65536))(12 := 1899956092796929 / 1024, 17 := 2533274790395905 / 4096, 13 := 2533274790395905 / 4096, 18 := 1688849860263937 / 8192)) =
       grid_total 5 5 (\<lambda>i. if i = 11 then 4503599627370503 / 4096 else 0) + 27021597764222989 / 8192"
proof -
  have rest: "deposit_rest_fl round_double 5 5 \<lparr>vec_x = 9 / 4, vec_y = 9 / 4\<rparr> 2199023255552 ((\<lambda>i. if i = 11 then 4503599627370503 / 4096 else 0)(12 := 633318697598977 / 1024, 17 := 3377699720527877 / 16384, 13 := 3377699720527877 / 16384, 18 := 4503599627370503 / 65536)) (1 / 4096) =
      Some (((\<lambda>i. if i = 11 then 4503599627370503 / 4096 else 0)(12 := 633318697598977 / 1024, 17 := 3377699720527877 / 16384, 13 := 3377699720527877 / 16384, 18 := 4503599627370503 / 65536))(12 := 1899956092796929 / 1024, 17 := 2533274790395905 / 4096, 13 := 2533274790395905 / 4096, 18 := 1688849860263937 / 8192), - (9007199254740991 / 4096))"
    apply (subst deposit_rest_fl.simps)
    apply (simp add: EPSILON_def deposition_trace(2) deposition_trace(4))
    apply (subst deposit_rest_fl.simps)
    apply (simp add: EPSILON_def)
    done
  have run: "uphill_fl round_double 5 5 (\<lambda>i. if i = 11 then 4503599627370503 / 4096 else 0)
     \<lparr>position = \<lparr>vec_x = 5 / 4, vec_y = 9 / 4\<rparr>, direction = \<lparr>vec_x = 0, vec_y = 0\<rparr>,
        lifetime = 999, velocity = 1, water = 1, sediment = 2199023255552\<rparr>
     \<lparr>vec_x = 9 / 4, vec_y = 9 / 4\<rparr> (4503599627370503 / 4096) =
   Some (((\<lambda>i. if i = 11 then 4503599627370503 / 4096 else 0)(12 := 633318697598977 / 1024, 17 := 3377699720527877 / 16384, 13 := 3377699720527877 / 16384, 18 := 4503599627370503 / 65536))(12 := 1899956092796929 / 1024, 17 := 2533274790395905 / 4096, 13 := 2533274790395905 / 4096, 18 := 1688849860263937 / 8192),
     \<lparr>position = \<lparr>vec_x = 5 / 4, vec_y = 9 / 4\<rparr>, direction = \<lparr>vec_x = 0, vec_y = 0\<rparr>,
        lifetime = 999, velocity = 1, water = 1, sediment = 2199023255552\<rparr>)"
    by (simp add: uphill_fl_def deposition_trace(1) deposition_trace(3) rest)
  have tot: "grid_total 5 5 (((\<lambda>i. if i = 11 then 4503599627370503 / 4096 else 0)(12 := 633318697598977 / 1024, 17 := 3377699720527877 / 16384, 13 := 3377699720527877 / 16384, 18 := 4503599627370503 / 65536))(12 := 1899956092796929 / 1024, 17 := 2533274790395905 / 4096, 13 := 2533274790395905 / 4096, 18 := 1688849860263937 / 8192)) =
       grid_total 5 5 (\<lambda>i. if i = 11 then 4503599627370503 / 4096 else 0) + 27021597764222989 / 8192"
    by (simp add: grid_total_upd)
  from run tot show ?thesis by (rule conjI)
qed


subsection \<open>The erosion branch\<close>












lemma upto_radius_1: "[- 1 .. 1::int] = [- 1, 0, 1]"
  by (simp add: upto.simps)


text \<open>
  The erosion branch in double arithmetic, with the parameters of \<^verbatim>\<open>main\<close> but radius
  1, on a grid of 5 by 5 with \<open>h(x, y) = x\<close>: a drop with water \<open>1 / 8\<close> has moved from
  \<open>(2.5, 2.5)\<close> one cell down, to \<open>(1.5, 2.5)\<close>. The capacity is 4 and the gain is the
  double \<open>0.4\<close>; the whole gain is taken from the cell \<open>(2, 2)\<close>.
\<close>

lemma round_double_sqrt_2: "\<not> round_double (sqrt 2) \<le> 1"
proof -
  have "(7 / 5)\<^sup>2 < (2::real)" by (simp add: power2_eq_square)
  then have lo: "7 / 5 < sqrt 2" by (rule real_less_rsqrt)
  have hi: "sqrt 2 < 2" by (rule real_less_lsqrt) simp_all
  have "\<bar>round_double (sqrt 2) - sqrt 2\<bar> \<le> \<bar>sqrt 2\<bar> / 2 ^ 53 + 1 / 2 ^ 1075"
    by (rule round_double_error)
  moreover have "\<bar>sqrt 2\<bar> / 2 ^ 53 \<le> 2 / 2 ^ 53" using hi by simp
  moreover have "(2::real) / 2 ^ 53 + 1 / 2 ^ 1075 < 2 / 5" by simp
  ultimately show ?thesis using lo by linarith
qed

lemma erosion_trace:
  "drop_capacity_fl round_double \<lparr>inertia = 1 / 10, slope = 1152921504606847 / 1152921504606846976, capacity = 32, deposition = 1 / 1000,
        erosion = 3602879701896397 / 36028797018963968, gravity = 981 / 100, evaporation = 1 / 500, radius = 1\<rparr> \<lparr>position = \<lparr>vec_x = 3 / 2, vec_y = 5 / 2\<rparr>, direction = \<lparr>vec_x = 0, vec_y = 0\<rparr>,
        lifetime = 999, velocity = 1, water = 1 / 8, sediment = 0\<rparr> (- 1) = 4"
  "erosion_gain_fl round_double \<lparr>inertia = 1 / 10, slope = 1152921504606847 / 1152921504606846976, capacity = 32, deposition = 1 / 1000,
        erosion = 3602879701896397 / 36028797018963968, gravity = 981 / 100, evaporation = 1 / 500, radius = 1\<rparr> \<lparr>position = \<lparr>vec_x = 3 / 2, vec_y = 5 / 2\<rparr>, direction = \<lparr>vec_x = 0, vec_y = 0\<rparr>,
        lifetime = 999, velocity = 1, water = 1 / 8, sediment = 0\<rparr> (- 1) = 3602879701896397 / 9007199254740992"
  "total_weight_of_fl round_double (build_weights_fl round_double 5 5 \<lparr>vec_x = 5 / 2, vec_y = 5 / 2\<rparr> 1) = 1"
  "erode_fl round_double 5 5 (\<lambda>i. real_of_int (i mod 5)) \<lparr>vec_x = 5 / 2, vec_y = 5 / 2\<rparr> 1 (3602879701896397 / 9007199254740992) 0 =
     ((\<lambda>i. real_of_int (i mod 5))(12 := 3602879701896397 / 2251799813685248), 3602879701896397 / 9007199254740992)"
proof -
  have t: "c_trunc (3 / 2) = 1" "c_trunc (5 / 2) = 2" "c_trunc (7 / 2) = 3"
    by (rule c_trunc_unique_nonneg, simp_all)+
  have e0: "round_double 1 = 1"
    using round_double_eqI [of "0" "1" "4503599627370496"] by (simp add: pow2_def rne_def Let_def)
  have e1: "round_double (1 / 8) = 1 / 8"
    using round_double_eqI [of "- 3" "1 / 8" "4503599627370496"] by (simp add: pow2_def rne_def Let_def)
  have e2: "round_double 4 = 4"
    using round_double_eqI [of "2" "4" "4503599627370496"] by (simp add: pow2_def rne_def Let_def)
  have e3: "round_double (3602879701896397 / 9007199254740992) = 3602879701896397 / 9007199254740992"
    using round_double_eqI [of "- 2" "3602879701896397 / 9007199254740992" "7205759403792794"] by (simp add: pow2_def rne_def Let_def)
  have e4: "round_double (3 / 2) = 3 / 2"
    using round_double_eqI [of "0" "3 / 2" "6755399441055744"] by (simp add: pow2_def rne_def Let_def)
  have e5: "round_double (5 / 2) = 5 / 2"
    using round_double_eqI [of "1" "5 / 2" "5629499534213120"] by (simp add: pow2_def rne_def Let_def)
  have e6: "round_double (7 / 2) = 7 / 2"
    using round_double_eqI [of "1" "7 / 2" "7881299347898368"] by (simp add: pow2_def rne_def Let_def)
  have e7: "round_double 2 = 2"
    using round_double_eqI [of "1" "2" "4503599627370496"] by (simp add: pow2_def rne_def Let_def)
  have e8: "round_double (14411518807585587 / 9007199254740992) = 3602879701896397 / 2251799813685248"
    using round_double_eqI [of "0" "14411518807585587 / 9007199254740992" "7205759403792794"] by (simp add: pow2_def rne_def Let_def)
  have e9: "round_double 3 = 3"
    using round_double_eqI [of "1" "3" "6755399441055744"] by (simp add: pow2_def rne_def Let_def)
  note rs = e0 e1 e2 e3 e4 e5 e6 e7 e8 e9
  show cap: "drop_capacity_fl round_double \<lparr>inertia = 1 / 10, slope = 1152921504606847 / 1152921504606846976, capacity = 32, deposition = 1 / 1000,
        erosion = 3602879701896397 / 36028797018963968, gravity = 981 / 100, evaporation = 1 / 500, radius = 1\<rparr> \<lparr>position = \<lparr>vec_x = 3 / 2, vec_y = 5 / 2\<rparr>, direction = \<lparr>vec_x = 0, vec_y = 0\<rparr>,
        lifetime = 999, velocity = 1, water = 1 / 8, sediment = 0\<rparr> (- 1) = 4"
    by (simp add: drop_capacity_fl_def c_MAX_def rs)
  show "erosion_gain_fl round_double \<lparr>inertia = 1 / 10, slope = 1152921504606847 / 1152921504606846976, capacity = 32, deposition = 1 / 1000,
        erosion = 3602879701896397 / 36028797018963968, gravity = 981 / 100, evaporation = 1 / 500, radius = 1\<rparr> \<lparr>position = \<lparr>vec_x = 3 / 2, vec_y = 5 / 2\<rparr>, direction = \<lparr>vec_x = 0, vec_y = 0\<rparr>,
        lifetime = 999, velocity = 1, water = 1 / 8, sediment = 0\<rparr> (- 1) = 3602879701896397 / 9007199254740992"
    by (simp add: erosion_gain_fl_def cap c_MIN_def rs)
  have ws: "build_weights_fl round_double 5 5 \<lparr>vec_x = 5 / 2, vec_y = 5 / 2\<rparr> 1 =
      [unused_weight, \<lparr>used = True, w_x = 1, w_y = 2, w_w = 0\<rparr>, unused_weight,
       \<lparr>used = True, w_x = 2, w_y = 1, w_w = 0\<rparr>, \<lparr>used = True, w_x = 2, w_y = 2, w_w = 1\<rparr>,
       \<lparr>used = True, w_x = 2, w_y = 3, w_w = 0\<rparr>,
       unused_weight, \<lparr>used = True, w_x = 3, w_y = 2, w_w = 0\<rparr>, unused_weight]"
    by (simp add: build_weights_fl_def upto_radius_1 make_weight_fl_def t rs round_double_0
        round_double_sqrt_2)
  show tw: "total_weight_of_fl round_double (build_weights_fl round_double 5 5 \<lparr>vec_x = 5 / 2, vec_y = 5 / 2\<rparr> 1) = 1"
    by (simp add: ws total_weight_of_fl_def unused_weight_def rs round_double_0)
  show "erode_fl round_double 5 5 (\<lambda>i. real_of_int (i mod 5)) \<lparr>vec_x = 5 / 2, vec_y = 5 / 2\<rparr> 1 (3602879701896397 / 9007199254740992) 0 =
     ((\<lambda>i. real_of_int (i mod 5))(12 := 3602879701896397 / 2251799813685248), 3602879701896397 / 9007199254740992)"
    unfolding erode_fl_def Let_def tw
    by (simp add: ws erode_cell_fl_def unused_weight_def H_def rs round_double_0 fun_eq_iff)
qed

text \<open>
  C4 as stated fails in double arithmetic: the subtraction \<open>2 - 0.4\<close> is rounded, the
  height of the grid does not lose the gain exactly, and what it loses is not what the
  sediment is credited with.
\<close>

theorem erosion_rounding_counterexample:
  "sediment \<lparr>position = \<lparr>vec_x = 3 / 2, vec_y = 5 / 2\<rparr>, direction = \<lparr>vec_x = 0, vec_y = 0\<rparr>,
        lifetime = 999, velocity = 1, water = 1 / 8, sediment = 0\<rparr> < drop_capacity_fl round_double \<lparr>inertia = 1 / 10, slope = 1152921504606847 / 1152921504606846976, capacity = 32, deposition = 1 / 1000,
        erosion = 3602879701896397 / 36028797018963968, gravity = 981 / 100, evaporation = 1 / 500, radius = 1\<rparr> \<lparr>position = \<lparr>vec_x = 3 / 2, vec_y = 5 / 2\<rparr>, direction = \<lparr>vec_x = 0, vec_y = 0\<rparr>,
        lifetime = 999, velocity = 1, water = 1 / 8, sediment = 0\<rparr> (- 1)
   \<and> 0 < total_weight_of_fl round_double (build_weights_fl round_double 5 5 \<lparr>vec_x = 5 / 2, vec_y = 5 / 2\<rparr> 1)
   \<and> erosion_gain_fl round_double \<lparr>inertia = 1 / 10, slope = 1152921504606847 / 1152921504606846976, capacity = 32, deposition = 1 / 1000,
        erosion = 3602879701896397 / 36028797018963968, gravity = 981 / 100, evaporation = 1 / 500, radius = 1\<rparr> \<lparr>position = \<lparr>vec_x = 3 / 2, vec_y = 5 / 2\<rparr>, direction = \<lparr>vec_x = 0, vec_y = 0\<rparr>,
        lifetime = 999, velocity = 1, water = 1 / 8, sediment = 0\<rparr> (- 1) = 3602879701896397 / 9007199254740992
   \<and> grid_total 5 5 (fst (downhill_fl round_double 5 5 \<lparr>inertia = 1 / 10, slope = 1152921504606847 / 1152921504606846976, capacity = 32, deposition = 1 / 1000,
        erosion = 3602879701896397 / 36028797018963968, gravity = 981 / 100, evaporation = 1 / 500, radius = 1\<rparr> (\<lambda>i. real_of_int (i mod 5)) \<lparr>position = \<lparr>vec_x = 3 / 2, vec_y = 5 / 2\<rparr>, direction = \<lparr>vec_x = 0, vec_y = 0\<rparr>,
        lifetime = 999, velocity = 1, water = 1 / 8, sediment = 0\<rparr> \<lparr>vec_x = 5 / 2, vec_y = 5 / 2\<rparr> (- 1))) \<noteq>
       grid_total 5 5 (\<lambda>i. real_of_int (i mod 5)) - 3602879701896397 / 9007199254740992
   \<and> sediment (snd (downhill_fl round_double 5 5 \<lparr>inertia = 1 / 10, slope = 1152921504606847 / 1152921504606846976, capacity = 32, deposition = 1 / 1000,
        erosion = 3602879701896397 / 36028797018963968, gravity = 981 / 100, evaporation = 1 / 500, radius = 1\<rparr> (\<lambda>i. real_of_int (i mod 5)) \<lparr>position = \<lparr>vec_x = 3 / 2, vec_y = 5 / 2\<rparr>, direction = \<lparr>vec_x = 0, vec_y = 0\<rparr>,
        lifetime = 999, velocity = 1, water = 1 / 8, sediment = 0\<rparr> \<lparr>vec_x = 5 / 2, vec_y = 5 / 2\<rparr> (- 1))) = 3602879701896397 / 9007199254740992"
  by (simp add: erosion_trace downhill_fl_def grid_total_upd)

subsection \<open>The terrain generator\<close>

lemma distinct_cells: "distinct (cells width height)"
  by (simp add: cells_def distinct_product)

lemma set_cells:
  "c \<in> set (cells width height) \<longleftrightarrow> 0 \<le> fst c \<and> fst c < height \<and> 0 \<le> snd c \<and> snd c < width"
  by (cases c) (auto simp: cells_def)

lemma fold_update_cells:
  "distinct cs \<Longrightarrow>
   fold (\<lambda>c hm. hm(c := g c (hm c))) cs hm = (\<lambda>c. if c \<in> set cs then g c (hm c) else hm c)"
proof (induction cs arbitrary: hm)
  case Nil
  show ?case by simp
next
  case (Cons a cs)
  then have "a \<notin> set cs" "distinct cs" by simp_all
  with Cons.IH [of "hm(a := g a (hm a))"] show ?case by (auto simp: fun_eq_iff)
qed

lemma clear_grid_cells:
  "clear_grid width height hm = (\<lambda>c. if c \<in> set (cells width height) then Fin 0 else hm c)"
  unfolding clear_grid_def using fold_update_cells [OF distinct_cells, of "\<lambda>c v. Fin 0"] by simp

lemma add_boss_cells:
  "add_boss width height center gw amp hm =
     (\<lambda>c. if c \<in> set (cells width height) then dadd (hm c) (boss_value c center gw amp) else hm c)"
  unfolding add_boss_def
  using fold_update_cells [OF distinct_cells, of "\<lambda>c v. dadd v (boss_value c center gw amp)"] by simp

lemma normalize_grid_cells:
  "normalize_grid width height mn mx hm =
     (\<lambda>c. if c \<in> set (cells width height) then normalize_cell mn mx (hm c) else hm c)"
  unfolding normalize_grid_def
  using fold_update_cells [OF distinct_cells, of "\<lambda>c v. normalize_cell mn mx v"] by simp

lemma is_fin_Fin: "is_fin v \<Longrightarrow> v = Fin (fin_val v)"
  by (cases v) (simp_all add: is_fin_def fin_val_def)

lemma is_fin_simps: "is_fin (Fin a)" "\<not> is_fin NaN" "\<not> is_fin PInf" "\<not> is_fin NInf"
  by (simp_all add: is_fin_def)

lemma fin_val_Fin: "fin_val (Fin a) = a"
  by (simp add: fin_val_def)

lemma scale_fold_grid:
  "distinct cs \<Longrightarrow>
   fst (fold (scale_cell s) cs (hm, mn, mx)) =
     (\<lambda>c. if c \<in> set cs then dmul (hm c) (Fin (real_of_int s)) else hm c)"
proof (induction cs arbitrary: hm mn mx)
  case Nil
  show ?case by simp
next
  case (Cons a cs)
  then have a: "a \<notin> set cs" and d: "distinct cs" by simp_all
  define hm1 where "hm1 = hm(a := dmul (hm a) (Fin (real_of_int s)))"
  obtain mn1 mx1 where step: "scale_cell s a (hm, mn, mx) = (hm1, mn1, mx1)"
    by (simp add: scale_cell_def Let_def hm1_def)
  have "fst (fold (scale_cell s) (a # cs) (hm, mn, mx)) = fst (fold (scale_cell s) cs (hm1, mn1, mx1))"
    by (simp add: step)
  also have "\<dots> = (\<lambda>c. if c \<in> set cs then dmul (hm1 c) (Fin (real_of_int s)) else hm1 c)"
    by (rule Cons.IH [OF d])
  also have "\<dots> = (\<lambda>c. if c \<in> set (a # cs) then dmul (hm c) (Fin (real_of_int s)) else hm c)"
  proof (rule ext)
    fix c
    show "(if c \<in> set cs then dmul (hm1 c) (Fin (real_of_int s)) else hm1 c) =
          (if c \<in> set (a # cs) then dmul (hm c) (Fin (real_of_int s)) else hm c)"
      using a by (cases "c = a") (simp_all add: hm1_def)
  qed
  finally show ?case .
qed

lemma scale_fold_minmax:
  assumes "distinct cs" and "\<forall>c \<in> set cs. is_fin (hm c)"
  shows "\<exists>m' M'. snd (fold (scale_cell s) cs (hm, Fin m, Fin M)) = (Fin m', Fin M')
           \<and> m' \<le> m \<and> M \<le> M'
           \<and> (\<forall>c \<in> set cs. m' \<le> fin_val (hm c) * real_of_int s \<and> fin_val (hm c) * real_of_int s \<le> M')
           \<and> (m' = m \<or> (\<exists>c \<in> set cs. m' = fin_val (hm c) * real_of_int s))
           \<and> (M' = M \<or> (\<exists>c \<in> set cs. M' = fin_val (hm c) * real_of_int s))"
  using assms
proof (induction cs arbitrary: hm m M)
  case Nil
  show ?case by simp
next
  case (Cons a cs)
  then have a: "a \<notin> set cs" and d: "distinct cs" by simp_all
  define v where "v = fin_val (hm a) * real_of_int s"
  define hm1 where "hm1 = hm(a := Fin v)"
  define m1 where "m1 = (if v < m then v else m)"
  define M1 where "M1 = (if M < v then v else M)"
  obtain r where ha: "hm a = Fin r" using Cons.prems is_fin_Fin [of "hm a"] by auto
  have step: "scale_cell s a (hm, Fin m, Fin M) = (hm1, Fin m1, Fin M1)"
    by (simp add: scale_cell_def Let_def hm1_def m1_def M1_def v_def ha fin_val_Fin)
  have same: "hm1 c = hm c" if "c \<in> set cs" for c
    using that a by (auto simp: hm1_def)
  have fin1: "\<forall>c \<in> set cs. is_fin (hm1 c)" using Cons.prems same by simp
  from Cons.IH [OF d fin1, of m1 M1] obtain m' M' where
    res: "snd (fold (scale_cell s) cs (hm1, Fin m1, Fin M1)) = (Fin m', Fin M')"
    and le: "m' \<le> m1" "M1 \<le> M'"
    and all: "\<forall>c \<in> set cs. m' \<le> fin_val (hm1 c) * real_of_int s \<and> fin_val (hm1 c) * real_of_int s \<le> M'"
    and amin: "m' = m1 \<or> (\<exists>c \<in> set cs. m' = fin_val (hm1 c) * real_of_int s)"
    and amax: "M' = M1 \<or> (\<exists>c \<in> set cs. M' = fin_val (hm1 c) * real_of_int s)"
    by blast
  have b1: "m1 \<le> m" "m1 \<le> v" "M \<le> M1" "v \<le> M1" by (simp_all add: m1_def M1_def)
  have c1: "m1 = m \<or> m1 = v" "M1 = M \<or> M1 = v" by (simp_all add: m1_def M1_def)
  have "snd (fold (scale_cell s) (a # cs) (hm, Fin m, Fin M)) = (Fin m', Fin M')"
    by (simp add: step res)
  moreover have "m' \<le> m" "M \<le> M'" using le b1 by simp_all
  moreover have "\<forall>c \<in> set (a # cs). m' \<le> fin_val (hm c) * real_of_int s \<and> fin_val (hm c) * real_of_int s \<le> M'"
    using all same le b1 by (auto simp: v_def)
  moreover have "m' = m \<or> (\<exists>c \<in> set (a # cs). m' = fin_val (hm c) * real_of_int s)"
    using amin c1(1) same by (auto simp: v_def)
  moreover have "M' = M \<or> (\<exists>c \<in> set (a # cs). M' = fin_val (hm c) * real_of_int s)"
    using amax c1(2) same by (auto simp: v_def)
  ultimately show ?case by blast
qed

lemma generate_phases:
  "fst (generate_random_heightgaussian width height hm0 rnd k nb scale wr ar) =
     normalize_grid width height
       (fst (snd (scale_grid width height scale (bossed_heightmap width height hm0 rnd k nb wr ar))))
       (snd (snd (scale_grid width height scale (bossed_heightmap width height hm0 rnd k nb wr ar))))
       (fst (scale_grid width height scale (bossed_heightmap width height hm0 rnd k nb wr ar)))"
  by (simp add: generate_random_heightgaussian_def bossed_heightmap_def Let_def split: prod.splits)

lemma origin_in_cells: "c \<in> set (cells width height) \<Longrightarrow> (0, 0) \<in> set (cells width height)"
  by (auto simp: set_cells)

lemma scaled_cell:
  "c \<in> set (cells width height) \<Longrightarrow>
   fst (scale_grid width height scale hm) c = dmul (hm c) (Fin (real_of_int scale))"
  by (simp add: scale_grid_def Let_def scale_fold_grid [OF distinct_cells])

lemma scale_grid_finite:
  assumes fin: "\<forall>c \<in> set (cells width height). is_fin (hm c)"
    and ne: "(0, 0) \<in> set (cells width height)"
  shows "\<exists>m M. snd (scale_grid width height scale hm) = (Fin m, Fin M)
           \<and> (\<forall>c \<in> set (cells width height).
                 m \<le> fin_val (hm c) * real_of_int scale \<and> fin_val (hm c) * real_of_int scale \<le> M)
           \<and> (\<exists>c \<in> set (cells width height). m = fin_val (hm c) * real_of_int scale)
           \<and> (\<exists>c \<in> set (cells width height). M = fin_val (hm c) * real_of_int scale)"
proof -
  define m0 where "m0 = fin_val (hm (0, 0)) * real_of_int scale"
  have h0: "hm (0, 0) = Fin (fin_val (hm (0, 0)))" using fin ne by (simp add: is_fin_Fin)
  have start: "dmul (hm (0, 0)) (Fin (real_of_int scale)) = Fin m0"
    by (subst h0) (simp add: m0_def)
  from scale_fold_minmax [OF distinct_cells fin, of scale m0 m0] obtain m M where
    res: "snd (fold (scale_cell scale) (cells width height) (hm, Fin m0, Fin m0)) = (Fin m, Fin M)"
    and all: "\<forall>c \<in> set (cells width height).
        m \<le> fin_val (hm c) * real_of_int scale \<and> fin_val (hm c) * real_of_int scale \<le> M"
    and amin: "m = m0 \<or> (\<exists>c \<in> set (cells width height). m = fin_val (hm c) * real_of_int scale)"
    and amax: "M = m0 \<or> (\<exists>c \<in> set (cells width height). M = fin_val (hm c) * real_of_int scale)"
    by blast
  have "snd (scale_grid width height scale hm) = (Fin m, Fin M)"
    by (simp add: scale_grid_def Let_def start res)
  moreover have "\<exists>c \<in> set (cells width height). m = fin_val (hm c) * real_of_int scale"
    using amin ne by (auto simp: m0_def)
  moreover have "\<exists>c \<in> set (cells width height). M = fin_val (hm c) * real_of_int scale"
    using amax ne by (auto simp: m0_def)
  ultimately show ?thesis using all by blast
qed

lemma normalize_cell_Fin:
  "normalize_cell (Fin m) (Fin M) (Fin v) =
     (if M = m then (if v = m then NaN else if m < v then PInf else NInf)
      else Fin ((v - m) / (M - m) * 255))"
  by (simp add: normalize_cell_def dsub_def)

text \<open>The shape of the result when the grid is finite before the scaling.\<close>

lemma generate_finite:
  assumes fin: "\<forall>c \<in> set (cells width height).
      is_fin (bossed_heightmap width height hm0 rnd k nb wr ar c)"
    and ne: "(0, 0) \<in> set (cells width height)"
  shows "\<exists>m M.
      (\<forall>c \<in> set (cells width height).
         fst (generate_random_heightgaussian width height hm0 rnd k nb scale wr ar) c =
           normalize_cell (Fin m) (Fin M)
             (Fin (fin_val (bossed_heightmap width height hm0 rnd k nb wr ar c) * real_of_int scale))
         \<and> m \<le> fin_val (bossed_heightmap width height hm0 rnd k nb wr ar c) * real_of_int scale
         \<and> fin_val (bossed_heightmap width height hm0 rnd k nb wr ar c) * real_of_int scale \<le> M)
      \<and> (\<exists>c \<in> set (cells width height).
            m = fin_val (bossed_heightmap width height hm0 rnd k nb wr ar c) * real_of_int scale)
      \<and> (\<exists>c \<in> set (cells width height).
            M = fin_val (bossed_heightmap width height hm0 rnd k nb wr ar c) * real_of_int scale)"
proof -
  let ?hm = "bossed_heightmap width height hm0 rnd k nb wr ar"
  from scale_grid_finite [OF fin ne, of scale] obtain m M where
    mm: "snd (scale_grid width height scale ?hm) = (Fin m, Fin M)"
    and all: "\<forall>c \<in> set (cells width height).
        m \<le> fin_val (?hm c) * real_of_int scale \<and> fin_val (?hm c) * real_of_int scale \<le> M"
    and amin: "\<exists>c \<in> set (cells width height). m = fin_val (?hm c) * real_of_int scale"
    and amax: "\<exists>c \<in> set (cells width height). M = fin_val (?hm c) * real_of_int scale"
    by blast
  have "fst (generate_random_heightgaussian width height hm0 rnd k nb scale wr ar) c =
      normalize_cell (Fin m) (Fin M) (Fin (fin_val (?hm c) * real_of_int scale))"
    if c: "c \<in> set (cells width height)" for c
  proof -
    have "?hm c = Fin (fin_val (?hm c))" using fin c by (simp add: is_fin_Fin)
    then have "dmul (?hm c) (Fin (real_of_int scale)) = Fin (fin_val (?hm c) * real_of_int scale)"
      by (metis dmul.simps(1))
    with c show ?thesis
      by (simp add: generate_phases normalize_grid_cells mm scaled_cell)
  qed
  with all amin amax show ?thesis by blast
qed

lemma scaled_heightmap_cell:
  "c \<in> set (cells width height) \<Longrightarrow>
   scaled_heightmap width height hm0 rnd k nb scale wr ar c =
     dmul (bossed_heightmap width height hm0 rnd k nb wr ar c) (Fin (real_of_int scale))"
  by (simp add: scaled_heightmap_def scaled_cell)

lemma bossed_no_bosses:
  "num_bosses \<le> 0 \<Longrightarrow> c \<in> set (cells width height) \<Longrightarrow>
   bossed_heightmap width height hm0 rnd k num_bosses wr ar c = Fin 0"
  by (simp add: bossed_heightmap_def clear_grid_cells)

lemma generate_no_bosses:
  assumes "num_bosses \<le> 0" and c: "c \<in> set (cells width height)"
  shows "fst (generate_random_heightgaussian width height hm0 rnd k num_bosses scale wr ar) c = NaN"
proof -
  let ?b = "bossed_heightmap width height hm0 rnd k num_bosses wr ar"
  have zero: "?b c' = Fin 0" if "c' \<in> set (cells width height)" for c'
    using assms(1) that by (rule bossed_no_bosses)
  then have bfin: "\<forall>c' \<in> set (cells width height). is_fin (?b c')" by (simp add: is_fin_simps)
  have ne: "(0, 0) \<in> set (cells width height)" using c by (rule origin_in_cells)
  from generate_finite [OF bfin ne, of scale] obtain m M where
    cell: "\<And>c'. c' \<in> set (cells width height) \<Longrightarrow>
        fst (generate_random_heightgaussian width height hm0 rnd k num_bosses scale wr ar) c' =
        normalize_cell (Fin m) (Fin M) (Fin (fin_val (?b c') * real_of_int scale))"
    and amin: "\<exists>c' \<in> set (cells width height). m = fin_val (?b c') * real_of_int scale"
    and amax: "\<exists>c' \<in> set (cells width height). M = fin_val (?b c') * real_of_int scale"
    by blast
  have "m = 0" "M = 0" using amin amax zero by (auto simp: fin_val_Fin)
  with cell [OF c] zero [OF c] show ?thesis by (simp add: normalize_cell_Fin fin_val_Fin)
qed

text \<open>
  C1. With no boss every cell is 0 after the scaling loop, \<^verbatim>\<open>max\<close> equals \<^verbatim>\<open>min\<close>, and
  the normalizing loop divides 0 by 0 without a test: every cell of the result is a NaN,
  not 0. Here on a grid of 2 by 2 with the arguments of \<^verbatim>\<open>main\<close>.
\<close>

theorem degenerate_terrain_is_nan:
  "fst (generate_random_heightgaussian 2 2 (\<lambda>c. Fin 0) (\<lambda>i. 1) 0 0 10
         \<lparr>vec_x = 5, vec_y = 20\<rparr> \<lparr>vec_x = 1, vec_y = 15\<rparr>) (0, 0) = NaN
   \<and> fst (generate_random_heightgaussian 2 2 (\<lambda>c. Fin 0) (\<lambda>i. 1) 0 0 10
         \<lparr>vec_x = 5, vec_y = 20\<rparr> \<lparr>vec_x = 1, vec_y = 15\<rparr>) (0, 1) = NaN
   \<and> fst (generate_random_heightgaussian 2 2 (\<lambda>c. Fin 0) (\<lambda>i. 1) 0 0 10
         \<lparr>vec_x = 5, vec_y = 20\<rparr> \<lparr>vec_x = 1, vec_y = 15\<rparr>) (1, 0) = NaN
   \<and> fst (generate_random_heightgaussian 2 2 (\<lambda>c. Fin 0) (\<lambda>i. 1) 0 0 10
         \<lparr>vec_x = 5, vec_y = 20\<rparr> \<lparr>vec_x = 1, vec_y = 15\<rparr>) (1, 1) = NaN"
  by (simp add: generate_no_bosses set_cells)

lemma dless_NaN: "\<not> dless v NaN" "\<not> dless NaN v"
  by (cases v; simp)+

lemma scale_fold_nan: "snd (fold (scale_cell s) cs (hm, NaN, NaN)) = (NaN, NaN)"
  by (induction cs arbitrary: hm) (simp_all add: scale_cell_def Let_def dless_NaN)

lemma normalize_cell_NaN: "normalize_cell NaN mx v = NaN"
  by (cases v) (simp_all add: normalize_cell_def dsub_def)

lemma generate_nan_origin:
  assumes "bossed_heightmap width height hm0 rnd k nb wr ar (0, 0) = NaN"
    and "c \<in> set (cells width height)"
  shows "fst (generate_random_heightgaussian width height hm0 rnd k nb scale wr ar) c = NaN"
  using assms
  by (simp add: generate_phases normalize_grid_cells scale_grid_def scale_fold_nan normalize_cell_NaN)

text \<open>
  C7. The claim fails on the code. A boss whose width is 0 and whose centre is a cell
  divides 0 by 0 there: the cell is a NaN, \<^verbatim>\<open>min\<close> and \<^verbatim>\<open>max\<close>, which start from
  \<^verbatim>\<open>heightmap[0][0] * scale\<close>, stay NaN, and the normalizing loop turns every cell into a
  NaN. Here on a grid of 2 by 2 with one boss, the widths drawn from \<open>[0, 20]\<close> and a
  \<^verbatim>\<open>rand()\<close> that returns 449710063, which \<^verbatim>\<open>PCG_Hash\<close> maps to 0: the centre is
  \<open>(0, 0)\<close> and the width 0. The scaled grid is not all equal (a NaN at \<open>(0, 0)\<close>, 0
  at \<open>(1, 1)\<close>), and no cell of the result lies between 0 and 255.
\<close>

theorem zero_width_boss_is_nan:
  "fst (generate_random_heightgaussian 2 2 (\<lambda>c. Fin 0) (\<lambda>i. 449710063) 0 1 10
         \<lparr>vec_x = 0, vec_y = 20\<rparr> \<lparr>vec_x = 1, vec_y = 15\<rparr>) (0, 0) = NaN
   \<and> fst (generate_random_heightgaussian 2 2 (\<lambda>c. Fin 0) (\<lambda>i. 449710063) 0 1 10
         \<lparr>vec_x = 0, vec_y = 20\<rparr> \<lparr>vec_x = 1, vec_y = 15\<rparr>) (0, 1) = NaN
   \<and> fst (generate_random_heightgaussian 2 2 (\<lambda>c. Fin 0) (\<lambda>i. 449710063) 0 1 10
         \<lparr>vec_x = 0, vec_y = 20\<rparr> \<lparr>vec_x = 1, vec_y = 15\<rparr>) (1, 0) = NaN
   \<and> fst (generate_random_heightgaussian 2 2 (\<lambda>c. Fin 0) (\<lambda>i. 449710063) 0 1 10
         \<lparr>vec_x = 0, vec_y = 20\<rparr> \<lparr>vec_x = 1, vec_y = 15\<rparr>) (1, 1) = NaN
   \<and> scaled_heightmap 2 2 (\<lambda>c. Fin 0) (\<lambda>i. 449710063) 0 1 10
         \<lparr>vec_x = 0, vec_y = 20\<rparr> \<lparr>vec_x = 1, vec_y = 15\<rparr> (0, 0) = NaN
   \<and> scaled_heightmap 2 2 (\<lambda>c. Fin 0) (\<lambda>i. 449710063) 0 1 10
         \<lparr>vec_x = 0, vec_y = 20\<rparr> \<lparr>vec_x = 1, vec_y = 15\<rparr> (1, 1) = Fin 0"
proof -
  let ?wr = "\<lparr>vec_x = 0, vec_y = 20\<rparr>" and ?ar = "\<lparr>vec_x = 1, vec_y = 15\<rparr>"
  let ?rnd = "\<lambda>i::nat. 449710063 :: 32 word"
  let ?b = "bossed_heightmap 2 2 (\<lambda>c. Fin 0) ?rnd 0 1 ?wr ?ar"
  have center: "random_vec2 ?rnd 0 2 2 = \<lparr>vec_x = 0, vec_y = 0\<rparr>"
    by (simp add: random_vec2_def random_double_min_max_def random_double_zero)
  have gw: "random_double_min_max 449710063 0 20 = 0" and amp: "random_double_min_max 449710063 1 15 = 1"
    by (simp_all add: random_double_min_max_def random_double_zero)
  have bv: "boss_value (0, 0) \<lparr>vec_x = 0, vec_y = 0\<rparr> 0 1 = NaN"
    "boss_value (1, 1) \<lparr>vec_x = 0, vec_y = 0\<rparr> 0 1 = Fin 0"
    by (simp_all add: boss_value_def)
  have b: "?b (0, 0) = NaN" "?b (1, 1) = Fin 0"
    by (simp_all add: bossed_heightmap_def center gw amp add_boss_cells clear_grid_cells set_cells bv)
  have s: "scaled_heightmap 2 2 (\<lambda>c. Fin 0) ?rnd 0 1 10 ?wr ?ar (0, 0) = NaN"
    "scaled_heightmap 2 2 (\<lambda>c. Fin 0) ?rnd 0 1 10 ?wr ?ar (1, 1) = Fin 0"
    by (simp_all add: scaled_heightmap_cell set_cells b)
  show ?thesis
    by (simp add: generate_nan_origin [OF b(1)] set_cells s)
qed


end
